theory Spec2Isabelle
  imports Complex_Main "HOL-Library.Sublist"
begin

section \<open>The platformer's gameplay core\<close>

text \<open>
  A shallow embedding of the gameplay loop of the platformer: the constants of
  \<^verbatim>\<open>config.py\<close>, the level catalogue of \<^verbatim>\<open>src/levels/level_data.py\<close>, the sprites of
  \<^verbatim>\<open>src/sprites\<close> and the \<^verbatim>\<open>GameView\<close> of \<^verbatim>\<open>src/views/game_view.py\<close>.

  Conventions of the embedding.
  \<^item> Python floats (positions, velocities, timers, elapsed time) are exact reals: the
    properties below rest on comparisons, \<open>max\<close>, sign flips and additions, not on
    rounding. Python ints (score, health, level index) are \<open>int\<close>.
  \<^item> Objects mutated in place are records passed in and returned.
  \<^item> An \<^verbatim>\<open>IndexError\<close> of the source is the value \<open>Inl IndexError\<close>.
  \<^item> The arcade library is not part of the repository. What the game calls from it
    (the overlap test of two sprites, the platformer physics step, the jump permission)
    is a parameter, the record \<open>arcade\<close>; every theorem about the game holds for every
    such parameter unless it names a concrete one.
  \<^item> Sounds and music are left out: every use is wrapped in \<^verbatim>\<open>try/except: pass\<close> and
    none touches the gameplay fields.
\<close>

subsection \<open>config.py\<close>

definition GRAVITY :: real where "GRAVITY = 1"
definition PLAYER_MOVE_SPEED :: real where "PLAYER_MOVE_SPEED = 5"
definition PLAYER_JUMP_SPEED :: real where "PLAYER_JUMP_SPEED = 20"
definition PLAYER_MAX_HEALTH :: int where "PLAYER_MAX_HEALTH = 3"
definition KILL_PLANE_Y :: real where "KILL_PLANE_Y = - 200"
definition ANIMATION_RATE :: real where "ANIMATION_RATE = 12 / 100"

definition CHARACTER_SCALING :: real where "CHARACTER_SCALING = 1"
definition TILE_SCALING :: real where "TILE_SCALING = 1 / 2"
definition COIN_SCALING :: real where "COIN_SCALING = 1 / 2"
definition ENEMY_SCALING :: real where "ENEMY_SCALING = 6 / 10"
definition HAZARD_SCALING :: real where "HAZARD_SCALING = 1 / 2"

text \<open>Textures are identified by their resource path; the path prefixes are shortened.\<close>

definition PLAYER_MALE_IDLE :: string where "PLAYER_MALE_IDLE = ''maleAdventurer_idle''"
definition PLAYER_MALE_JUMP :: string where "PLAYER_MALE_JUMP = ''maleAdventurer_jump''"
definition PLAYER_MALE_WALK :: "string list" where
  "PLAYER_MALE_WALK = map (\<lambda>i. ''maleAdventurer_walk'' @ [i]) ''01234567''"
definition PLAYER_FEMALE_IDLE :: string where "PLAYER_FEMALE_IDLE = ''femaleAdventurer_idle''"
definition PLAYER_FEMALE_JUMP :: string where "PLAYER_FEMALE_JUMP = ''femaleAdventurer_jump''"
definition PLAYER_FEMALE_WALK :: "string list" where
  "PLAYER_FEMALE_WALK = map (\<lambda>i. ''femaleAdventurer_walk'' @ [i]) ''01234567''"

definition COIN_TEXTURE :: string where "COIN_TEXTURE = ''coinGold''"
definition GROUND_TEXTURE :: string where "GROUND_TEXTURE = ''grassMid''"
definition PLATFORM_TEXTURE :: string where "PLATFORM_TEXTURE = ''boxCrate_double''"
definition ENEMY_TEXTURE :: string where "ENEMY_TEXTURE = ''slimePurple''"
definition LAVA_TEXTURE :: string where "LAVA_TEXTURE = ''lava''"
definition WATER_TEXTURE :: string where "WATER_TEXTURE = ''water''"
definition FLAG_TEXTURE :: string where "FLAG_TEXTURE = ''signExit''"

subsection \<open>Python primitives used by the game\<close>

datatype py_error = IndexError

text \<open>
  \<^verbatim>\<open>xs[i]\<close> on a list: an index from 0 reads from the front, an index from
  \<open>- len\<close> to \<open>- 1\<close> reads from the back, and every other index is an IndexError.
\<close>

definition getitem :: "'a list \<Rightarrow> int \<Rightarrow> py_error + 'a" where
  "getitem xs i =
     (if 0 \<le> i \<and> i < int (length xs) then Inr (xs ! nat i)
      else if - int (length xs) \<le> i \<and> i < 0 then Inr (xs ! nat (int (length xs) + i))
      else Inl IndexError)"

text \<open>\<^verbatim>\<open>range(start, stop, step)\<close> for a positive step.\<close>

definition range3 :: "int \<Rightarrow> int \<Rightarrow> int \<Rightarrow> int list" where
  "range3 start stop step =
     map (\<lambda>k. start + step * int k) [0 ..< nat ((stop - start + step - 1) div step)]"

text \<open>\<^verbatim>\<open>int(x)\<close> of a float truncates towards zero.\<close>

definition py_int :: "real \<Rightarrow> int" where
  "py_int x = (if 0 \<le> x then \<lfloor>x\<rfloor> else \<lceil>x\<rceil>)"

text \<open>\<^verbatim>\<open>x % m\<close> on floats, for a positive \<open>m\<close>: the result has the sign of \<open>m\<close>.\<close>

definition py_fmod :: "real \<Rightarrow> real \<Rightarrow> real" where
  "py_fmod x m = x - m * of_int \<lfloor>x / m\<rfloor>"

subsection \<open>src/levels/level_data.py\<close>

record enemy_spec =
  e_position :: "real \<times> real"
  e_patrol_min_x :: real
  e_patrol_max_x :: real
  e_speed :: real

record hazard_spec =
  h_type :: string
  h_position :: "real \<times> real"
  h_width :: real

text \<open>
  A level is a dict; the two keys the game reads with \<^verbatim>\<open>.get(key, default)\<close>
  (\<^verbatim>\<open>hazards\<close> and \<^verbatim>\<open>kill_plane_y\<close>) may be absent, which is \<open>None\<close> here.
\<close>

record level =
  name :: string
  player_start :: "real \<times> real"
  ground_segments :: "(int \<times> int \<times> real) list"
  platforms :: "(real \<times> real) list"
  coins :: "(real \<times> real) list"
  goal_position :: "real \<times> real"
  enemies :: "enemy_spec list"
  hazards :: "hazard_spec list option"
  kill_plane_y :: "real option"

definition level_1 :: level where
  "level_1 = \<lparr>
     name = ''Forest Path'',
     player_start = (100, 200),
     ground_segments = [(0, 300, 100), (400, 700, 100), (800, 1000, 100)],
     platforms = [(200, 150), (500, 200), (600, 250), (900, 200)],
     coins = [(250, 220), (350, 220), (550, 270), (650, 320), (950, 270)],
     goal_position = (950, 270),
     enemies = [\<lparr>e_position = (300, 170), e_patrol_min_x = 250, e_patrol_max_x = 350, e_speed = 2\<rparr>],
     hazards = Some [],
     kill_plane_y = Some KILL_PLANE_Y \<rparr>"

definition level_2 :: level where
  "level_2 = \<lparr>
     name = ''Mountain Climb'',
     player_start = (100, 150),
     ground_segments = [(0, 200, 100), (300, 500, 150), (600, 800, 200), (850, 1000, 250)],
     platforms = [(250, 200), (450, 250), (550, 300), (750, 350), (900, 400)],
     coins = [(150, 170), (350, 320), (450, 370), (600, 370), (650, 420), (800, 470), (950, 520)],
     goal_position = (950, 520),
     enemies =
       [\<lparr>e_position = (400, 220), e_patrol_min_x = 350, e_patrol_max_x = 450, e_speed = 5 / 2\<rparr>,
        \<lparr>e_position = (700, 270), e_patrol_min_x = 650, e_patrol_max_x = 750, e_speed = 5 / 2\<rparr>],
     hazards = Some [\<lparr>h_type = ''lava'', h_position = (250, 75), h_width = 150\<rparr>],
     kill_plane_y = Some KILL_PLANE_Y \<rparr>"

definition level_3 :: level where
  "level_3 = \<lparr>
     name = ''Volcano Challenge'',
     player_start = (100, 200),
     ground_segments =
       [(0, 150, 100), (200, 350, 150), (400, 550, 200), (600, 750, 150), (800, 1000, 200)],
     platforms = [(300, 250), (500, 300), (700, 250), (850, 300)],
     coins = [(120, 270), (250, 320), (350, 370), (450, 420), (550, 420), (650, 320),
              (750, 370), (900, 420)],
     goal_position = (950, 420),
     enemies =
       [\<lparr>e_position = (250, 220), e_patrol_min_x = 200, e_patrol_max_x = 300, e_speed = 3\<rparr>,
        \<lparr>e_position = (450, 270), e_patrol_min_x = 400, e_patrol_max_x = 500, e_speed = 3\<rparr>,
        \<lparr>e_position = (650, 220), e_patrol_min_x = 600, e_patrol_max_x = 700, e_speed = 3\<rparr>],
     hazards = Some
       [\<lparr>h_type = ''lava'', h_position = (175, 75), h_width = 100\<rparr>,
        \<lparr>h_type = ''water'', h_position = (375, 75), h_width = 150\<rparr>,
        \<lparr>h_type = ''lava'', h_position = (775, 75), h_width = 200\<rparr>],
     kill_plane_y = Some KILL_PLANE_Y \<rparr>"

definition LEVELS :: "level list" where
  "LEVELS = [level_1, level_2, level_3]"

subsection \<open>Sprites\<close>

text \<open>
  What every \<^verbatim>\<open>arcade.Sprite\<close> carries and the game reads or writes. \<open>width = None\<close>
  is the width the texture and scale give; a hazard overrides it.
\<close>

record sprite =
  texture :: string
  scale :: real
  center_x :: real
  center_y :: real
  change_x :: real
  change_y :: real
  width :: "real option"

definition Sprite :: "string \<Rightarrow> real \<Rightarrow> sprite" where
  "Sprite tex sc = \<lparr> texture = tex, scale = sc, center_x = 0, center_y = 0,
     change_x = 0, change_y = 0, width = None \<rparr>"

subsubsection \<open>src/sprites/enemy.py\<close>

record enemy_sprite = sprite +
  patrol_min_x :: real
  patrol_max_x :: real

definition EnemySprite :: "enemy_spec \<Rightarrow> enemy_sprite" where
  "EnemySprite spec = \<lparr> texture = ENEMY_TEXTURE, scale = ENEMY_SCALING,
     center_x = fst (e_position spec), center_y = snd (e_position spec),
     change_x = e_speed spec, change_y = 0, width = None,
     patrol_min_x = e_patrol_min_x spec, patrol_max_x = e_patrol_max_x spec \<rparr>"

text \<open>\<^verbatim>\<open>EnemySprite.update\<close>; the elapsed time is an argument the method never reads.\<close>

definition enemy_update :: "real \<Rightarrow> enemy_sprite \<Rightarrow> enemy_sprite" where
  "enemy_update delta_time e =
     (let e1 = e\<lparr>center_x := center_x e + change_x e\<rparr>
      in if center_x e1 < patrol_min_x e1
           then e1\<lparr>center_x := patrol_min_x e1, change_x := change_x e1 * (- 1)\<rparr>
         else if center_x e1 > patrol_max_x e1
           then e1\<lparr>center_x := patrol_max_x e1, change_x := change_x e1 * (- 1)\<rparr>
         else e1)"

subsubsection \<open>src/sprites/hazards.py\<close>

datatype hazard_class = LavaHazard_class | WaterHazard_class

record hazard_sprite = sprite +
  hazard_class :: hazard_class
  time :: real
  base_y :: real
  alpha :: int

definition LavaHazard :: "real \<times> real \<Rightarrow> real \<Rightarrow> hazard_sprite" where
  "LavaHazard pos w = \<lparr> texture = LAVA_TEXTURE, scale = HAZARD_SCALING,
     center_x = fst pos, center_y = snd pos, change_x = 0, change_y = 0, width = Some w,
     hazard_class = LavaHazard_class, time = 0, base_y = snd pos, alpha = 255 \<rparr>"

definition WaterHazard :: "real \<times> real \<Rightarrow> real \<Rightarrow> hazard_sprite" where
  "WaterHazard pos w = \<lparr> texture = WATER_TEXTURE, scale = HAZARD_SCALING,
     center_x = fst pos, center_y = snd pos, change_x = 0, change_y = 0, width = Some w,
     hazard_class = WaterHazard_class, time = 0, base_y = snd pos, alpha = 255 \<rparr>"

definition lava_update_animation :: "real \<Rightarrow> hazard_sprite \<Rightarrow> hazard_sprite" where
  "lava_update_animation delta_time h =
     (let h1 = h\<lparr>time := time h + delta_time\<rparr>
      in h1\<lparr>alpha := 200 + 55 * \<bar>py_int (time h1 * 4) mod 2\<bar>\<rparr>)"

text \<open>
  \<^verbatim>\<open>offset = int(3 * (self.time * 2) % 2)\<close>: \<^verbatim>\<open>*\<close> and \<^verbatim>\<open>%\<close> bind alike and to the
  left, so the remainder is taken of the product \<open>3 * (time * 2)\<close>.
\<close>

definition water_update_animation :: "real \<Rightarrow> hazard_sprite \<Rightarrow> hazard_sprite" where
  "water_update_animation delta_time h =
     (let h1 = h\<lparr>time := time h + delta_time\<rparr>;
          offset = py_int (py_fmod (3 * (time h1 * 2)) 2)
      in h1\<lparr>center_y := base_y h1 + real_of_int offset\<rparr>)"

text \<open>\<^verbatim>\<open>hazard.update_animation(delta_time)\<close>, dispatched on the hazard's class.\<close>

definition hazard_update_animation :: "real \<Rightarrow> hazard_sprite \<Rightarrow> hazard_sprite" where
  "hazard_update_animation delta_time h =
     (case hazard_class h of
        LavaHazard_class \<Rightarrow> lava_update_animation delta_time h
      | WaterHazard_class \<Rightarrow> water_update_animation delta_time h)"

subsubsection \<open>src/sprites/player.py\<close>

record player_sprite = sprite +
  idle_texture :: string
  jump_texture :: string
  walk_textures :: "string list"
  facing_right :: bool
  cur_walk_frame :: nat
  frame_time :: real
  flip_h :: bool

definition PlayerSprite :: "string \<Rightarrow> player_sprite" where
  "PlayerSprite gender =
     (let (idle, jump, walk) =
            (if gender = ''male''
             then (PLAYER_MALE_IDLE, PLAYER_MALE_JUMP, PLAYER_MALE_WALK)
             else (PLAYER_FEMALE_IDLE, PLAYER_FEMALE_JUMP, PLAYER_FEMALE_WALK))
      in \<lparr> texture = idle, scale = CHARACTER_SCALING, center_x = 0, center_y = 0,
           change_x = 0, change_y = 0, width = None,
           idle_texture = idle, jump_texture = jump, walk_textures = walk,
           facing_right = True, cur_walk_frame = 0, frame_time = 0, flip_h = False \<rparr>)"

text \<open>
  \<^verbatim>\<open>PlayerSprite.update_animation\<close>. The walk frame is always below the eight walk
  textures (it starts at 0 and advances modulo their number), so the list read is in range.
\<close>

definition player_update_animation :: "real \<Rightarrow> player_sprite \<Rightarrow> player_sprite" where
  "player_update_animation delta_time p =
     (let p1 = (if change_x p < 0 then p\<lparr>facing_right := False\<rparr>
                else if change_x p > 0 then p\<lparr>facing_right := True\<rparr>
                else p);
          is_jumping = (change_y p1 > 1 \<or> change_y p1 < - 1);
          is_moving = (\<bar>change_x p1\<bar> > 1 / 10)
      in if is_jumping
           then p1\<lparr>texture := jump_texture p1, flip_h := \<not> facing_right p1\<rparr>
         else if is_moving
           then (let p2 = p1\<lparr>frame_time := frame_time p1 + delta_time\<rparr>;
                     p3 = (if frame_time p2 > ANIMATION_RATE
                           then p2\<lparr>frame_time := 0,
                                  cur_walk_frame :=
                                    (cur_walk_frame p2 + 1) mod length (walk_textures p2)\<rparr>
                           else p2)
                 in p3\<lparr>texture := walk_textures p3 ! cur_walk_frame p3,
                       flip_h := \<not> facing_right p3\<rparr>)
         else p1\<lparr>texture := idle_texture p1, flip_h := \<not> facing_right p1,
                 cur_walk_frame := 0, frame_time := 0\<rparr>)"

subsection \<open>The arcade library, as a parameter\<close>

text \<open>
  \<^verbatim>\<open>arcade.PhysicsEnginePlatformer(player, walls=..., gravity_constant=...)\<close>: the engine
  keeps the wall list and the gravity it was built with; the player it moves is the
  game's own player object, so the model hands it the player of the state.
\<close>

record platformer =
  walls :: "sprite list"
  gravity_constant :: real

text \<open>
  The three library calls of the game: \<^verbatim>\<open>arcade.check_for_collision(a, b)\<close>,
  \<^verbatim>\<open>physics_engine.update()\<close> (it takes no elapsed time) and
  \<^verbatim>\<open>physics_engine.can_jump()\<close>.
\<close>

record arcade =
  check_for_collision :: "sprite \<Rightarrow> sprite \<Rightarrow> bool"
  physics_update :: "platformer \<Rightarrow> player_sprite \<Rightarrow> player_sprite"
  can_jump :: "platformer \<Rightarrow> player_sprite \<Rightarrow> bool"

text \<open>\<^verbatim>\<open>arcade.check_for_collision_with_list\<close>: the members of the list that overlap.\<close>

definition check_for_collision_with_list ::
  "arcade \<Rightarrow> 'a sprite_scheme \<Rightarrow> 'b sprite_scheme list \<Rightarrow> 'b sprite_scheme list" where
  "check_for_collision_with_list ar a xs =
     filter (\<lambda>x. check_for_collision ar (sprite.truncate a) (sprite.truncate x)) xs"

subsection \<open>src/views/game_view.py\<close>

text \<open>What the window shows: \<^verbatim>\<open>window.show_view\<close> replaces it.\<close>

datatype view = CharacterSelectView | GameView_shown | GameOverView bool int string

text \<open>
  The \<^verbatim>\<open>GameView\<close> object. The scene's sprite lists are the fields \<open>Walls\<close>, \<open>Coins\<close>,
  \<open>Goal\<close>, \<open>Enemies\<close> and \<open>Hazards\<close>; the list \<^verbatim>\<open>"Player"\<close> holds the player alone
  and is only drawn. \<open>window_view\<close> is the view of the window the game belongs to.
\<close>

record game_view =
  gender :: string
  Walls :: "sprite list"
  Coins :: "sprite list"
  Goal :: "sprite list"
  Enemies :: "enemy_sprite list"
  Hazards :: "hazard_sprite list"
  player :: "player_sprite option"
  physics_engine :: "platformer option"
  level_index :: int
  score :: int
  health :: int
  total_coins :: int
  level_name :: string
  invuln_timer :: real
  move_left :: bool
  move_right :: bool
  window_view :: view

definition GameView :: "string \<Rightarrow> game_view" where
  "GameView g = \<lparr> gender = g, Walls = [], Coins = [], Goal = [], Enemies = [], Hazards = [],
     player = None, physics_engine = None, level_index = 0, score = 0,
     health = PLAYER_MAX_HEALTH, total_coins = 0, level_name = [], invuln_timer = 0,
     move_left = False, move_right = False, window_view = CharacterSelectView \<rparr>"

definition place :: "real \<times> real \<Rightarrow> sprite \<Rightarrow> sprite" where
  "place pos sp = sp\<lparr>center_x := fst pos, center_y := snd pos\<rparr>"

definition make_hazard :: "hazard_spec \<Rightarrow> hazard_sprite" where
  "make_hazard hazard_spec =
     (if h_type hazard_spec = ''lava''
      then LavaHazard (h_position hazard_spec) (h_width hazard_spec)
      else WaterHazard (h_position hazard_spec) (h_width hazard_spec))"

text \<open>
  \<^verbatim>\<open>GameView.setup\<close>, named \<open>setup_level\<close> here. \<open>place\<close> is the pair of
  assignments to \<^verbatim>\<open>center_x\<close> and \<^verbatim>\<open>center_y\<close>; \<open>make_hazard\<close> is the body of the hazard
  loop. The index is stored before the level is looked up; a failing lookup is the error
  alone.
\<close>

definition setup_level :: "int \<Rightarrow> game_view \<Rightarrow> py_error + game_view" where
  "setup_level li s =
     (case getitem LEVELS li of
        Inl e \<Rightarrow> Inl e
      | Inr lv \<Rightarrow>
          (let p = (PlayerSprite (gender s))
                     \<lparr>center_x := fst (player_start lv), center_y := snd (player_start lv)\<rparr>;
               ground = concat (map (\<lambda>(start_x, end_x, y).
                            map (\<lambda>x. place (real_of_int x, y) (Sprite GROUND_TEXTURE TILE_SCALING))
                                (range3 start_x end_x 64))
                          (ground_segments lv));
               plats = map (\<lambda>pos. place pos (Sprite PLATFORM_TEXTURE TILE_SCALING)) (platforms lv);
               cs = map (\<lambda>pos. place pos (Sprite COIN_TEXTURE COIN_SCALING)) (coins lv);
               goal = place (goal_position lv) (Sprite FLAG_TEXTURE (TILE_SCALING * (3 / 2)));
               es = map EnemySprite (enemies lv);
               hs = map make_hazard (case hazards lv of None \<Rightarrow> [] | Some l \<Rightarrow> l)
           in Inr (s\<lparr> level_index := li,
                      level_name := name lv,
                      player := Some p,
                      Walls := ground @ plats,
                      Coins := cs,
                      total_coins := int (length (coins lv)),
                      Goal := [goal],
                      Enemies := es,
                      Hazards := hs,
                      physics_engine := Some \<lparr>walls = ground @ plats, gravity_constant = GRAVITY\<rparr>,
                      score := (if li = 0 then 0 else score s),
                      health := (if li = 0 then PLAYER_MAX_HEALTH else health s),
                      invuln_timer := 0 \<rparr>)))"

definition handle_input :: "game_view \<Rightarrow> game_view" where
  "handle_input s =
     (case player s of
        None \<Rightarrow> s
      | Some p \<Rightarrow>
          (let dx0 = 0;
               dx1 = (if move_left s then dx0 - PLAYER_MOVE_SPEED else dx0);
               dx2 = (if move_right s then dx1 + PLAYER_MOVE_SPEED else dx1)
           in s\<lparr>player := Some (p\<lparr>change_x := dx2\<rparr>)\<rparr>))"

text \<open>
  \<^verbatim>\<open>_check_coin_collisions\<close>: the loop over the coins hit is a fold; removing a coin
  from its sprite list is \<open>remove1\<close>.
\<close>

definition collect_coin :: "sprite \<Rightarrow> game_view \<Rightarrow> game_view" where
  "collect_coin coin s = s\<lparr>Coins := remove1 coin (Coins s), score := score s + 1\<rparr>"

definition check_coin_collisions :: "arcade \<Rightarrow> game_view \<Rightarrow> game_view" where
  "check_coin_collisions ar s =
     (case player s of
        None \<Rightarrow> s
      | Some p \<Rightarrow>
          (let coins_hit = check_for_collision_with_list ar p (Coins s)
           in fold collect_coin coins_hit s))"

definition check_enemy_collisions :: "arcade \<Rightarrow> real \<Rightarrow> game_view \<Rightarrow> game_view" where
  "check_enemy_collisions ar delta_time s =
     (case player s of
        None \<Rightarrow> s
      | Some p \<Rightarrow>
          (let s1 = s\<lparr>invuln_timer := max 0 (invuln_timer s - delta_time)\<rparr>
           in if invuln_timer s1 > 0 then s1
              else (let hits = check_for_collision_with_list ar p (Enemies s1)
                    in if hits \<noteq> []
                       then s1\<lparr> health := health s1 - 1,
                                invuln_timer := 1,
                                player := Some (p\<lparr> change_y := PLAYER_JUMP_SPEED / 2,
                                                   change_x := change_x p * (- 1) \<rparr>) \<rparr>
                       else s1)))"

definition check_hazard_collisions :: "arcade \<Rightarrow> real \<Rightarrow> game_view \<Rightarrow> game_view" where
  "check_hazard_collisions ar delta_time s =
     (case player s of
        None \<Rightarrow> s
      | Some p \<Rightarrow>
          if invuln_timer s > 0 then s
          else (let hazards_hit = check_for_collision_with_list ar p (Hazards s)
                in if hazards_hit \<noteq> []
                   then s\<lparr> health := health s - 1,
                           invuln_timer := 1,
                           player := Some (p\<lparr>change_y := PLAYER_JUMP_SPEED / (3 / 2)\<rparr>) \<rparr>
                   else s))"

definition check_goal :: "arcade \<Rightarrow> game_view \<Rightarrow> bool" where
  "check_goal ar s =
     (case player s of
        None \<Rightarrow> False
      | Some p \<Rightarrow>
          (case Goal s of
             [] \<Rightarrow> False
           | g # _ \<Rightarrow>
               if check_for_collision ar (sprite.truncate p) g
               then (if score s \<ge> total_coins s then True else False)
               else False))"

definition check_lose :: "game_view \<Rightarrow> py_error + bool" where
  "check_lose s =
     (case player s of
        None \<Rightarrow> Inr True
      | Some p \<Rightarrow>
          if health s \<le> 0 then Inr True
          else (case getitem LEVELS (level_index s) of
                  Inl e \<Rightarrow> Inl e
                | Inr lv \<Rightarrow>
                    if center_y p < (case kill_plane_y lv of None \<Rightarrow> KILL_PLANE_Y | Some k \<Rightarrow> k)
                    then Inr True
                    else Inr False))"

text \<open>
  \<^verbatim>\<open>on_update\<close> in three parts. First the movement of the frame: the input, the physics
  step, the player's animation, the enemies' patrol (the enemy list's \<^verbatim>\<open>update()\<close> calls
  each enemy's \<^verbatim>\<open>update\<close> with the default elapsed time) and the hazards' animation.
\<close>

definition update_sprites :: "arcade \<Rightarrow> real \<Rightarrow> game_view \<Rightarrow> game_view" where
  "update_sprites ar delta_time s =
     (let s1 = handle_input s;
          s2 = (case (physics_engine s1, player s1) of
                  (Some eng, Some p) \<Rightarrow> s1\<lparr>player := Some (physics_update ar eng p)\<rparr>
                | _ \<Rightarrow> s1);
          s3 = s2\<lparr>player := map_option (player_update_animation delta_time) (player s2)\<rparr>;
          s4 = s3\<lparr>Enemies := map (enemy_update (1 / 60)) (Enemies s3)\<rparr>
      in s4\<lparr>Hazards := map (hazard_update_animation delta_time) (Hazards s4)\<rparr>)"

text \<open>Then the three collision checks, in the order of the source.\<close>

definition update_and_collide :: "arcade \<Rightarrow> real \<Rightarrow> game_view \<Rightarrow> game_view" where
  "update_and_collide ar delta_time s =
     check_hazard_collisions ar delta_time
       (check_enemy_collisions ar delta_time
         (check_coin_collisions ar (update_sprites ar delta_time s)))"

text \<open>
  Last the outcome: nothing at all happens in a game that was never set up; otherwise,
  after the two parts above, the lose check, and only if that does not fire the goal check.
  Showing the game-over view is the assignment to \<open>window_view\<close>.
\<close>

definition on_update :: "arcade \<Rightarrow> real \<Rightarrow> game_view \<Rightarrow> py_error + game_view" where
  "on_update ar delta_time s =
     (if physics_engine s = None \<or> player s = None then Inr s
      else (let s1 = update_and_collide ar delta_time s
            in case check_lose s1 of
                 Inl e \<Rightarrow> Inl e
               | Inr True \<Rightarrow>
                   Inr (s1\<lparr>window_view := GameOverView False (score s1) (level_name s1)\<rparr>)
               | Inr False \<Rightarrow>
                   if check_goal ar s1
                   then (if level_index s1 + 1 < int (length LEVELS)
                         then (let s2 = s1\<lparr>level_index := level_index s1 + 1\<rparr>
                               in setup_level (level_index s2) s2)
                         else Inr (s1\<lparr>window_view :=
                                        GameOverView True (score s1) (level_name s1)\<rparr>))
                   else Inr s1))"

datatype key = key_A | key_LEFT | key_D | key_RIGHT | key_W | key_UP | key_SPACE | key_other

definition on_key_press :: "arcade \<Rightarrow> key \<Rightarrow> game_view \<Rightarrow> game_view" where
  "on_key_press ar k s =
     (case (player s, physics_engine s) of
        (Some p, Some eng) \<Rightarrow>
          if k \<in> {key_A, key_LEFT} then s\<lparr>move_left := True\<rparr>
          else if k \<in> {key_D, key_RIGHT} then s\<lparr>move_right := True\<rparr>
          else if k \<in> {key_W, key_UP, key_SPACE}
            then (if can_jump ar eng p
                  then s\<lparr>player := Some (p\<lparr>change_y := PLAYER_JUMP_SPEED\<rparr>)\<rparr>
                  else s)
          else s
      | _ \<Rightarrow> s)"

definition on_key_release :: "key \<Rightarrow> game_view \<Rightarrow> game_view" where
  "on_key_release k s =
     (if k \<in> {key_A, key_LEFT} then s\<lparr>move_left := False\<rparr>
      else if k \<in> {key_D, key_RIGHT} then s\<lparr>move_right := False\<rparr>
      else s)"

text \<open>
  \<^verbatim>\<open>CharacterSelectView.on_key_press\<close> on ENTER or SPACE: a fresh game, set up at level 0
  and shown.
\<close>

definition start_game :: "string \<Rightarrow> py_error + game_view" where
  "start_game g =
     (case setup_level 0 (GameView g) of
        Inl e \<Rightarrow> Inl e
      | Inr s \<Rightarrow> Inr (s\<lparr>window_view := GameView_shown\<rparr>))"

text \<open>
  The states a session passes through: the window sends frames and key events to its
  current view only, so the game receives them while it is the view shown.
\<close>

inductive reachable :: "arcade \<Rightarrow> game_view \<Rightarrow> bool" for ar :: arcade where
  started: "start_game g = Inr s \<Longrightarrow> reachable ar s"
| frame: "reachable ar s \<Longrightarrow> window_view s = GameView_shown \<Longrightarrow>
          on_update ar delta_time s = Inr s' \<Longrightarrow> reachable ar s'"
| pressed: "reachable ar s \<Longrightarrow> window_view s = GameView_shown \<Longrightarrow>
            reachable ar (on_key_press ar k s)"
| released: "reachable ar s \<Longrightarrow> window_view s = GameView_shown \<Longrightarrow>
             reachable ar (on_key_release k s)"

text \<open>
  A run of frames, one per elapsed time of the list: the window sends a frame to the game
  only while the game is the view shown, and an error ends the run.
\<close>

fun frames :: "arcade \<Rightarrow> real list \<Rightarrow> game_view \<Rightarrow> py_error + game_view" where
  "frames ar [] s = Inr s"
| "frames ar (delta_time # dts) s =
     (if window_view s \<noteq> GameView_shown then Inr s
      else (case on_update ar delta_time s of
              Inl e \<Rightarrow> Inl e
            | Inr s' \<Rightarrow> frames ar dts s'))"

subsection \<open>A concrete library, for running the model\<close>

text \<open>
  One instance of the library parameter, used where a property is run on concrete frames.
  Textures are taken to be 128 pixels square and a hit box is the scaled texture rectangle
  (with the sprite's own width where it sets one); two sprites collide when their boxes
  overlap. The physics step is that of arcade's platformer engine reduced to its core: it
  takes no elapsed time, subtracts the gravity constant from the vertical velocity and
  moves the player by its velocity, first vertically, then horizontally, undoing a move
  that ends inside a wall.
\<close>

definition half_width :: "sprite \<Rightarrow> real" where
  "half_width sp = (case width sp of Some w \<Rightarrow> w / 2 | None \<Rightarrow> 64 * scale sp)"

definition half_height :: "sprite \<Rightarrow> real" where
  "half_height sp = 64 * scale sp"

definition boxes_overlap :: "sprite \<Rightarrow> sprite \<Rightarrow> bool" where
  "boxes_overlap a b \<longleftrightarrow>
     \<bar>center_x a - center_x b\<bar> < half_width a + half_width b \<and>
     \<bar>center_y a - center_y b\<bar> < half_height a + half_height b"

definition hits_wall :: "platformer \<Rightarrow> player_sprite \<Rightarrow> bool" where
  "hits_wall eng p = list_ex (boxes_overlap (sprite.truncate p)) (walls eng)"

definition box_physics :: "platformer \<Rightarrow> player_sprite \<Rightarrow> player_sprite" where
  "box_physics eng p =
     (let vy = change_y p - gravity_constant eng;
          fallen = p\<lparr>center_y := center_y p + vy, change_y := vy\<rparr>;
          p1 = (if hits_wall eng fallen then p\<lparr>change_y := 0\<rparr> else fallen);
          walked = p1\<lparr>center_x := center_x p1 + change_x p1\<rparr>
      in if hits_wall eng walked then p1 else walked)"

definition box_can_jump :: "platformer \<Rightarrow> player_sprite \<Rightarrow> bool" where
  "box_can_jump eng p = hits_wall eng (p\<lparr>center_y := center_y p - 2\<rparr>)"

definition box_arcade :: arcade where
  "box_arcade = \<lparr> check_for_collision = boxes_overlap, physics_update = box_physics,
     can_jump = box_can_jump \<rparr>"

text \<open>
  A second, minimal instance: the player hovers where it is, and every enemy touches it
  while nothing else does. It makes damage frames short to write down.
\<close>

definition contact_arcade :: arcade where
  "contact_arcade = \<lparr> check_for_collision = (\<lambda>a b. texture b = ENEMY_TEXTURE),
     physics_update = (\<lambda>eng p. p), can_jump = (\<lambda>eng p. False) \<rparr>"

text \<open>
  A third instance, for playing a whole level in three frames: hit boxes as in the first,
  and a physics step that carries the player from the start to the level's first two
  coins, from there to the next two, and from there to the flag, where the fifth coin
  lies. The step moves the player and changes nothing else of it.
\<close>

definition carry :: "platformer \<Rightarrow> player_sprite \<Rightarrow> player_sprite" where
  "carry eng p =
     (if center_x p < 200 then p\<lparr>center_x := 300, center_y := 290\<rparr>
      else if center_x p < 500 then p\<lparr>center_x := 600, center_y := 295\<rparr>
      else p\<lparr>center_x := 950, center_y := 270\<rparr>)"

definition carried_arcade :: arcade where
  "carried_arcade = \<lparr> check_for_collision = boxes_overlap, physics_update = carry,
     can_jump = box_can_jump \<rparr>"

subsection \<open>The flag, out of harm's way\<close>

text \<open>
  What the level data have in common. An enemy is apart from the flag \<open>g\<close> when it is
  within its patrol and the patrol ends 214.4 pixels or more to the left of the flag, or
  the enemy walks 214.4 pixels or more below it: 214.4 is the sum of the half sizes of
  player and flag (64 + 48) and of player and enemy (64 + 38.4), so that a player whose
  texture box overlaps that of the flag is out of the enemy's box. A hazard is apart from
  the flag when it lies 208 pixels or more below it, (64 + 48) + (64 + 32), and one more
  for the pixel by which water bobs. A state has its flag apart when it has a player and
  one flag of the sizes the game gives them, the flag stands 112 pixels or more above the
  kill plane, and every enemy and hazard is apart from the flag.
\<close>

definition enemy_apart :: "sprite \<Rightarrow> enemy_sprite \<Rightarrow> bool" where
  "enemy_apart g e \<longleftrightarrow>
     scale e = 6 / 10 \<and> width e = None \<and> patrol_min_x e \<le> patrol_max_x e \<and>
     center_x e \<le> patrol_max_x e \<and>
     (patrol_max_x e + 2144 / 10 \<le> center_x g \<or> center_y e + 2144 / 10 \<le> center_y g)"

definition hazard_apart :: "sprite \<Rightarrow> hazard_sprite \<Rightarrow> bool" where
  "hazard_apart g h \<longleftrightarrow>
     scale h = 1 / 2 \<and> center_y h \<le> base_y h + 1 \<and> base_y h + 209 \<le> center_y g"

definition goal_apart :: "game_view \<Rightarrow> bool" where
  "goal_apart s \<longleftrightarrow>
     (case player s of None \<Rightarrow> False | Some p \<Rightarrow> scale p = 1 \<and> width p = None) \<and>
     (case Goal s of
        [g] \<Rightarrow> scale g = 3 / 4 \<and> width g = None \<and> - 88 \<le> center_y g \<and>
               list_all (enemy_apart g) (Enemies s) \<and> list_all (hazard_apart g) (Hazards s)
      | _ \<Rightarrow> False)"

text \<open>
  A library is within the boxes when two sprites it reports as colliding have overlapping
  texture boxes (a hit box lies inside its texture) and its physics step keeps the size
  of the player.
\<close>

definition within_boxes :: "arcade \<Rightarrow> bool" where
  "within_boxes ar \<longleftrightarrow>
     (\<forall>a b. check_for_collision ar a b \<longrightarrow> boxes_overlap a b) \<and>
     (\<forall>eng p. scale (physics_update ar eng p) = scale p \<and>
              width (physics_update ar eng p) = width p)"

subsection \<open>Concrete states\<close>

text \<open>
  The last level at its end: all eight coins collected, one heart left, and the player,
  an enemy and the exit flag in the same place.
\<close>

definition showdown :: game_view where
  "showdown = \<lparr> gender = ''female'', Walls = [], Coins = [],
     Goal = [place (950, 420) (Sprite FLAG_TEXTURE (TILE_SCALING * (3 / 2)))],
     Enemies = [EnemySprite \<lparr>e_position = (950, 420), e_patrol_min_x = 900,
                               e_patrol_max_x = 1000, e_speed = 3\<rparr>],
     Hazards = [],
     player = Some ((PlayerSprite ''female'')\<lparr>center_x := 950, center_y := 420\<rparr>),
     physics_engine = Some \<lparr>walls = [], gravity_constant = GRAVITY\<rparr>,
     level_index = 2, score = 8, health = 1, total_coins = 8,
     level_name = ''Volcano Challenge'', invuln_timer = 0,
     move_left = False, move_right = False, window_view = GameView_shown \<rparr>"

text \<open>
  The second level, entered with the five coins of the first: one of its seven coins has
  been collected (score 6), five lie untouched, and the player is one pixel above the
  exit flag, where the seventh lies.
\<close>

definition shortcut :: game_view where
  "shortcut = \<lparr> gender = ''female'', Walls = [],
     Coins = map (\<lambda>pos. place pos (Sprite COIN_TEXTURE COIN_SCALING))
               [(350, 320), (450, 370), (600, 370), (650, 420), (800, 470), (950, 520)],
     Goal = [place (950, 520) (Sprite FLAG_TEXTURE (TILE_SCALING * (3 / 2)))],
     Enemies = [], Hazards = [],
     player = Some ((PlayerSprite ''female'')\<lparr>center_x := 950, center_y := 521\<rparr>),
     physics_engine = Some \<lparr>walls = [], gravity_constant = GRAVITY\<rparr>,
     level_index = 1, score = 6, health = 3, total_coins = 7,
     level_name = ''Mountain Climb'', invuln_timer = 0,
     move_left = False, move_right = False, window_view = GameView_shown \<rparr>"

text \<open>
  The first level early on: the player is one pixel above the first coin and within reach
  of the enemy, with three hearts and no invulnerability left.
\<close>

definition first_coin :: game_view where
  "first_coin = \<lparr> gender = ''female'', Walls = [],
     Coins = map (\<lambda>pos. place pos (Sprite COIN_TEXTURE COIN_SCALING))
               [(250, 220), (350, 220), (550, 270), (650, 320), (950, 270)],
     Goal = [place (950, 270) (Sprite FLAG_TEXTURE (TILE_SCALING * (3 / 2)))],
     Enemies = [EnemySprite \<lparr>e_position = (300, 170), e_patrol_min_x = 250,
                               e_patrol_max_x = 350, e_speed = 2\<rparr>],
     Hazards = [],
     player = Some ((PlayerSprite ''female'')\<lparr>center_x := 250, center_y := 221\<rparr>),
     physics_engine = Some \<lparr>walls = [], gravity_constant = GRAVITY\<rparr>,
     level_index = 0, score = 0, health = 3, total_coins = 5,
     level_name = ''Forest Path'', invuln_timer = 0,
     move_left = False, move_right = False, window_view = GameView_shown \<rparr>"

text \<open>The same level one frame later: the coin is gone and the enemy has hit.\<close>

definition first_coin_taken :: game_view where
  "first_coin_taken = first_coin
     \<lparr> Coins := map (\<lambda>pos. place pos (Sprite COIN_TEXTURE COIN_SCALING))
               [(350, 220), (550, 270), (650, 320), (950, 270)],
       Enemies := [(EnemySprite \<lparr>e_position = (300, 170), e_patrol_min_x = 250,
                               e_patrol_max_x = 350, e_speed = 2\<rparr>)\<lparr>center_x := 302\<rparr>],
       player := Some ((PlayerSprite ''female'')
                  \<lparr>center_x := 250, center_y := 220, change_y := 10\<rparr>),
       score := 1, health := 2, invuln_timer := 1 \<rparr>"

text \<open>
  What stays true of the first level while the player hovers at its start height among
  the enemies of the contact library: the shape of the state in which each frame that
  finds the timer run out costs one heart.
\<close>

definition among_enemies :: "game_view \<Rightarrow> bool" where
  "among_enemies s \<longleftrightarrow>
     (case player s of None \<Rightarrow> False | Some p \<Rightarrow> center_y p = 200) \<and>
     physics_engine s \<noteq> None \<and>
     (case Goal s of [g] \<Rightarrow> texture g = FLAG_TEXTURE | _ \<Rightarrow> False) \<and>
     Enemies s \<noteq> [] \<and> list_all (\<lambda>e. texture e = ENEMY_TEXTURE) (Enemies s) \<and>
     Hazards s = [] \<and> level_index s = 0 \<and> window_view s = GameView_shown"

text \<open>The first level as level setup leaves it in a new game.\<close>

definition fresh_game :: game_view where
  "fresh_game =
     (case setup_level 0 (GameView ''female'') of
        Inr s \<Rightarrow> s
      | Inl e \<Rightarrow> GameView ''female'')"

text \<open>
  A new game as the character selection starts it, and the two states that follow it in
  the three frames of the third library: two coins collected, then four.
\<close>

definition new_game :: game_view where
  "new_game = fresh_game\<lparr>window_view := GameView_shown\<rparr>"

definition two_coins_on :: game_view where
  "two_coins_on = new_game
     \<lparr> Coins := map (\<lambda>pos. place pos (Sprite COIN_TEXTURE COIN_SCALING))
               [(550, 270), (650, 320), (950, 270)],
       Enemies := [(EnemySprite \<lparr>e_position = (300, 170), e_patrol_min_x = 250,
                               e_patrol_max_x = 350, e_speed = 2\<rparr>)\<lparr>center_x := 302\<rparr>],
       player := Some ((PlayerSprite ''female'')\<lparr>center_x := 300, center_y := 290\<rparr>),
       score := 2 \<rparr>"

definition four_coins_on :: game_view where
  "four_coins_on = new_game
     \<lparr> Coins := [place (950, 270) (Sprite COIN_TEXTURE COIN_SCALING)],
       Enemies := [(EnemySprite \<lparr>e_position = (300, 170), e_patrol_min_x = 250,
                               e_patrol_max_x = 350, e_speed = 2\<rparr>)\<lparr>center_x := 304\<rparr>],
       player := Some ((PlayerSprite ''female'')\<lparr>center_x := 600, center_y := 295\<rparr>),
       score := 4 \<rparr>"

section \<open>Properties\<close>

lemmas config_defs = GRAVITY_def PLAYER_MOVE_SPEED_def PLAYER_JUMP_SPEED_def
  PLAYER_MAX_HEALTH_def KILL_PLANE_Y_def ANIMATION_RATE_def CHARACTER_SCALING_def
  TILE_SCALING_def COIN_SCALING_def ENEMY_SCALING_def HAZARD_SCALING_def

lemmas box_defs = box_arcade_def box_physics_def box_can_jump_def hits_wall_def
  boxes_overlap_def half_width_def half_height_def

subsection \<open>Coin pickup, as a filter\<close>

lemma truncate_sprite [simp]: "sprite.truncate (c :: sprite) = c"
  by (cases c) (simp add: sprite.defs)

lemma fold_collect_coin:
  "fold collect_coin cs s =
     s\<lparr>Coins := fold remove1 cs (Coins s), score := score s + int (length cs)\<rparr>"
  by (induction cs arbitrary: s) (simp_all add: collect_coin_def)

lemma fold_remove1_filter_gen:
  "\<forall>z \<in> set zs. \<not> P z \<Longrightarrow>
   fold remove1 (filter P xs) (zs @ xs) = zs @ filter (\<lambda>x. \<not> P x) xs"
proof (induction xs arbitrary: zs)
  case Nil
  then show ?case by simp
next
  case (Cons x xs)
  show ?case
  proof (cases "P x")
    case True
    with Cons.prems have "x \<notin> set zs" by blast
    then have "remove1 x (zs @ x # xs) = zs @ xs"
      by (simp add: remove1_append)
    with True Cons.IH [OF Cons.prems] show ?thesis by simp
  next
    case False
    with Cons.prems have "\<forall>z \<in> set (zs @ [x]). \<not> P z" by simp
    from Cons.IH [OF this] False show ?thesis by simp
  qed
qed

lemma fold_remove1_filter:
  "fold remove1 (filter P xs) xs = filter (\<lambda>x. \<not> P x) xs"
  using fold_remove1_filter_gen [of "[]" P xs] by simp

lemma check_coin_collisions_eq:
  assumes "player s = Some p"
  shows "check_coin_collisions ar s =
     s\<lparr>Coins := filter (\<lambda>c. \<not> check_for_collision ar (sprite.truncate p) c) (Coins s),
       score := score s +
         int (length (filter (\<lambda>c. check_for_collision ar (sprite.truncate p) c) (Coins s)))\<rparr>"
  using assms
  by (simp add: check_coin_collisions_def check_for_collision_with_list_def
      fold_collect_coin fold_remove1_filter)

lemma check_coin_collisions_None:
  "player s = None \<Longrightarrow> check_coin_collisions ar s = s"
  by (simp add: check_coin_collisions_def)

subsection \<open>What a frame leaves alone, and the two outcomes of its damage checks\<close>

lemma check_coin_collisions_shape:
  "check_coin_collisions ar s =
     s\<lparr>Coins := Coins (check_coin_collisions ar s), score := score (check_coin_collisions ar s)\<rparr>"
proof (cases "player s")
  case None
  then show ?thesis by (simp add: check_coin_collisions_None)
next
  case (Some p)
  show ?thesis by (subst (1 2 3) check_coin_collisions_eq [OF Some]) simp
qed

lemma handle_input_shape:
  "handle_input s = s\<lparr>player := player (handle_input s)\<rparr>"
  by (simp add: handle_input_def Let_def split: option.splits)

lemma check_enemy_collisions_shape:
  "check_enemy_collisions ar dt s =
     s\<lparr>health := health (check_enemy_collisions ar dt s),
       invuln_timer := invuln_timer (check_enemy_collisions ar dt s),
       player := player (check_enemy_collisions ar dt s)\<rparr>"
  by (simp add: check_enemy_collisions_def Let_def split: option.splits)

lemma check_hazard_collisions_shape:
  "check_hazard_collisions ar dt s =
     s\<lparr>health := health (check_hazard_collisions ar dt s),
       invuln_timer := invuln_timer (check_hazard_collisions ar dt s),
       player := player (check_hazard_collisions ar dt s)\<rparr>"
  by (simp add: check_hazard_collisions_def Let_def split: option.splits)

lemma handle_input_frame [simp]:
  "level_index (handle_input s) = level_index s"
  "total_coins (handle_input s) = total_coins s"
  "Goal (handle_input s) = Goal s"
  "Coins (handle_input s) = Coins s"
  "Enemies (handle_input s) = Enemies s"
  "Hazards (handle_input s) = Hazards s"
  "score (handle_input s) = score s"
  "health (handle_input s) = health s"
  "invuln_timer (handle_input s) = invuln_timer s"
  "window_view (handle_input s) = window_view s"
  "level_name (handle_input s) = level_name s"
  "physics_engine (handle_input s) = physics_engine s"
  by (subst handle_input_shape, simp)+

lemma check_coin_collisions_frame [simp]:
  "level_index (check_coin_collisions ar s) = level_index s"
  "total_coins (check_coin_collisions ar s) = total_coins s"
  "Goal (check_coin_collisions ar s) = Goal s"
  "player (check_coin_collisions ar s) = player s"
  "Enemies (check_coin_collisions ar s) = Enemies s"
  "Hazards (check_coin_collisions ar s) = Hazards s"
  "health (check_coin_collisions ar s) = health s"
  "invuln_timer (check_coin_collisions ar s) = invuln_timer s"
  "window_view (check_coin_collisions ar s) = window_view s"
  "level_name (check_coin_collisions ar s) = level_name s"
  "physics_engine (check_coin_collisions ar s) = physics_engine s"
  by (subst check_coin_collisions_shape, simp)+

lemma check_enemy_collisions_frame [simp]:
  "level_index (check_enemy_collisions ar dt s) = level_index s"
  "total_coins (check_enemy_collisions ar dt s) = total_coins s"
  "Goal (check_enemy_collisions ar dt s) = Goal s"
  "Coins (check_enemy_collisions ar dt s) = Coins s"
  "Enemies (check_enemy_collisions ar dt s) = Enemies s"
  "Hazards (check_enemy_collisions ar dt s) = Hazards s"
  "score (check_enemy_collisions ar dt s) = score s"
  "window_view (check_enemy_collisions ar dt s) = window_view s"
  "level_name (check_enemy_collisions ar dt s) = level_name s"
  "physics_engine (check_enemy_collisions ar dt s) = physics_engine s"
  by (subst check_enemy_collisions_shape, simp)+

lemma check_hazard_collisions_frame [simp]:
  "level_index (check_hazard_collisions ar dt s) = level_index s"
  "total_coins (check_hazard_collisions ar dt s) = total_coins s"
  "Goal (check_hazard_collisions ar dt s) = Goal s"
  "Coins (check_hazard_collisions ar dt s) = Coins s"
  "Enemies (check_hazard_collisions ar dt s) = Enemies s"
  "Hazards (check_hazard_collisions ar dt s) = Hazards s"
  "score (check_hazard_collisions ar dt s) = score s"
  "window_view (check_hazard_collisions ar dt s) = window_view s"
  "level_name (check_hazard_collisions ar dt s) = level_name s"
  "physics_engine (check_hazard_collisions ar dt s) = physics_engine s"
  by (subst check_hazard_collisions_shape, simp)+

lemma update_sprites_frame [simp]:
  "level_index (update_sprites ar dt s) = level_index s"
  "total_coins (update_sprites ar dt s) = total_coins s"
  "Goal (update_sprites ar dt s) = Goal s"
  "Coins (update_sprites ar dt s) = Coins s"
  "score (update_sprites ar dt s) = score s"
  "health (update_sprites ar dt s) = health s"
  "invuln_timer (update_sprites ar dt s) = invuln_timer s"
  "window_view (update_sprites ar dt s) = window_view s"
  "level_name (update_sprites ar dt s) = level_name s"
  "physics_engine (update_sprites ar dt s) = physics_engine s"
  "Enemies (update_sprites ar dt s) = map (enemy_update (1 / 60)) (Enemies s)"
  "Hazards (update_sprites ar dt s) = map (hazard_update_animation dt) (Hazards s)"
  by (simp_all add: update_sprites_def Let_def split: option.splits prod.splits)

lemma update_sprites_player_None:
  "player (update_sprites ar dt s) = None \<longleftrightarrow> player s = None"
  by (simp add: update_sprites_def handle_input_def Let_def split: option.splits prod.splits)

lemma update_and_collide_frame [simp]:
  "level_index (update_and_collide ar dt s) = level_index s"
  "total_coins (update_and_collide ar dt s) = total_coins s"
  "Goal (update_and_collide ar dt s) = Goal s"
  "window_view (update_and_collide ar dt s) = window_view s"
  "level_name (update_and_collide ar dt s) = level_name s"
  "physics_engine (update_and_collide ar dt s) = physics_engine s"
  "Enemies (update_and_collide ar dt s) = map (enemy_update (1 / 60)) (Enemies s)"
  "Hazards (update_and_collide ar dt s) = map (hazard_update_animation dt) (Hazards s)"
  "Coins (update_and_collide ar dt s) = Coins (check_coin_collisions ar (update_sprites ar dt s))"
  "score (update_and_collide ar dt s) = score (check_coin_collisions ar (update_sprites ar dt s))"
  by (simp_all add: update_and_collide_def)

lemma check_enemy_collisions_player_None:
  "player (check_enemy_collisions ar dt s) = None \<longleftrightarrow> player s = None"
  by (simp add: check_enemy_collisions_def Let_def split: option.splits)

lemma check_hazard_collisions_player_None:
  "player (check_hazard_collisions ar dt s) = None \<longleftrightarrow> player s = None"
  by (simp add: check_hazard_collisions_def Let_def split: option.splits)

lemma update_and_collide_player_None:
  "player (update_and_collide ar dt s) = None \<longleftrightarrow> player s = None"
  by (simp add: update_and_collide_def check_hazard_collisions_player_None
      check_enemy_collisions_player_None update_sprites_player_None)

lemma check_enemy_collisions_cases:
  assumes "player s \<noteq> None"
  shows "(health (check_enemy_collisions ar dt s) = health s \<and>
          invuln_timer (check_enemy_collisions ar dt s) = max 0 (invuln_timer s - dt)) \<or>
         (health (check_enemy_collisions ar dt s) = health s - 1 \<and>
          invuln_timer (check_enemy_collisions ar dt s) = 1)"
  using assms by (auto simp add: check_enemy_collisions_def Let_def split: option.splits)

lemma check_hazard_collisions_cases:
  "check_hazard_collisions ar dt s = s \<or>
   (invuln_timer s \<le> 0 \<and> health (check_hazard_collisions ar dt s) = health s - 1 \<and>
    invuln_timer (check_hazard_collisions ar dt s) = 1)"
  by (auto simp add: check_hazard_collisions_def Let_def split: option.splits)

lemma update_and_collide_cases:
  assumes "player s \<noteq> None"
  shows "(health (update_and_collide ar dt s) = health s \<and>
          invuln_timer (update_and_collide ar dt s) = max 0 (invuln_timer s - dt)) \<or>
         (health (update_and_collide ar dt s) = health s - 1 \<and>
          invuln_timer (update_and_collide ar dt s) = 1)"
proof -
  define c where "c = check_coin_collisions ar (update_sprites ar dt s)"
  define e where "e = check_enemy_collisions ar dt c"
  have pc: "player c \<noteq> None"
    using assms by (simp add: c_def update_sprites_player_None)
  have hc: "health c = health s" "invuln_timer c = invuln_timer s"
    by (simp_all add: c_def)
  have u: "update_and_collide ar dt s = check_hazard_collisions ar dt e"
    by (simp add: update_and_collide_def e_def c_def)
  from check_enemy_collisions_cases [OF pc, of ar dt] check_hazard_collisions_cases [of ar dt e]
  show ?thesis unfolding u e_def [symmetric] hc by auto
qed

subsection \<open>Level setup, field by field\<close>

lemma length_LEVELS [simp]: "length LEVELS = 3"
  by (simp add: LEVELS_def)

lemma getitem_LEVELS_valid:
  "0 \<le> li \<Longrightarrow> li < 3 \<Longrightarrow> getitem LEVELS li = Inr (LEVELS ! nat li)"
  by (simp add: getitem_def)

lemma getitem_LEVELS_0: "getitem LEVELS 0 = Inr level_1"
  by (simp add: getitem_def LEVELS_def)

lemma getitem_LEVELS_1: "getitem LEVELS 1 = Inr level_2"
  by (simp add: getitem_def LEVELS_def)

lemma getitem_LEVELS_2: "getitem LEVELS 2 = Inr level_3"
  by (simp add: getitem_def LEVELS_def)

lemma setup_level_fields:
  assumes "getitem LEVELS li = Inr lv" and "setup_level li s = Inr s'"
  shows "level_index s' = li"
    and "level_name s' = name lv"
    and "score s' = (if li = 0 then 0 else score s)"
    and "health s' = (if li = 0 then PLAYER_MAX_HEALTH else health s)"
    and "invuln_timer s' = 0"
    and "total_coins s' = int (length (coins lv))"
    and "window_view s' = window_view s"
    and "move_left s' = move_left s" and "move_right s' = move_right s"
    and "player s' = Some ((PlayerSprite (gender s))
           \<lparr>center_x := fst (player_start lv), center_y := snd (player_start lv)\<rparr>)"
    and "Coins s' = map (\<lambda>pos. place pos (Sprite COIN_TEXTURE COIN_SCALING)) (coins lv)"
    and "Goal s' = [place (goal_position lv) (Sprite FLAG_TEXTURE (TILE_SCALING * (3 / 2)))]"
    and "Enemies s' = map EnemySprite (enemies lv)"
    and "Hazards s' = map make_hazard (case hazards lv of None \<Rightarrow> [] | Some l \<Rightarrow> l)"
    and "physics_engine s' = Some \<lparr>walls = Walls s', gravity_constant = GRAVITY\<rparr>"
  using assms by (auto simp add: setup_level_def Let_def)

lemma setup_level_total:
  assumes "getitem LEVELS li = Inr lv"
  shows "\<exists>s'. setup_level li s = Inr s'"
  using assms by (simp add: setup_level_def Let_def)

lemma setup_level_error:
  "getitem LEVELS li = Inl e \<Longrightarrow> setup_level li s = Inl e"
  by (simp add: setup_level_def)

subsection \<open>The outcomes of a frame\<close>

lemma check_lose_eq:
  assumes "player s = Some p" and "getitem LEVELS (level_index s) = Inr lv"
  shows "check_lose s =
     Inr (health s \<le> 0 \<or> center_y p < (case kill_plane_y lv of None \<Rightarrow> KILL_PLANE_Y | Some k \<Rightarrow> k))"
  using assms by (simp add: check_lose_def)

lemma check_lose_health: "health s \<le> 0 \<Longrightarrow> check_lose s = Inr True"
  by (simp add: check_lose_def split: option.splits)

lemma check_lose_False: "check_lose s = Inr False \<Longrightarrow> 0 < health s \<and> player s \<noteq> None"
  by (auto simp add: check_lose_def split: option.splits if_splits sum.splits)

lemma check_lose_valid:
  assumes "0 \<le> level_index s" and "level_index s < 3"
  shows "\<exists>b. check_lose s = Inr b"
  using assms by (auto simp add: check_lose_def getitem_LEVELS_valid split: option.splits)

lemma check_goal_eq:
  assumes "player s = Some p" and "Goal s = g # gs"
  shows "check_goal ar s \<longleftrightarrow>
           check_for_collision ar (sprite.truncate p) g \<and> total_coins s \<le> score s"
  using assms by (simp add: check_goal_def)

lemma on_update_idle:
  "physics_engine s = None \<or> player s = None \<Longrightarrow> on_update ar dt s = Inr s"
  by (simp add: on_update_def)

lemma on_update_lost:
  assumes "player s \<noteq> None" and "physics_engine s \<noteq> None"
      and "check_lose (update_and_collide ar dt s) = Inr True"
  shows "on_update ar dt s =
     Inr ((update_and_collide ar dt s)
            \<lparr>window_view := GameOverView False (score (update_and_collide ar dt s))
                              (level_name s)\<rparr>)"
  using assms by (auto simp add: on_update_def Let_def)

lemma on_update_advance:
  assumes "player s \<noteq> None" and "physics_engine s \<noteq> None"
      and "check_lose (update_and_collide ar dt s) = Inr False"
      and "check_goal ar (update_and_collide ar dt s)"
      and "level_index s + 1 < 3"
  shows "on_update ar dt s =
     setup_level (level_index s + 1)
       ((update_and_collide ar dt s)\<lparr>level_index := level_index s + 1\<rparr>)"
  using assms by (auto simp add: on_update_def Let_def)

lemma on_update_won:
  assumes "player s \<noteq> None" and "physics_engine s \<noteq> None"
      and "check_lose (update_and_collide ar dt s) = Inr False"
      and "check_goal ar (update_and_collide ar dt s)"
      and "\<not> level_index s + 1 < 3"
  shows "on_update ar dt s =
     Inr ((update_and_collide ar dt s)
            \<lparr>window_view := GameOverView True (score (update_and_collide ar dt s))
                              (level_name s)\<rparr>)"
  using assms by (auto simp add: on_update_def Let_def)

lemma on_update_continue:
  assumes "player s \<noteq> None" and "physics_engine s \<noteq> None"
      and "check_lose (update_and_collide ar dt s) = Inr False"
      and "\<not> check_goal ar (update_and_collide ar dt s)"
  shows "on_update ar dt s = Inr (update_and_collide ar dt s)"
  using assms by (auto simp add: on_update_def Let_def)

lemma on_update_error:
  assumes "player s \<noteq> None" and "physics_engine s \<noteq> None"
      and "check_lose (update_and_collide ar dt s) = Inl e"
  shows "on_update ar dt s = Inl e"
  using assms by (auto simp add: on_update_def Let_def)

lemma on_update_returns:
  assumes li: "0 \<le> level_index s" "level_index s < 3"
  shows "\<exists>s'. on_update ar dt s = Inr s'"
proof (cases "physics_engine s = None \<or> player s = None")
  case True
  from on_update_idle [OF this] show ?thesis by blast
next
  case False
  then have p: "player s \<noteq> None" and e: "physics_engine s \<noteq> None" by simp_all
  define s1 where "s1 = update_and_collide ar dt s"
  have "level_index s1 = level_index s" by (simp add: s1_def)
  with check_lose_valid [of s1] li obtain b where b: "check_lose s1 = Inr b" by auto
  show ?thesis
  proof (cases b)
    case True
    with b have "check_lose (update_and_collide ar dt s) = Inr True"
      by (simp add: s1_def)
    from on_update_lost [OF p e this] show ?thesis by blast
  next
    case False
    with b have lf: "check_lose (update_and_collide ar dt s) = Inr False"
      by (simp add: s1_def)
    show ?thesis
    proof (cases "check_goal ar (update_and_collide ar dt s)")
      case g: True
      show ?thesis
      proof (cases "level_index s + 1 < 3")
        case True
        have gi: "getitem LEVELS (level_index s + 1) = Inr (LEVELS ! nat (level_index s + 1))"
          using li True by (simp add: getitem_LEVELS_valid)
        from setup_level_total [OF gi]
        show ?thesis unfolding on_update_advance [OF p e lf g True] .
      next
        case False
        from on_update_won [OF p e lf g False] show ?thesis by blast
      qed
    next
      case False
      from on_update_continue [OF p e lf False] show ?thesis by blast
    qed
  qed
qed

subsection \<open>Key events and the session invariant\<close>

lemma on_key_press_frame [simp]:
  "level_index (on_key_press ar k s) = level_index s"
  "health (on_key_press ar k s) = health s"
  "score (on_key_press ar k s) = score s"
  "invuln_timer (on_key_press ar k s) = invuln_timer s"
  "window_view (on_key_press ar k s) = window_view s"
  "physics_engine (on_key_press ar k s) = physics_engine s"
  "Coins (on_key_press ar k s) = Coins s"
  "total_coins (on_key_press ar k s) = total_coins s"
  by (simp_all add: on_key_press_def split: option.splits)

lemma on_key_press_player_None:
  "player (on_key_press ar k s) = None \<longleftrightarrow> player s = None"
  by (auto simp add: on_key_press_def split: option.splits)

lemma on_key_release_frame [simp]:
  "level_index (on_key_release k s) = level_index s"
  "health (on_key_release k s) = health s"
  "score (on_key_release k s) = score s"
  "invuln_timer (on_key_release k s) = invuln_timer s"
  "window_view (on_key_release k s) = window_view s"
  "physics_engine (on_key_release k s) = physics_engine s"
  "player (on_key_release k s) = player s"
  "Coins (on_key_release k s) = Coins s"
  "total_coins (on_key_release k s) = total_coins s"
  by (simp_all add: on_key_release_def)

lemma frame_keeps_invariant:
  assumes p: "player s \<noteq> None" and e: "physics_engine s \<noteq> None"
      and li: "0 \<le> level_index s" "level_index s < 3"
      and t: "0 \<le> invuln_timer s"
      and h: "1 \<le> health s" "health s \<le> PLAYER_MAX_HEALTH"
      and v: "window_view s = GameView_shown"
      and u: "on_update ar dt s = Inr s'"
  shows "player s' \<noteq> None \<and> physics_engine s' \<noteq> None \<and>
         0 \<le> level_index s' \<and> level_index s' < 3 \<and> 0 \<le> invuln_timer s' \<and>
         0 \<le> health s' \<and> health s' \<le> PLAYER_MAX_HEALTH \<and>
         (window_view s' = GameView_shown \<longrightarrow> 1 \<le> health s')"
proof -
  define s1 where "s1 = update_and_collide ar dt s"
  have p1: "player s1 \<noteq> None"
    using p by (simp add: s1_def update_and_collide_player_None)
  have e1: "physics_engine s1 \<noteq> None" using e by (simp add: s1_def)
  have l1: "level_index s1 = level_index s" by (simp add: s1_def)
  have v1: "window_view s1 = window_view s" by (simp add: s1_def)
  from update_and_collide_cases [OF p, of ar dt]
  have h1: "0 \<le> health s1" "health s1 \<le> PLAYER_MAX_HEALTH" and t1: "0 \<le> invuln_timer s1"
    using h t unfolding s1_def by auto
  from check_lose_valid [of s1] li l1 obtain b where b: "check_lose s1 = Inr b" by auto
  show ?thesis
  proof (cases b)
    case True
    with b have "on_update ar dt s = Inr (s1\<lparr>window_view := GameOverView False (score s1) (level_name s)\<rparr>)"
      using on_update_lost [OF p e, of ar dt] by (simp add: s1_def)
    with u have "s' = s1\<lparr>window_view := GameOverView False (score s1) (level_name s)\<rparr>" by simp
    then show ?thesis using p1 e1 l1 li h1 t1 by simp
  next
    case False
    with b have lf: "check_lose s1 = Inr False" by simp
    from check_lose_False [OF lf] have hp: "1 \<le> health s1" by simp
    show ?thesis
    proof (cases "check_goal ar s1")
      case g: True
      show ?thesis
      proof (cases "level_index s + 1 < 3")
        case True
        have su: "setup_level (level_index s + 1) (s1\<lparr>level_index := level_index s + 1\<rparr>) = Inr s'"
          using on_update_advance [OF p e, of ar dt] lf g True u by (simp add: s1_def)
        have gi: "getitem LEVELS (level_index s + 1) = Inr (LEVELS ! nat (level_index s + 1))"
          using li True by (simp add: getitem_LEVELS_valid)
        note f = setup_level_fields [OF gi su]
        show ?thesis
          using f(1) f(4) f(5) f(10) f(15) li True hp h1 by simp
      next
        case False
        have "s' = s1\<lparr>window_view := GameOverView True (score s1) (level_name s)\<rparr>"
          using on_update_won [OF p e, of ar dt] lf g False u by (simp add: s1_def)
        then show ?thesis using p1 e1 l1 li h1 t1 hp by simp
      qed
    next
      case False
      have "s' = s1"
        using on_update_continue [OF p e, of ar dt] lf False u by (simp add: s1_def)
      then show ?thesis using p1 e1 l1 li h1 t1 hp by simp
    qed
  qed
qed

lemma start_game_invariant:
  assumes "start_game g = Inr s"
  shows "player s \<noteq> None \<and> physics_engine s \<noteq> None \<and> level_index s = 0 \<and>
         invuln_timer s = 0 \<and> health s = PLAYER_MAX_HEALTH \<and> score s = 0 \<and>
         window_view s = GameView_shown"
proof -
  have gi: "getitem LEVELS 0 = Inr (LEVELS ! nat 0)" by (simp add: getitem_LEVELS_valid)
  from setup_level_total [OF gi] obtain s0 where s0: "setup_level 0 (GameView g) = Inr s0" ..
  note f = setup_level_fields [OF gi s0]
  from assms s0 have "s = s0\<lparr>window_view := GameView_shown\<rparr>"
    by (simp add: start_game_def)
  then show ?thesis using f(1) f(3) f(4) f(5) f(10) f(15) by simp
qed

lemma reachable_invariant:
  assumes "reachable ar s"
  shows "player s \<noteq> None \<and> physics_engine s \<noteq> None \<and>
         0 \<le> level_index s \<and> level_index s < 3 \<and> 0 \<le> invuln_timer s \<and>
         0 \<le> health s \<and> health s \<le> PLAYER_MAX_HEALTH \<and>
         (window_view s = GameView_shown \<longrightarrow> 1 \<le> health s)"
  using assms
proof (induction rule: reachable.induct)
  case (started g s)
  from start_game_invariant [OF this] show ?case
    by (simp add: PLAYER_MAX_HEALTH_def)
next
  case (frame s dt s')
  then have inv: "player s \<noteq> None" "physics_engine s \<noteq> None" "0 \<le> level_index s"
    "level_index s < 3" "0 \<le> invuln_timer s" "1 \<le> health s" "health s \<le> PLAYER_MAX_HEALTH"
    by simp_all
  from frame_keeps_invariant [OF inv frame.hyps(2) frame.hyps(3)] show ?case .
next
  case (pressed s k)
  then show ?case by (simp add: on_key_press_player_None)
next
  case (released s k)
  then show ?case by simp
qed

subsection \<open>The damage checks, and the timer over a frame\<close>

lemma check_enemy_collisions_eq:
  assumes "player s = Some p"
  shows "check_enemy_collisions ar dt s =
     (if 0 < max 0 (invuln_timer s - dt)
      then s\<lparr>invuln_timer := max 0 (invuln_timer s - dt)\<rparr>
      else if check_for_collision_with_list ar p (Enemies s) \<noteq> []
      then s\<lparr>health := health s - 1, invuln_timer := 1,
             player := Some (p\<lparr>change_y := PLAYER_JUMP_SPEED / 2, change_x := change_x p * (- 1)\<rparr>)\<rparr>
      else s\<lparr>invuln_timer := max 0 (invuln_timer s - dt)\<rparr>)"
  using assms by (simp add: check_enemy_collisions_def Let_def)

lemma check_hazard_collisions_eq:
  assumes "player s = Some p"
  shows "check_hazard_collisions ar dt s =
     (if 0 < invuln_timer s then s
      else if check_for_collision_with_list ar p (Hazards s) \<noteq> []
      then s\<lparr>health := health s - 1, invuln_timer := 1,
             player := Some (p\<lparr>change_y := PLAYER_JUMP_SPEED / (3 / 2)\<rparr>)\<rparr>
      else s)"
  using assms by (simp add: check_hazard_collisions_def Let_def)

lemma on_update_timer:
  assumes p: "player s \<noteq> None" and e: "physics_engine s \<noteq> None"
      and li: "0 \<le> level_index s" "level_index s < 3"
      and u: "on_update ar dt s = Inr s'"
  shows "(health s' = health s \<and>
          (invuln_timer s' = max 0 (invuln_timer s - dt) \<or> invuln_timer s' = 0)) \<or>
         (health s' = health s - 1 \<and> (invuln_timer s' = 1 \<or> invuln_timer s' = 0))"
proof -
  define s1 where "s1 = update_and_collide ar dt s"
  note c = update_and_collide_cases [OF p, of ar dt, folded s1_def]
  have l1: "level_index s1 = level_index s" by (simp add: s1_def)
  from check_lose_valid [of s1] li l1 obtain b where b: "check_lose s1 = Inr b" by auto
  show ?thesis
  proof (cases "\<not> b \<and> check_goal ar s1 \<and> level_index s + 1 < 3")
    case True
    then have lf: "check_lose (update_and_collide ar dt s) = Inr False"
      and g: "check_goal ar (update_and_collide ar dt s)" and adv: "level_index s + 1 < 3"
      using b by (simp_all add: s1_def)
    have su: "setup_level (level_index s + 1) (s1\<lparr>level_index := level_index s + 1\<rparr>) = Inr s'"
      using on_update_advance [OF p e lf g adv] u by (simp add: s1_def)
    have gi: "getitem LEVELS (level_index s + 1) = Inr (LEVELS ! nat (level_index s + 1))"
      using li adv by (simp add: getitem_LEVELS_valid)
    note f = setup_level_fields [OF gi su]
    have "health s' = health s1" "invuln_timer s' = 0"
      using f(4) f(5) li by simp_all
    with c show ?thesis by auto
  next
    case False
    have "health s' = health s1 \<and> invuln_timer s' = invuln_timer s1"
    proof (cases b)
      case True
      with b have "check_lose (update_and_collide ar dt s) = Inr True" by (simp add: s1_def)
      from on_update_lost [OF p e this] u show ?thesis by (auto simp add: s1_def)
    next
      case nb: False
      with b have lf: "check_lose (update_and_collide ar dt s) = Inr False" by (simp add: s1_def)
      show ?thesis
      proof (cases "check_goal ar (update_and_collide ar dt s)")
        case True
        with False nb have "\<not> level_index s + 1 < 3" by (simp add: s1_def)
        from on_update_won [OF p e lf True this] u show ?thesis by (auto simp add: s1_def)
      next
        case False
        from on_update_continue [OF p e lf False] u show ?thesis by (auto simp add: s1_def)
      qed
    qed
    with c show ?thesis by auto
  qed
qed

subsection \<open>Frames with the contact library\<close>

lemma among_enemies_iff:
  "among_enemies s \<longleftrightarrow>
     (\<exists>p eng g. player s = Some p \<and> center_y p = 200 \<and> physics_engine s = Some eng \<and>
                Goal s = [g] \<and> texture g = FLAG_TEXTURE) \<and>
     Enemies s \<noteq> [] \<and> list_all (\<lambda>e. texture e = ENEMY_TEXTURE) (Enemies s) \<and>
     Hazards s = [] \<and> level_index s = 0 \<and> window_view s = GameView_shown"
  by (auto simp add: among_enemies_def split: option.splits list.splits)

lemma player_update_animation_center [simp]:
  "center_x (player_update_animation dt p) = center_x p"
  "center_y (player_update_animation dt p) = center_y p"
  by (simp_all add: player_update_animation_def Let_def)

lemma enemy_update_texture [simp]: "texture (enemy_update dt e) = texture e"
  by (simp add: enemy_update_def Let_def)

lemma truncate_texture [simp]: "texture (sprite.truncate x) = texture x"
  by (simp add: sprite.defs)

lemma flag_is_no_enemy: "FLAG_TEXTURE \<noteq> ENEMY_TEXTURE"
  by (simp add: FLAG_TEXTURE_def ENEMY_TEXTURE_def)

lemma contact_sprites_player:
  assumes "player s = Some p" and "physics_engine s = Some eng"
  shows "\<exists>q. player (update_sprites contact_arcade dt s) = Some q \<and> center_y q = center_y p"
  using assms
  by (simp add: update_sprites_def handle_input_def Let_def contact_arcade_def)

lemma contact_collide:
  assumes "among_enemies s"
  shows "among_enemies (update_and_collide contact_arcade dt s)"
    and "health (update_and_collide contact_arcade dt s) =
           (if 0 < max 0 (invuln_timer s - dt) then health s else health s - 1)"
    and "invuln_timer (update_and_collide contact_arcade dt s) =
           (if 0 < max 0 (invuln_timer s - dt) then max 0 (invuln_timer s - dt) else 1)"
    and "\<not> check_goal contact_arcade (update_and_collide contact_arcade dt s)"
proof -
  from assms obtain p eng g where p: "player s = Some p" and y: "center_y p = 200"
    and e: "physics_engine s = Some eng" and g: "Goal s = [g]" "texture g = FLAG_TEXTURE"
    and en: "Enemies s \<noteq> []" "list_all (\<lambda>e. texture e = ENEMY_TEXTURE) (Enemies s)"
    and hz: "Hazards s = []" and li: "level_index s = 0" and v: "window_view s = GameView_shown"
    unfolding among_enemies_iff by blast
  define c where "c = check_coin_collisions contact_arcade (update_sprites contact_arcade dt s)"
  from contact_sprites_player [OF p e, of dt] obtain q where
    q: "player c = Some q" and yq: "center_y q = 200" by (auto simp add: c_def y)
  have ec: "Enemies c = map (enemy_update (1 / 60)) (Enemies s)" and hc: "Hazards c = []"
    and tc: "invuln_timer c = invuln_timer s" and hh: "health c = health s"
    by (simp_all add: c_def hz)
  have hits: "check_for_collision_with_list contact_arcade q (Enemies c) \<noteq> []"
    using en by (simp add: check_for_collision_with_list_def contact_arcade_def ec
        list_all_iff filter_empty_conv)
  define d where "d = check_enemy_collisions contact_arcade dt c"
  have d: "d = (if 0 < max 0 (invuln_timer s - dt)
                then c\<lparr>invuln_timer := max 0 (invuln_timer s - dt)\<rparr>
                else c\<lparr>health := health s - 1, invuln_timer := 1,
                       player := Some (q\<lparr>change_y := PLAYER_JUMP_SPEED / 2,
                                         change_x := change_x q * (- 1)\<rparr>)\<rparr>)"
    unfolding d_def check_enemy_collisions_eq [OF q] using hits by (simp add: tc hh)
  have td: "0 < invuln_timer d" by (auto simp add: d max_def)
  have "\<exists>r. player d = Some r \<and> center_y r = 200"
    using q yq by (simp add: d)
  then obtain r where r: "player d = Some r" and yr: "center_y r = 200" by blast
  have u: "update_and_collide contact_arcade dt s = d"
    unfolding update_and_collide_def c_def [symmetric] d_def [symmetric]
      check_hazard_collisions_eq [OF r] using td by simp
  have gd: "Goal d = [g]" "Enemies d = map (enemy_update (1 / 60)) (Enemies s)"
    "Hazards d = []" "level_index d = 0" "window_view d = GameView_shown"
    "physics_engine d = Some eng"
    by (simp_all add: d_def c_def g hz li v e)
  show "among_enemies (update_and_collide contact_arcade dt s)"
    unfolding u among_enemies_iff using r yr gd g(2) en
    by (simp add: list_all_iff)
  show "health (update_and_collide contact_arcade dt s) =
           (if 0 < max 0 (invuln_timer s - dt) then health s else health s - 1)"
    unfolding u by (simp add: d hh)
  show "invuln_timer (update_and_collide contact_arcade dt s) =
           (if 0 < max 0 (invuln_timer s - dt) then max 0 (invuln_timer s - dt) else 1)"
    unfolding u by (simp add: d)
  show "\<not> check_goal contact_arcade (update_and_collide contact_arcade dt s)"
    unfolding u check_goal_eq [OF r gd(1)]
    by (simp add: contact_arcade_def g(2) flag_is_no_enemy)
qed

lemma among_enemies_check_lose:
  assumes "among_enemies s"
  shows "check_lose s = Inr (health s \<le> 0)"
proof -
  from assms obtain p where p: "player s = Some p" and y: "center_y p = 200"
    and li: "level_index s = 0"
    unfolding among_enemies_iff by blast
  have "getitem LEVELS (level_index s) = Inr level_1" by (simp add: li getitem_LEVELS_0)
  from check_lose_eq [OF p this] y show ?thesis
    by (simp add: level_1_def KILL_PLANE_Y_def)
qed

lemma contact_frame:
  assumes "among_enemies s"
      and "0 < health (update_and_collide contact_arcade dt s)"
  shows "on_update contact_arcade dt s = Inr (update_and_collide contact_arcade dt s)"
proof -
  from assms(1) have a: "player s \<noteq> None" "physics_engine s \<noteq> None"
    unfolding among_enemies_iff by auto
  note c = contact_collide [OF assms(1), of dt]
  from among_enemies_check_lose [OF c(1)] assms(2)
  have "check_lose (update_and_collide contact_arcade dt s) = Inr False" by simp
  from on_update_continue [OF a this c(4)] show ?thesis .
qed

lemma start_among_enemies:
  assumes "start_game g = Inr s"
  shows "among_enemies s"
proof -
  from setup_level_total [OF getitem_LEVELS_0] obtain s0 where
    s0: "setup_level 0 (GameView g) = Inr s0" ..
  note f = setup_level_fields [OF getitem_LEVELS_0 s0]
  from assms s0 have s: "s = s0\<lparr>window_view := GameView_shown\<rparr>"
    by (simp add: start_game_def)
  show ?thesis
    unfolding among_enemies_iff s using f(1) f(10) f(12) f(13) f(14) f(15)
    by (simp add: level_1_def place_def Sprite_def EnemySprite_def)
qed

lemma start_game_total: "\<exists>s. start_game g = Inr s"
proof -
  from setup_level_total [OF getitem_LEVELS_0] obtain s0 where
    "setup_level 0 (GameView g) = Inr s0" ..
  then show ?thesis by (simp add: start_game_def)
qed

lemma contact_three_hearts:
  "\<exists>s. reachable contact_arcade s \<and> among_enemies s \<and> health s = 3 \<and> invuln_timer s = 0"
proof -
  from start_game_total obtain s where s: "start_game ''female'' = Inr s" ..
  from start_game_invariant [OF s] start_among_enemies [OF s] reachable.started [OF s]
  show ?thesis by (auto simp add: PLAYER_MAX_HEALTH_def)
qed

lemma contact_hit:
  assumes "reachable contact_arcade s" and "among_enemies s"
      and "invuln_timer s \<le> dt" and "2 \<le> health s"
  shows "on_update contact_arcade dt s = Inr (update_and_collide contact_arcade dt s) \<and>
         reachable contact_arcade (update_and_collide contact_arcade dt s) \<and>
         among_enemies (update_and_collide contact_arcade dt s) \<and>
         health (update_and_collide contact_arcade dt s) = health s - 1 \<and>
         invuln_timer (update_and_collide contact_arcade dt s) = 1"
proof -
  note c = contact_collide [OF assms(2), of dt]
  from assms(3) have t: "\<not> 0 < max 0 (invuln_timer s - dt)" by simp
  have h: "health (update_and_collide contact_arcade dt s) = health s - 1"
    and i: "invuln_timer (update_and_collide contact_arcade dt s) = 1"
    using c(2) c(3) t by simp_all
  from h assms(4) have "0 < health (update_and_collide contact_arcade dt s)" by simp
  from contact_frame [OF assms(2) this]
  have u: "on_update contact_arcade dt s = Inr (update_and_collide contact_arcade dt s)" .
  from assms(2) have "window_view s = GameView_shown" by (simp add: among_enemies_iff)
  from reachable.frame [OF assms(1) this u] u c(1) h i show ?thesis by simp
qed

lemma contact_two_hearts:
  "\<exists>s. reachable contact_arcade s \<and> among_enemies s \<and> health s = 2 \<and> invuln_timer s = 1"
proof -
  from contact_three_hearts obtain s where
    "reachable contact_arcade s" "among_enemies s" "health s = 3" "invuln_timer s = 0" by blast
  from contact_hit [OF this(1) this(2), of 1] this(3) this(4) show ?thesis
    by (intro exI [of _ "update_and_collide contact_arcade 1 s"]) simp
qed

lemma contact_one_heart:
  "\<exists>s. reachable contact_arcade s \<and> among_enemies s \<and> health s = 1 \<and> invuln_timer s = 1"
proof -
  from contact_two_hearts obtain s where
    "reachable contact_arcade s" "among_enemies s" "health s = 2" "invuln_timer s = 1" by blast
  from contact_hit [OF this(1) this(2), of 1] this(3) this(4) show ?thesis
    by (intro exI [of _ "update_and_collide contact_arcade 1 s"]) simp
qed

subsection \<open>The first frame after level setup\<close>

lemma handle_input_player:
  assumes "player s = Some p"
  shows "\<exists>q. player (handle_input s) = Some q \<and> center_x q = center_x p \<and>
             center_y q = center_y p"
  using assms by (simp add: handle_input_def Let_def)

lemma update_sprites_player:
  assumes "physics_engine s = Some eng" and "player (handle_input s) = Some q"
  shows "player (update_sprites ar dt s) =
           Some (player_update_animation dt (physics_update ar eng q))"
  using assms by (simp add: update_sprites_def Let_def)

lemma on_update_outcome:
  assumes p: "player s \<noteq> None" and e: "physics_engine s \<noteq> None"
      and li: "0 \<le> level_index s" "level_index s < 3"
      and u: "on_update ar dt s = Inr s'"
  shows "score s' = score (update_and_collide ar dt s)"
    and "health s' = health (update_and_collide ar dt s)"
    and "level_index s' = level_index s \<longrightarrow> player s' = player (update_and_collide ar dt s)"
    and "\<not> check_goal ar (update_and_collide ar dt s) \<longrightarrow> level_index s' = level_index s"
proof -
  define s1 where "s1 = update_and_collide ar dt s"
  have l1: "level_index s1 = level_index s" by (simp add: s1_def)
  from check_lose_valid [of s1] li l1 obtain b where b: "check_lose s1 = Inr b" by auto
  have "score s' = score s1 \<and> health s' = health s1 \<and>
        (level_index s' = level_index s \<longrightarrow> player s' = player s1) \<and>
        (\<not> check_goal ar s1 \<longrightarrow> level_index s' = level_index s)"
  proof (cases "\<not> b \<and> check_goal ar s1 \<and> level_index s + 1 < 3")
    case True
    then have lf: "check_lose (update_and_collide ar dt s) = Inr False"
      and g: "check_goal ar (update_and_collide ar dt s)" and adv: "level_index s + 1 < 3"
      using b by (simp_all add: s1_def)
    have su: "setup_level (level_index s + 1) (s1\<lparr>level_index := level_index s + 1\<rparr>) = Inr s'"
      using on_update_advance [OF p e lf g adv] u by (simp add: s1_def)
    have gi: "getitem LEVELS (level_index s + 1) = Inr (LEVELS ! nat (level_index s + 1))"
      using li adv by (simp add: getitem_LEVELS_valid)
    note f = setup_level_fields [OF gi su]
    from f(1) f(3) f(4) li g show ?thesis by (simp add: s1_def)
  next
    case False
    have "s' = s1 \<or> (\<exists>v. s' = s1\<lparr>window_view := v\<rparr>)"
    proof (cases b)
      case True
      with b have "check_lose (update_and_collide ar dt s) = Inr True" by (simp add: s1_def)
      from on_update_lost [OF p e this] u show ?thesis by (auto simp add: s1_def)
    next
      case nb: False
      with b have lf: "check_lose (update_and_collide ar dt s) = Inr False" by (simp add: s1_def)
      show ?thesis
      proof (cases "check_goal ar (update_and_collide ar dt s)")
        case True
        with False nb have "\<not> level_index s + 1 < 3" by (simp add: s1_def)
        from on_update_won [OF p e lf True this] u show ?thesis by (auto simp add: s1_def)
      next
        case False
        from on_update_continue [OF p e lf False] u show ?thesis by (auto simp add: s1_def)
      qed
    qed
    then show ?thesis using l1 by auto
  qed
  then show "score s' = score (update_and_collide ar dt s)"
    and "health s' = health (update_and_collide ar dt s)"
    and "level_index s' = level_index s \<longrightarrow> player s' = player (update_and_collide ar dt s)"
    and "\<not> check_goal ar (update_and_collide ar dt s) \<longrightarrow> level_index s' = level_index s"
    by (simp_all add: s1_def)
qed

lemma collide_at_rest:
  assumes m: "player m = Some p" and t: "invuln_timer m = 0"
  shows "score (check_hazard_collisions ar 0 (check_enemy_collisions ar 0
                  (check_coin_collisions ar m))) =
           score m + int (length (check_for_collision_with_list ar p (Coins m)))"
    and "health (check_hazard_collisions ar 0 (check_enemy_collisions ar 0
                  (check_coin_collisions ar m))) =
           health m - (if check_for_collision_with_list ar p (Enemies m) \<noteq> [] \<or>
                          check_for_collision_with_list ar p (Hazards m) \<noteq> [] then 1 else 0)"
    and "\<exists>p'. player (check_hazard_collisions ar 0 (check_enemy_collisions ar 0
                  (check_coin_collisions ar m))) = Some p' \<and>
              center_x p' = center_x p \<and> center_y p' = center_y p \<and>
              (check_for_collision_with_list ar p (Enemies m) = [] \<and>
               check_for_collision_with_list ar p (Hazards m) = [] \<longrightarrow> p' = p)"
proof -
  define c where "c = check_coin_collisions ar m"
  have pc: "player c = Some p" and tc: "invuln_timer c = 0" and hc: "health c = health m"
    and ec: "Enemies c = Enemies m" and zc: "Hazards c = Hazards m"
    by (simp_all add: c_def m t)
  have sc: "score c = score m + int (length (check_for_collision_with_list ar p (Coins m)))"
    unfolding c_def check_coin_collisions_eq [OF m]
    by (simp add: check_for_collision_with_list_def)
  define d where "d = check_enemy_collisions ar 0 c"
  have d: "d = (if check_for_collision_with_list ar p (Enemies m) \<noteq> []
                then c\<lparr>health := health m - 1, invuln_timer := 1,
                       player := Some (p\<lparr>change_y := PLAYER_JUMP_SPEED / 2,
                                         change_x := change_x p * (- 1)\<rparr>)\<rparr>
                else c\<lparr>invuln_timer := 0\<rparr>)"
    unfolding d_def check_enemy_collisions_eq [OF pc] by (simp add: tc hc ec)
  show "score (check_hazard_collisions ar 0 (check_enemy_collisions ar 0
                  (check_coin_collisions ar m))) =
           score m + int (length (check_for_collision_with_list ar p (Coins m)))"
    by (simp add: sc [unfolded c_def])
  show "health (check_hazard_collisions ar 0 (check_enemy_collisions ar 0
                  (check_coin_collisions ar m))) =
           health m - (if check_for_collision_with_list ar p (Enemies m) \<noteq> [] \<or>
                          check_for_collision_with_list ar p (Hazards m) \<noteq> [] then 1 else 0)"
  proof (cases "check_for_collision_with_list ar p (Enemies m) \<noteq> []")
    case True
    then have "player d \<noteq> None" "0 < invuln_timer d" "health d = health m - 1"
      by (simp_all add: d)
    then have "check_hazard_collisions ar 0 d = d"
      by (auto simp add: check_hazard_collisions_eq)
    then show ?thesis
      unfolding d_def c_def using True \<open>health d = health m - 1\<close> [unfolded d_def c_def]
      by simp
  next
    case False
    then have pd: "player d = Some p" and dd: "invuln_timer d = 0" "health d = health m"
      "Hazards d = Hazards m"
      by (simp_all add: d pc hc zc)
    have "health (check_hazard_collisions ar 0 d) =
            health m - (if check_for_collision_with_list ar p (Hazards m) \<noteq> [] then 1 else 0)"
      unfolding check_hazard_collisions_eq [OF pd] by (simp add: dd)
    then show ?thesis unfolding d_def c_def using False by simp
  qed
  show "\<exists>p'. player (check_hazard_collisions ar 0 (check_enemy_collisions ar 0
                  (check_coin_collisions ar m))) = Some p' \<and>
              center_x p' = center_x p \<and> center_y p' = center_y p \<and>
              (check_for_collision_with_list ar p (Enemies m) = [] \<and>
               check_for_collision_with_list ar p (Hazards m) = [] \<longrightarrow> p' = p)"
  proof (cases "check_for_collision_with_list ar p (Enemies m) \<noteq> []")
    case True
    then have "player d = Some (p\<lparr>change_y := PLAYER_JUMP_SPEED / 2,
                                      change_x := change_x p * (- 1)\<rparr>)" "0 < invuln_timer d"
      by (simp_all add: d)
    then have "player (check_hazard_collisions ar 0 d) =
                 Some (p\<lparr>change_y := PLAYER_JUMP_SPEED / 2, change_x := change_x p * (- 1)\<rparr>)"
      by (simp add: check_hazard_collisions_eq)
    then show ?thesis unfolding d_def c_def using True by simp
  next
    case False
    then have pd: "player d = Some p" and dd: "invuln_timer d = 0" "Hazards d = Hazards m"
      by (simp_all add: d pc zc)
    show ?thesis
      unfolding d_def [symmetric] c_def [symmetric] check_hazard_collisions_eq [OF pd]
      using False by (simp add: dd pd)
  qed
qed

lemma fresh_game_setup: "setup_level 0 (GameView ''female'') = Inr fresh_game"
proof -
  from setup_level_total [OF getitem_LEVELS_0] obtain s where
    "setup_level 0 (GameView ''female'') = Inr s" ..
  then show ?thesis by (simp add: fresh_game_def)
qed

lemma fresh_game_eq:
  "fresh_game = (GameView ''female'')
     \<lparr> Walls :=
         map (\<lambda>x. place (x, 100) (Sprite GROUND_TEXTURE TILE_SCALING))
           [0, 64, 128, 192, 256, 400, 464, 528, 592, 656, 800, 864, 928, 992] @
         map (\<lambda>pos. place pos (Sprite PLATFORM_TEXTURE TILE_SCALING))
           [(200, 150), (500, 200), (600, 250), (900, 200)],
       Coins := map (\<lambda>pos. place pos (Sprite COIN_TEXTURE COIN_SCALING))
           [(250, 220), (350, 220), (550, 270), (650, 320), (950, 270)],
       Goal := [place (950, 270) (Sprite FLAG_TEXTURE (TILE_SCALING * (3 / 2)))],
       Enemies := [EnemySprite \<lparr>e_position = (300, 170), e_patrol_min_x = 250,
                                 e_patrol_max_x = 350, e_speed = 2\<rparr>],
       player := Some ((PlayerSprite ''female'')\<lparr>center_x := 100, center_y := 200\<rparr>),
       physics_engine := Some \<lparr>walls =
         map (\<lambda>x. place (x, 100) (Sprite GROUND_TEXTURE TILE_SCALING))
           [0, 64, 128, 192, 256, 400, 464, 528, 592, 656, 800, 864, 928, 992] @
         map (\<lambda>pos. place pos (Sprite PLATFORM_TEXTURE TILE_SCALING))
           [(200, 150), (500, 200), (600, 250), (900, 200)], gravity_constant = GRAVITY\<rparr>,
       total_coins := 5, level_name := ''Forest Path'' \<rparr>"
proof -
  have "setup_level 0 (GameView ''female'') = Inr ((GameView ''female'')
     \<lparr> Walls :=
         map (\<lambda>x. place (x, 100) (Sprite GROUND_TEXTURE TILE_SCALING))
           [0, 64, 128, 192, 256, 400, 464, 528, 592, 656, 800, 864, 928, 992] @
         map (\<lambda>pos. place pos (Sprite PLATFORM_TEXTURE TILE_SCALING))
           [(200, 150), (500, 200), (600, 250), (900, 200)],
       Coins := map (\<lambda>pos. place pos (Sprite COIN_TEXTURE COIN_SCALING))
           [(250, 220), (350, 220), (550, 270), (650, 320), (950, 270)],
       Goal := [place (950, 270) (Sprite FLAG_TEXTURE (TILE_SCALING * (3 / 2)))],
       Enemies := [EnemySprite \<lparr>e_position = (300, 170), e_patrol_min_x = 250,
                                 e_patrol_max_x = 350, e_speed = 2\<rparr>],
       player := Some ((PlayerSprite ''female'')\<lparr>center_x := 100, center_y := 200\<rparr>),
       physics_engine := Some \<lparr>walls =
         map (\<lambda>x. place (x, 100) (Sprite GROUND_TEXTURE TILE_SCALING))
           [0, 64, 128, 192, 256, 400, 464, 528, 592, 656, 800, 864, 928, 992] @
         map (\<lambda>pos. place pos (Sprite PLATFORM_TEXTURE TILE_SCALING))
           [(200, 150), (500, 200), (600, 250), (900, 200)], gravity_constant = GRAVITY\<rparr>,
       total_coins := 5, level_name := ''Forest Path'' \<rparr>)"
    by (simp add: setup_level_def getitem_LEVELS_0 level_1_def Let_def range3_def upt_rec
        GameView_def make_hazard_def PLAYER_MAX_HEALTH_def)
  with fresh_game_setup show ?thesis by simp
qed

subsection \<open>Losing comes before clearing\<close>

lemma showdown_sprites:
  "update_sprites box_arcade (1 / 60) showdown =
     showdown\<lparr>player := Some ((PlayerSprite ''female'')
                  \<lparr>center_x := 950, center_y := 419, change_y := - 1\<rparr>),
       Enemies := [(EnemySprite \<lparr>e_position = (950, 420), e_patrol_min_x = 900,
                               e_patrol_max_x = 1000, e_speed = 3\<rparr>)\<lparr>center_x := 953\<rparr>]\<rparr>"
  by (simp add: update_sprites_def showdown_def handle_input_def Let_def box_defs config_defs
      PlayerSprite_def EnemySprite_def enemy_update_def player_update_animation_def
      sprite.defs place_def Sprite_def)

lemma showdown_collide:
  "update_and_collide box_arcade (1 / 60) showdown =
     showdown\<lparr>player := Some ((PlayerSprite ''female'')
                  \<lparr>center_x := 950, center_y := 419, change_y := 10\<rparr>),
       Enemies := [(EnemySprite \<lparr>e_position = (950, 420), e_patrol_min_x = 900,
                               e_patrol_max_x = 1000, e_speed = 3\<rparr>)\<lparr>center_x := 953\<rparr>],
       health := 0, invuln_timer := 1\<rparr>"
  unfolding update_and_collide_def showdown_sprites
  by (simp add: showdown_def check_coin_collisions_def check_enemy_collisions_def
      check_hazard_collisions_def check_for_collision_with_list_def Let_def box_defs config_defs
      PlayerSprite_def EnemySprite_def sprite.defs)

lemma showdown_overlap:
  "check_for_collision box_arcade
     (sprite.truncate ((PlayerSprite ''female'')\<lparr>center_x := 950, center_y := 419, change_y := 10\<rparr>))
     (place (950, 420) (Sprite FLAG_TEXTURE (TILE_SCALING * (3 / 2))))"
  by (simp add: box_defs config_defs PlayerSprite_def sprite.defs place_def Sprite_def)

text \<open>
  C1. In a frame of a game that is set up, let \<open>s1\<close> be the state after the movement and
  the collision checks. If a lose condition holds there (health at most 0, or the player
  below the kill plane of the level) and the clear condition holds as well (the player
  overlaps the goal and the score is at least the level's coin count), then the lose check
  fires, the goal check would have fired too, and the frame ends in the game-over view
  of a loss, with the state otherwise as the collision checks left it: no win and no
  level advance.
\<close>

theorem lose_checked_before_goal:
  assumes "player s \<noteq> None" and "physics_engine s \<noteq> None"
      and "s1 = update_and_collide ar dt s"
      and "player s1 = Some p" and "Goal s1 = g # gs"
      and "getitem LEVELS (level_index s1) = Inr lv"
      and lose: "health s1 \<le> 0 \<or>
                 center_y p < (case kill_plane_y lv of None \<Rightarrow> KILL_PLANE_Y | Some k \<Rightarrow> k)"
      and clear: "check_for_collision ar (sprite.truncate p) g \<and> total_coins s1 \<le> score s1"
  shows "check_lose s1 = Inr True \<and> check_goal ar s1 \<and>
         on_update ar dt s =
           Inr (s1\<lparr>window_view := GameOverView False (score s1) (level_name s1)\<rparr>)"
proof -
  have l: "check_lose s1 = Inr True"
    using check_lose_eq [OF assms(4) assms(6)] lose by simp
  have g: "check_goal ar s1"
    using check_goal_eq [OF assms(4) assms(5)] clear by simp
  have n: "level_name s1 = level_name s" by (simp add: assms(3))
  from on_update_lost [OF assms(1) assms(2), of ar dt] l
  have "on_update ar dt s =
          Inr (s1\<lparr>window_view := GameOverView False (score s1) (level_name s1)\<rparr>)"
    unfolding assms(3) n by simp
  with l g show ?thesis by simp
qed

text \<open>
  The state \<open>showdown\<close>: the enemy on the flag takes the last heart in the very frame in
  which the goal check would succeed; the frame ends in a loss.
\<close>

theorem lose_checked_before_goal_witness:
  "(let s1 = update_and_collide box_arcade (1 / 60) showdown
    in health s1 = 0 \<and> total_coins s1 = 8 \<and> score s1 = 8 \<and>
       check_lose s1 = Inr True \<and> check_goal box_arcade s1 \<and>
       on_update box_arcade (1 / 60) showdown =
         Inr (s1\<lparr>window_view := GameOverView False 8 ''Volcano Challenge''\<rparr>))"
proof -
  define s1 where "s1 = update_and_collide box_arcade (1 / 60) showdown"
  have a: "player showdown \<noteq> None" "physics_engine showdown \<noteq> None"
    by (simp_all add: showdown_def)
  have p: "player s1 = Some ((PlayerSprite ''female'')
             \<lparr>center_x := 950, center_y := 419, change_y := 10\<rparr>)"
    and g: "Goal s1 = place (950, 420) (Sprite FLAG_TEXTURE (TILE_SCALING * (3 / 2))) # []"
    and l: "getitem LEVELS (level_index s1) = Inr level_3"
    and h: "health s1 = 0" and c: "total_coins s1 = 8" "score s1 = 8"
    and n: "level_name s1 = ''Volcano Challenge''"
    unfolding s1_def showdown_collide by (simp_all add: showdown_def getitem_LEVELS_2)
  from h have lose: "health s1 \<le> 0 \<or>
      center_y ((PlayerSprite ''female'')\<lparr>center_x := 950, center_y := 419, change_y := 10\<rparr>)
        < (case kill_plane_y level_3 of None \<Rightarrow> KILL_PLANE_Y | Some k \<Rightarrow> k)" by simp
  from showdown_overlap c have clear:
    "check_for_collision box_arcade
       (sprite.truncate ((PlayerSprite ''female'')
          \<lparr>center_x := 950, center_y := 419, change_y := 10\<rparr>))
       (place (950, 420) (Sprite FLAG_TEXTURE (TILE_SCALING * (3 / 2)))) \<and>
     total_coins s1 \<le> score s1" by simp
  from lose_checked_before_goal [OF a s1_def p g l lose clear] h c n
  show ?thesis unfolding Let_def s1_def [symmetric] by simp
qed

subsection \<open>The water hazard\<close>

lemma py_fmod_2_range: "0 \<le> py_fmod x 2 \<and> py_fmod x 2 < 2"
proof -
  have "of_int \<lfloor>x / 2\<rfloor> \<le> x / 2" and "x / 2 < of_int \<lfloor>x / 2\<rfloor> + 1"
    by linarith+
  then show ?thesis unfolding py_fmod_def by linarith
qed

lemma water_offset: "py_int (py_fmod x 2) = 0 \<or> py_int (py_fmod x 2) = 1"
proof -
  from py_fmod_2_range [of x] have "0 \<le> \<lfloor>py_fmod x 2\<rfloor>" "\<lfloor>py_fmod x 2\<rfloor> < 2"
    by (simp_all add: floor_less_iff)
  then have "\<lfloor>py_fmod x 2\<rfloor> = 0 \<or> \<lfloor>py_fmod x 2\<rfloor> = 1" by linarith
  then show ?thesis using py_fmod_2_range [of x] by (simp add: py_int_def)
qed

lemma water_update_animation_fields:
  "center_x (water_update_animation dt h) = center_x h"
  "width (water_update_animation dt h) = width h"
  "scale (water_update_animation dt h) = scale h"
  "texture (water_update_animation dt h) = texture h"
  "base_y (water_update_animation dt h) = base_y h"
  "hazard_class (water_update_animation dt h) = hazard_class h"
  "time (water_update_animation dt h) = time h + dt"
  "center_y (water_update_animation dt h) =
     base_y h + real_of_int (py_int (py_fmod (3 * ((time h + dt) * 2)) 2))"
  by (simp_all add: water_update_animation_def Let_def)

lemma water_animation_run:
  assumes "hazard_class h = WaterHazard_class"
  shows "(let h' = fold hazard_update_animation dts h
          in hazard_class h' = WaterHazard_class \<and>
             center_x h' = center_x h \<and> width h' = width h \<and> scale h' = scale h \<and>
             texture h' = texture h \<and> base_y h' = base_y h \<and>
             time h' = time h + sum_list dts \<and>
             (dts \<noteq> [] \<longrightarrow>
                center_y h' = base_y h + real_of_int (py_int (py_fmod (3 * (time h' * 2)) 2))))"
  using assms
proof (induction dts arbitrary: h rule: rev_induct)
  case Nil
  then show ?case by simp
next
  case (snoc dt dts)
  from snoc.IH [OF snoc.prems] show ?case
    by (simp add: Let_def hazard_update_animation_def water_update_animation_fields)
qed

text \<open>
  C2, as stated, fails: a hazard has one position, \<^verbatim>\<open>center_y\<close>, which the animation
  writes and which the overlap query reads. The water hazard of the third level is at
  height 75; after \<^verbatim>\<open>update_animation(0.25)\<close> it is at 76, the sprite handed to the
  overlap test has changed, and with the box library a player hovering at height 171.5
  above it, which did not touch it before, touches it now.
\<close>

theorem water_collision_box_counterexample:
  "(let h = WaterHazard (375, 75) 150;
        h' = hazard_update_animation (1 / 4) h;
        p = (PlayerSprite ''female'')\<lparr>center_x := 375, center_y := 343 / 2\<rparr>
    in center_y h = 75 \<and> center_y h' = 76 \<and>
       sprite.truncate h' \<noteq> sprite.truncate h \<and>
       check_for_collision_with_list box_arcade p [h] = [] \<and>
       check_for_collision_with_list box_arcade p [h'] = [h'])"
  by (simp add: Let_def WaterHazard_def hazard_update_animation_def water_update_animation_def
      py_fmod_def py_int_def check_for_collision_with_list_def box_defs config_defs
      PlayerSprite_def sprite.defs)

text \<open>
  C2, amended. For every water hazard and every sequence of \<^verbatim>\<open>update_animation\<close> calls
  (one per element of \<open>dts\<close>), the horizontal position, the width and \<^verbatim>\<open>base_y\<close> stay
  as they were at creation. The vertical position, used for drawing and for the overlap
  queries alike, is \<^verbatim>\<open>base_y\<close> plus an offset of 0 or 1 that the accumulated time decides:
  the collision box moves with the drawn position, by at most one pixel.
\<close>

theorem water_hazard_bobs_by_one_pixel:
  "(let h = WaterHazard pos w; h' = fold hazard_update_animation dts h
    in center_x h' = fst pos \<and> width h' = Some w \<and> base_y h' = snd pos \<and>
       (dts = [] \<longrightarrow> center_y h' = snd pos) \<and>
       (dts \<noteq> [] \<longrightarrow>
          center_y h' = snd pos + real_of_int (py_int (py_fmod (3 * (sum_list dts * 2)) 2))) \<and>
       (center_y h' = snd pos \<or> center_y h' = snd pos + 1))"
proof -
  define h where "h = WaterHazard pos w"
  have c: "hazard_class h = WaterHazard_class" by (simp add: h_def WaterHazard_def)
  have i: "center_x h = fst pos" "width h = Some w" "base_y h = snd pos" "time h = 0"
    "center_y h = snd pos"
    by (simp_all add: h_def WaterHazard_def)
  note r = water_animation_run [OF c, of dts, unfolded Let_def i]
  have "center_y (fold hazard_update_animation dts h) = snd pos \<or>
        center_y (fold hazard_update_animation dts h) = snd pos + 1"
  proof (cases "dts = []")
    case True
    then show ?thesis by (simp add: i)
  next
    case False
    with r water_offset [of "3 * (sum_list dts * 2)"] show ?thesis by auto
  qed
  with r i show ?thesis unfolding Let_def h_def [symmetric] by auto
qed

text \<open>
  The water hazard of the third level: after half a second it is one pixel up, after
  two thirds of a second it is back at its base.
\<close>

theorem water_hazard_bobs_by_one_pixel_witness:
  "(let h = WaterHazard (375, 75) 150
    in center_y (fold hazard_update_animation [1 / 4, 1 / 4] h) = 76 \<and>
       center_y (fold hazard_update_animation [1 / 4, 1 / 4, 1 / 6] h) = 75 \<and>
       center_x (fold hazard_update_animation [1 / 4, 1 / 4] h) = 375 \<and>
       base_y (fold hazard_update_animation [1 / 4, 1 / 4] h) = 75)"
  using water_hazard_bobs_by_one_pixel [of "(375, 75)" 150 "[1 / 4, 1 / 4]"]
    water_hazard_bobs_by_one_pixel [of "(375, 75)" 150 "[1 / 4, 1 / 4, 1 / 6]"]
  by (simp add: Let_def py_fmod_def py_int_def)

subsection \<open>Clearing a level\<close>

text \<open>
  In every state of a session the flag is apart from the enemies and hazards of its
  level: level setup leaves it so, and frames and key events keep it so.
\<close>

lemma goal_apart_iff:
  "goal_apart s \<longleftrightarrow>
     (\<exists>p g. player s = Some p \<and> scale p = 1 \<and> width p = None \<and> Goal s = [g] \<and>
            scale g = 3 / 4 \<and> width g = None \<and> - 88 \<le> center_y g \<and>
            (\<forall>e \<in> set (Enemies s). enemy_apart g e) \<and>
            (\<forall>h \<in> set (Hazards s). hazard_apart g h))"
  by (auto simp add: goal_apart_def list_all_iff split: option.splits list.splits)

lemma enemy_update_apart: "enemy_apart g e \<Longrightarrow> enemy_apart g (enemy_update dt e)"
  by (auto simp add: enemy_apart_def enemy_update_def Let_def)

lemma hazard_update_apart: "hazard_apart g h \<Longrightarrow> hazard_apart g (hazard_update_animation dt h)"
proof (cases "hazard_class h")
  case LavaHazard_class
  assume "hazard_apart g h"
  with LavaHazard_class show ?thesis
    by (simp add: hazard_apart_def hazard_update_animation_def lava_update_animation_def Let_def)
next
  case WaterHazard_class
  assume a: "hazard_apart g h"
  from water_offset [of "3 * ((time h + dt) * 2)"]
  have "real_of_int (py_int (py_fmod (3 * ((time h + dt) * 2)) 2)) \<le> 1" by auto
  with a WaterHazard_class show ?thesis
    by (simp add: hazard_apart_def hazard_update_animation_def water_update_animation_fields)
qed

lemma setup_level_apart:
  assumes "0 \<le> li" and "li < 3" and "setup_level li s = Inr s'"
  shows "goal_apart s'"
proof -
  from assms(1,2) have "li = 0 \<or> li = 1 \<or> li = 2" by auto
  then show ?thesis
  proof (elim disjE)
    assume li: "li = 0"
    note f = setup_level_fields [OF getitem_LEVELS_0 assms(3) [unfolded li]]
    show ?thesis unfolding goal_apart_def f(10) f(12) f(13) f(14)
      by (simp add: level_1_def PlayerSprite_def place_def Sprite_def EnemySprite_def
          enemy_apart_def config_defs)
  next
    assume li: "li = 1"
    note f = setup_level_fields [OF getitem_LEVELS_1 assms(3) [unfolded li]]
    show ?thesis unfolding goal_apart_def f(10) f(12) f(13) f(14)
      by (simp add: level_2_def PlayerSprite_def place_def Sprite_def EnemySprite_def
          enemy_apart_def hazard_apart_def make_hazard_def LavaHazard_def WaterHazard_def
          config_defs)
  next
    assume li: "li = 2"
    note f = setup_level_fields [OF getitem_LEVELS_2 assms(3) [unfolded li]]
    show ?thesis unfolding goal_apart_def f(10) f(12) f(13) f(14)
      by (simp add: level_3_def PlayerSprite_def place_def Sprite_def EnemySprite_def
          enemy_apart_def hazard_apart_def make_hazard_def LavaHazard_def WaterHazard_def
          config_defs)
  qed
qed

lemma player_update_animation_size:
  "scale (player_update_animation dt p) = scale p"
  "width (player_update_animation dt p) = width p"
  by (simp_all add: player_update_animation_def Let_def)

lemma update_sprites_player_box:
  assumes "player s = Some p"
      and "\<And>eng q. scale (physics_update ar eng q) = scale q \<and>
                     width (physics_update ar eng q) = width q"
  shows "\<exists>q. player (update_sprites ar dt s) = Some q \<and> scale q = scale p \<and> width q = width p"
  using assms
  by (auto simp add: update_sprites_def handle_input_def Let_def player_update_animation_size
      split: option.splits)

lemma collide_player_box:
  assumes "player m = Some p"
  shows "\<exists>p'. player (check_hazard_collisions ar dt (check_enemy_collisions ar dt
                  (check_coin_collisions ar m))) = Some p' \<and>
              center_x p' = center_x p \<and> center_y p' = center_y p \<and>
              scale p' = scale p \<and> width p' = width p"
proof -
  define c where "c = check_coin_collisions ar m"
  have pc: "player c = Some p" by (simp add: c_def assms)
  define d where "d = check_enemy_collisions ar dt c"
  have "\<exists>q. player d = Some q \<and> center_x q = center_x p \<and> center_y q = center_y p \<and>
            scale q = scale p \<and> width q = width p"
    unfolding d_def check_enemy_collisions_eq [OF pc] by (simp add: pc)
  then obtain q where q: "player d = Some q" "center_x q = center_x p" "center_y q = center_y p"
    "scale q = scale p" "width q = width p" by blast
  have "\<exists>r. player (check_hazard_collisions ar dt d) = Some r \<and> center_x r = center_x q \<and>
            center_y r = center_y q \<and> scale r = scale q \<and> width r = width q"
    unfolding check_hazard_collisions_eq [OF q(1)] by (simp add: q(1))
  with q show ?thesis unfolding d_def c_def by auto
qed

lemma collide_no_hits:
  assumes "player m = Some p"
      and "check_for_collision_with_list ar p (Enemies m) = []"
      and "check_for_collision_with_list ar p (Hazards m) = []"
  shows "health (check_hazard_collisions ar dt (check_enemy_collisions ar dt
                  (check_coin_collisions ar m))) = health m"
proof -
  define c where "c = check_coin_collisions ar m"
  have pc: "player c = Some p" "Enemies c = Enemies m" "Hazards c = Hazards m"
    "health c = health m" by (simp_all add: c_def assms(1))
  define d where "d = check_enemy_collisions ar dt c"
  have d: "d = c\<lparr>invuln_timer := max 0 (invuln_timer c - dt)\<rparr>"
    unfolding d_def check_enemy_collisions_eq [OF pc(1)] by (simp add: pc assms(2))
  then have pd: "player d = Some p" "Hazards d = Hazards m" "health d = health m"
    by (simp_all add: pc)
  have "health (check_hazard_collisions ar dt d) = health m"
    unfolding check_hazard_collisions_eq [OF pd(1)] by (simp add: pd assms(3))
  then show ?thesis unfolding d_def c_def .
qed

lemma update_and_collide_apart:
  assumes "goal_apart s"
      and "\<And>eng q. scale (physics_update ar eng q) = scale q \<and>
                     width (physics_update ar eng q) = width q"
  shows "goal_apart (update_and_collide ar dt s)"
proof -
  from assms(1) obtain p g where p: "player s = Some p" "scale p = 1" "width p = None"
    and g: "Goal s = [g]" "scale g = 3 / 4" "width g = None" "- 88 \<le> center_y g"
    and en: "\<forall>e \<in> set (Enemies s). enemy_apart g e"
    and hz: "\<forall>h \<in> set (Hazards s). hazard_apart g h"
    unfolding goal_apart_iff by blast
  from update_sprites_player_box [OF p(1) assms(2), of dt] obtain q where
    q: "player (update_sprites ar dt s) = Some q" "scale q = scale p" "width q = width p"
    by blast
  from collide_player_box [OF q(1), of ar dt] obtain p' where
    p': "player (update_and_collide ar dt s) = Some p'" "scale p' = scale q" "width p' = width q"
    unfolding update_and_collide_def by blast
  show ?thesis
    unfolding goal_apart_iff
    using p' q(2,3) p(2,3) g en hz
    by (auto simp add: enemy_update_apart hazard_update_apart)
qed

lemma goal_apart_window_view:
  "goal_apart (s\<lparr>window_view := v\<rparr>) = goal_apart s"
  by (simp add: goal_apart_def split: option.splits list.splits)

lemma on_key_press_apart: "goal_apart s \<Longrightarrow> goal_apart (on_key_press ar k s)"
  by (auto simp add: goal_apart_def on_key_press_def split: option.splits list.splits)

lemma on_key_release_apart: "goal_apart s \<Longrightarrow> goal_apart (on_key_release k s)"
  by (auto simp add: goal_apart_def on_key_release_def split: option.splits list.splits)

lemma on_update_apart:
  assumes a: "goal_apart s" and w: "within_boxes ar"
      and li: "0 \<le> level_index s" "level_index s < 3"
      and u: "on_update ar dt s = Inr s'"
  shows "goal_apart s'"
proof -
  define s1 where "s1 = update_and_collide ar dt s"
  from w have ph: "\<And>eng q. scale (physics_update ar eng q) = scale q \<and>
                     width (physics_update ar eng q) = width q"
    by (simp add: within_boxes_def)
  have a1: "goal_apart s1" unfolding s1_def using a ph by (rule update_and_collide_apart)
  have l1: "level_index s1 = level_index s" by (simp add: s1_def)
  show ?thesis
  proof (cases "physics_engine s = None \<or> player s = None")
    case True
    with u a show ?thesis by (simp add: on_update_idle)
  next
    case False
    then have p: "player s \<noteq> None" and e: "physics_engine s \<noteq> None" by simp_all
    from check_lose_valid [of s1] li obtain b where b: "check_lose s1 = Inr b"
      by (auto simp add: l1)
    show ?thesis
    proof (cases b)
      case True
      with b have "check_lose (update_and_collide ar dt s) = Inr True" by (simp add: s1_def)
      from on_update_lost [OF p e this] u a1 show ?thesis
        by (auto simp add: s1_def goal_apart_window_view)
    next
      case nl: False
      with b have lf: "check_lose (update_and_collide ar dt s) = Inr False" by (simp add: s1_def)
      show ?thesis
      proof (cases "check_goal ar (update_and_collide ar dt s)")
        case False
        from on_update_continue [OF p e lf this] u a1 show ?thesis by (auto simp add: s1_def)
      next
        case g: True
        show ?thesis
        proof (cases "level_index s + 1 < 3")
          case False
          from on_update_won [OF p e lf g this] u a1 show ?thesis
            by (auto simp add: s1_def goal_apart_window_view)
        next
          case True
          from on_update_advance [OF p e lf g this] u
          have "setup_level (level_index s + 1)
                  ((update_and_collide ar dt s)\<lparr>level_index := level_index s + 1\<rparr>) = Inr s'"
            by simp
          with li True show ?thesis by (intro setup_level_apart [of "level_index s + 1"]) auto
        qed
      qed
    qed
  qed
qed

lemma start_game_apart: "start_game g = Inr s \<Longrightarrow> goal_apart s"
proof -
  assume a: "start_game g = Inr s"
  then obtain s0 where s0: "setup_level 0 (GameView g) = Inr s0"
    and s: "s = s0\<lparr>window_view := GameView_shown\<rparr>"
    by (auto simp add: start_game_def split: sum.splits)
  from setup_level_apart [OF _ _ s0] have "goal_apart s0" by simp
  with s show ?thesis by (simp add: goal_apart_window_view)
qed

lemma reachable_apart:
  assumes "reachable ar s" and "within_boxes ar"
  shows "goal_apart s"
  using assms
proof (induction rule: reachable.induct)
  case (started g s)
  then show ?case by (simp add: start_game_apart)
next
  case (frame s dt s')
  from reachable_invariant [OF frame.hyps(1)]
  have li: "0 \<le> level_index s" "level_index s < 3" by simp_all
  from frame.IH [OF frame.prems] frame.prems li frame.hyps(3) show ?case
    by (rule on_update_apart)
next
  case (pressed s k)
  then show ?case by (simp add: on_key_press_apart)
next
  case (released s k)
  then show ?case by (simp add: on_key_release_apart)
qed

text \<open>
  Hence a frame of a session whose goal check succeeds is not lost: a player that overlaps
  the flag touches no enemy and no hazard, so the frame costs no heart, and is above the
  kill plane.
\<close>

lemma kill_plane_LEVELS:
  assumes "0 \<le> li" and "li < 3"
  shows "\<exists>lv. getitem LEVELS li = Inr lv \<and> kill_plane_y lv = Some KILL_PLANE_Y"
proof -
  from assms have "li = 0 \<or> li = 1 \<or> li = 2" by auto
  then show ?thesis
    by (auto simp add: getitem_LEVELS_0 getitem_LEVELS_1 getitem_LEVELS_2
        level_1_def level_2_def level_3_def)
qed

lemma enemy_apart_no_overlap:
  assumes "enemy_apart g e" and "scale g = 3 / 4" and "width g = None"
      and "scale q = 1" and "width q = None"
      and "boxes_overlap (sprite.truncate q) g"
  shows "\<not> boxes_overlap (sprite.truncate q) (sprite.truncate e)"
  using assms
  by (auto simp add: enemy_apart_def boxes_overlap_def half_width_def half_height_def
      sprite.defs)

lemma hazard_apart_no_overlap:
  assumes "hazard_apart g h" and "scale g = 3 / 4" and "width g = None"
      and "scale q = 1" and "width q = None"
      and "boxes_overlap (sprite.truncate q) g"
  shows "\<not> boxes_overlap (sprite.truncate q) (sprite.truncate h)"
  using assms
  by (auto simp add: hazard_apart_def boxes_overlap_def half_width_def half_height_def
      sprite.defs)

lemma goal_reached_not_lost:
  assumes r: "reachable ar s" and v: "window_view s = GameView_shown"
      and w: "within_boxes ar"
      and cg: "check_goal ar (update_and_collide ar dt s)"
  shows "check_lose (update_and_collide ar dt s) = Inr False"
proof -
  define m where "m = update_sprites ar dt s"
  define s1 where "s1 = update_and_collide ar dt s"
  from reachable_invariant [OF r] v
  have li: "0 \<le> level_index s" "level_index s < 3" and h: "1 \<le> health s" by simp_all
  from w have ph: "\<And>eng q. scale (physics_update ar eng q) = scale q \<and>
                     width (physics_update ar eng q) = width q"
    and cb: "\<And>a b. check_for_collision ar a b \<Longrightarrow> boxes_overlap a b"
    by (simp_all add: within_boxes_def)
  from reachable_apart [OF r w] obtain p g where p: "player s = Some p" "scale p = 1"
    "width p = None"
    and g: "Goal s = [g]" "scale g = 3 / 4" "width g = None" "- 88 \<le> center_y g"
    and en: "\<forall>e \<in> set (Enemies s). enemy_apart g e"
    and hz: "\<forall>h \<in> set (Hazards s). hazard_apart g h"
    unfolding goal_apart_iff by blast
  from update_sprites_player_box [OF p(1) ph, of dt] obtain q where
    q: "player m = Some q" "scale q = 1" "width q = None"
    unfolding m_def using p(2,3) by auto
  from collide_player_box [OF q(1), of ar dt] obtain p' where
    p': "player s1 = Some p'" "center_x p' = center_x q" "center_y p' = center_y q"
        "scale p' = 1" "width p' = None"
    unfolding s1_def update_and_collide_def m_def using q(2,3) by auto
  have g1: "Goal s1 = [g]" by (simp add: s1_def g)
  from cg have "check_for_collision ar (sprite.truncate p') g"
    unfolding s1_def [symmetric] check_goal_eq [OF p'(1) g1] by simp
  then have "boxes_overlap (sprite.truncate p') g" by (rule cb)
  then have ov: "boxes_overlap (sprite.truncate q) g"
    using p' q by (simp add: boxes_overlap_def half_width_def half_height_def sprite.defs)
  have em: "Enemies m = map (enemy_update (1 / 60)) (Enemies s)"
    and hm: "Hazards m = map (hazard_update_animation dt) (Hazards s)"
    by (simp_all add: m_def)
  have "\<forall>e \<in> set (Enemies m). \<not> check_for_collision ar (sprite.truncate q) (sprite.truncate e)"
  proof
    fix e assume "e \<in> set (Enemies m)"
    then obtain e0 where "e0 \<in> set (Enemies s)" "e = enemy_update (1 / 60) e0"
      unfolding em by auto
    with en have "enemy_apart g e" by (simp add: enemy_update_apart)
    from enemy_apart_no_overlap [OF this g(2,3) q(2,3) ov] cb
    show "\<not> check_for_collision ar (sprite.truncate q) (sprite.truncate e)" by blast
  qed
  then have ne: "check_for_collision_with_list ar q (Enemies m) = []"
    by (simp add: check_for_collision_with_list_def filter_empty_conv)
  have "\<forall>x \<in> set (Hazards m). \<not> check_for_collision ar (sprite.truncate q) (sprite.truncate x)"
  proof
    fix x assume "x \<in> set (Hazards m)"
    then obtain x0 where "x0 \<in> set (Hazards s)" "x = hazard_update_animation dt x0"
      unfolding hm by auto
    with hz have "hazard_apart g x" by (simp add: hazard_update_apart)
    from hazard_apart_no_overlap [OF this g(2,3) q(2,3) ov] cb
    show "\<not> check_for_collision ar (sprite.truncate q) (sprite.truncate x)" by blast
  qed
  then have nh: "check_for_collision_with_list ar q (Hazards m) = []"
    by (simp add: check_for_collision_with_list_def filter_empty_conv)
  have "health s1 = health m"
    unfolding s1_def update_and_collide_def m_def [symmetric]
    using q(1) ne nh by (rule collide_no_hits)
  also have "health m = health s" by (simp add: m_def)
  finally have h1: "\<not> health s1 \<le> 0" using h by simp
  from ov g(2,3,4) q(2,3) have "- 200 < center_y q"
    by (auto simp add: boxes_overlap_def half_height_def sprite.defs)
  then have k: "\<not> center_y p' < KILL_PLANE_Y" by (simp add: p'(3) KILL_PLANE_Y_def)
  have l1: "level_index s1 = level_index s" by (simp add: s1_def)
  from kill_plane_LEVELS [OF li] obtain lv where
    lv: "getitem LEVELS (level_index s1) = Inr lv" "kill_plane_y lv = Some KILL_PLANE_Y"
    unfolding l1 by blast
  show ?thesis
    unfolding s1_def [symmetric] check_lose_eq [OF p'(1) lv(1)] using h1 k lv(2) by simp
qed

text \<open>The three frames of the third library, from a new game to the flag.\<close>

lemmas carried_defs = carried_arcade_def carry_def boxes_overlap_def half_width_def
  half_height_def

lemma carried_within_boxes: "within_boxes carried_arcade"
  by (simp add: within_boxes_def carried_arcade_def carry_def)

lemma start_new_game: "start_game ''female'' = Inr new_game"
  by (simp add: start_game_def fresh_game_setup new_game_def)

lemma new_game_collide:
  "update_and_collide carried_arcade (1 / 60) new_game = two_coins_on"
proof -
  have m: "update_sprites carried_arcade (1 / 60) new_game =
     new_game\<lparr>player := Some ((PlayerSprite ''female'')\<lparr>center_x := 300, center_y := 290\<rparr>),
       Enemies := [(EnemySprite \<lparr>e_position = (300, 170), e_patrol_min_x = 250,
                               e_patrol_max_x = 350, e_speed = 2\<rparr>)\<lparr>center_x := 302\<rparr>]\<rparr>"
    by (simp add: update_sprites_def new_game_def fresh_game_eq GameView_def handle_input_def
        Let_def carried_defs config_defs PlayerSprite_def EnemySprite_def enemy_update_def
        player_update_animation_def sprite.defs place_def Sprite_def)
  show ?thesis
    unfolding update_and_collide_def m two_coins_on_def
    by (simp add: new_game_def fresh_game_eq GameView_def check_coin_collisions_def
        check_enemy_collisions_def check_hazard_collisions_def
        check_for_collision_with_list_def Let_def carried_defs config_defs PlayerSprite_def
        EnemySprite_def sprite.defs place_def Sprite_def collect_coin_def)
qed

lemma two_coins_on_collide:
  "update_and_collide carried_arcade (1 / 60) two_coins_on = four_coins_on"
proof -
  have m: "update_sprites carried_arcade (1 / 60) two_coins_on =
     two_coins_on\<lparr>player := Some ((PlayerSprite ''female'')\<lparr>center_x := 600, center_y := 295\<rparr>),
       Enemies := [(EnemySprite \<lparr>e_position = (300, 170), e_patrol_min_x = 250,
                               e_patrol_max_x = 350, e_speed = 2\<rparr>)\<lparr>center_x := 304\<rparr>]\<rparr>"
    by (simp add: update_sprites_def two_coins_on_def new_game_def fresh_game_eq GameView_def
        handle_input_def
        Let_def carried_defs config_defs PlayerSprite_def EnemySprite_def enemy_update_def
        player_update_animation_def sprite.defs place_def Sprite_def)
  show ?thesis
    unfolding update_and_collide_def m four_coins_on_def
    by (simp add: two_coins_on_def new_game_def fresh_game_eq GameView_def
        check_coin_collisions_def
        check_enemy_collisions_def check_hazard_collisions_def
        check_for_collision_with_list_def Let_def carried_defs config_defs PlayerSprite_def
        EnemySprite_def sprite.defs place_def Sprite_def collect_coin_def)
qed

lemma four_coins_on_collide:
  "update_and_collide carried_arcade (1 / 60) four_coins_on =
     four_coins_on
     \<lparr> Coins := [],
       Enemies := [(EnemySprite \<lparr>e_position = (300, 170), e_patrol_min_x = 250,
                               e_patrol_max_x = 350, e_speed = 2\<rparr>)\<lparr>center_x := 306\<rparr>],
       player := Some ((PlayerSprite ''female'')\<lparr>center_x := 950, center_y := 270\<rparr>),
       score := 5 \<rparr>"
proof -
  have m: "update_sprites carried_arcade (1 / 60) four_coins_on =
     four_coins_on\<lparr>player := Some ((PlayerSprite ''female'')\<lparr>center_x := 950, center_y := 270\<rparr>),
       Enemies := [(EnemySprite \<lparr>e_position = (300, 170), e_patrol_min_x = 250,
                               e_patrol_max_x = 350, e_speed = 2\<rparr>)\<lparr>center_x := 306\<rparr>]\<rparr>"
    by (simp add: update_sprites_def four_coins_on_def new_game_def fresh_game_eq GameView_def
        handle_input_def
        Let_def carried_defs config_defs PlayerSprite_def EnemySprite_def enemy_update_def
        player_update_animation_def sprite.defs place_def Sprite_def)
  show ?thesis
    unfolding update_and_collide_def m
    by (simp add: four_coins_on_def new_game_def fresh_game_eq GameView_def
        check_coin_collisions_def
        check_enemy_collisions_def check_hazard_collisions_def
        check_for_collision_with_list_def Let_def carried_defs config_defs PlayerSprite_def
        EnemySprite_def sprite.defs place_def Sprite_def collect_coin_def)
qed

lemma new_game_frame: "on_update carried_arcade (1 / 60) new_game = Inr two_coins_on"
proof -
  have a: "player new_game \<noteq> None" "physics_engine new_game \<noteq> None"
    by (simp_all add: new_game_def fresh_game_eq GameView_def)
  have l: "check_lose (update_and_collide carried_arcade (1 / 60) new_game) = Inr False"
    unfolding new_game_collide
    by (simp add: check_lose_def two_coins_on_def new_game_def fresh_game_eq GameView_def
        getitem_LEVELS_0 level_1_def KILL_PLANE_Y_def PlayerSprite_def
        PLAYER_MAX_HEALTH_def)
  have g: "\<not> check_goal carried_arcade (update_and_collide carried_arcade (1 / 60) new_game)"
    unfolding new_game_collide
    by (simp add: check_goal_def two_coins_on_def new_game_def fresh_game_eq GameView_def
        carried_defs config_defs PlayerSprite_def sprite.defs place_def Sprite_def)
  from on_update_continue [OF a l g] show ?thesis unfolding new_game_collide .
qed

lemma two_coins_on_frame: "on_update carried_arcade (1 / 60) two_coins_on = Inr four_coins_on"
proof -
  have a: "player two_coins_on \<noteq> None" "physics_engine two_coins_on \<noteq> None"
    by (simp_all add: two_coins_on_def new_game_def fresh_game_eq GameView_def)
  have l: "check_lose (update_and_collide carried_arcade (1 / 60) two_coins_on) = Inr False"
    unfolding two_coins_on_collide
    by (simp add: check_lose_def four_coins_on_def new_game_def fresh_game_eq GameView_def
        getitem_LEVELS_0 level_1_def KILL_PLANE_Y_def PlayerSprite_def
        PLAYER_MAX_HEALTH_def)
  have g: "\<not> check_goal carried_arcade (update_and_collide carried_arcade (1 / 60) two_coins_on)"
    unfolding two_coins_on_collide
    by (simp add: check_goal_def four_coins_on_def new_game_def fresh_game_eq GameView_def
        carried_defs config_defs PlayerSprite_def sprite.defs place_def Sprite_def)
  from on_update_continue [OF a l g] show ?thesis unfolding two_coins_on_collide .
qed

lemma four_coins_on_reachable: "reachable carried_arcade four_coins_on"
proof -
  have v: "window_view new_game = GameView_shown" "window_view two_coins_on = GameView_shown"
    by (simp_all add: two_coins_on_def new_game_def)
  from start_new_game have "reachable carried_arcade new_game" by (rule reachable.started)
  from this v(1) new_game_frame have "reachable carried_arcade two_coins_on"
    by (rule reachable.frame)
  from this v(2) two_coins_on_frame show ?thesis by (rule reachable.frame)
qed

lemma four_coins_on_overlap:
  "check_for_collision carried_arcade
     (sprite.truncate ((PlayerSprite ''female'')\<lparr>center_x := 950, center_y := 270\<rparr>))
     (place (950, 270) (Sprite FLAG_TEXTURE (TILE_SCALING * (3 / 2))))"
  by (simp add: carried_defs config_defs PlayerSprite_def sprite.defs place_def Sprite_def)

text \<open>
  C3. In a frame of a game that is set up, let \<open>s1\<close> be the state after the movement and
  the collision checks. The goal check succeeds if and only if the player overlaps the
  goal marker and the score is at least the coin count of the level. In a session (a
  reachable state, the game being the view shown), with a library within the boxes, the
  lose check, which the frame makes first, does not fire when the goal check succeeds.
  And in any frame in which the lose check does not fire: if the goal check succeeds and
  the level is not the last, the frame returns the state that level setup gives for the
  next index: that index, the same view, and the score and health of \<open>s1\<close>; if it
  succeeds on the last level, the frame ends in the game-over view of a win; if it does
  not succeed, the frame ends in \<open>s1\<close>.
\<close>

theorem level_cleared_iff_goal_and_coins:
  assumes "player s \<noteq> None" and "physics_engine s \<noteq> None"
      and "s1 = update_and_collide ar dt s"
      and "player s1 = Some p" and "Goal s1 = g # gs"
      and "0 \<le> level_index s1"
  shows "(check_goal ar s1 \<longleftrightarrow>
            check_for_collision ar (sprite.truncate p) g \<and> total_coins s1 \<le> score s1) \<and>
         (reachable ar s \<and> window_view s = GameView_shown \<and> within_boxes ar \<and>
          check_goal ar s1 \<longrightarrow> check_lose s1 = Inr False) \<and>
         (check_lose s1 = Inr False \<longrightarrow>
            (if check_goal ar s1
             then if level_index s1 + 1 < int (length LEVELS)
                  then \<exists>s'. on_update ar dt s = Inr s' \<and>
                         setup_level (level_index s1 + 1) (s1\<lparr>level_index := level_index s1 + 1\<rparr>)
                           = Inr s' \<and>
                         level_index s' = level_index s1 + 1 \<and>
                         window_view s' = window_view s1 \<and>
                         score s' = score s1 \<and> health s' = health s1
                  else on_update ar dt s =
                         Inr (s1\<lparr>window_view := GameOverView True (score s1) (level_name s1)\<rparr>)
             else on_update ar dt s = Inr s1))"
proof (intro conjI impI)
  show "check_goal ar s1 \<longleftrightarrow>
          check_for_collision ar (sprite.truncate p) g \<and> total_coins s1 \<le> score s1"
    by (rule check_goal_eq [OF assms(4) assms(5)])
next
  assume "reachable ar s \<and> window_view s = GameView_shown \<and> within_boxes ar \<and>
          check_goal ar s1"
  then have "reachable ar s" "window_view s = GameView_shown" "within_boxes ar"
    "check_goal ar (update_and_collide ar dt s)"
    by (simp_all add: assms(3))
  then show "check_lose s1 = Inr False"
    unfolding assms(3) by (rule goal_reached_not_lost)
next
  assume nl: "check_lose s1 = Inr False"
  have lf: "check_lose (update_and_collide ar dt s) = Inr False"
    using nl by (simp add: assms(3))
  have li: "level_index s1 = level_index s" and n: "level_name s1 = level_name s"
    by (simp_all add: assms(3))
  show "if check_goal ar s1
        then if level_index s1 + 1 < int (length LEVELS)
             then \<exists>s'. on_update ar dt s = Inr s' \<and>
                    setup_level (level_index s1 + 1) (s1\<lparr>level_index := level_index s1 + 1\<rparr>)
                      = Inr s' \<and>
                    level_index s' = level_index s1 + 1 \<and>
                    window_view s' = window_view s1 \<and>
                    score s' = score s1 \<and> health s' = health s1
             else on_update ar dt s =
                    Inr (s1\<lparr>window_view := GameOverView True (score s1) (level_name s1)\<rparr>)
        else on_update ar dt s = Inr s1"
  proof (cases "check_goal ar s1")
    case False
    then have "\<not> check_goal ar (update_and_collide ar dt s)" by (simp add: assms(3))
    from on_update_continue [OF assms(1) assms(2) lf this] False
    show ?thesis by (simp add: assms(3))
  next
    case True
    then have g: "check_goal ar (update_and_collide ar dt s)" by (simp add: assms(3))
    show ?thesis
    proof (cases "level_index s + 1 < 3")
      case False
      from on_update_won [OF assms(1) assms(2) lf g False] True False
      show ?thesis by (simp add: li n) (simp add: assms(3))
    next
      case adv: True
      have gi: "getitem LEVELS (level_index s + 1) = Inr (LEVELS ! nat (level_index s + 1))"
        using assms(6) adv by (simp add: getitem_LEVELS_valid li)
      from setup_level_total [OF gi] obtain s' where
        s': "setup_level (level_index s + 1) (s1\<lparr>level_index := level_index s + 1\<rparr>) = Inr s'" ..
      note f = setup_level_fields [OF gi s']
      have u: "on_update ar dt s = Inr s'"
        using on_update_advance [OF assms(1) assms(2) lf g adv] s' by (simp add: assms(3))
      have nz: "level_index s + 1 \<noteq> 0" using assms(6) by (simp add: li)
      have "\<exists>s'. on_update ar dt s = Inr s' \<and>
              setup_level (level_index s1 + 1) (s1\<lparr>level_index := level_index s1 + 1\<rparr>) = Inr s' \<and>
              level_index s' = level_index s1 + 1 \<and> window_view s' = window_view s1 \<and>
              score s' = score s1 \<and> health s' = health s1"
        using u s' f(1) f(3) f(4) f(7) nz unfolding li by simp
      with True adv show ?thesis by (simp add: li)
    qed
  qed
qed

text \<open>
  The third frame of the third library in a new game: the state before it is reachable,
  the frame collects the fifth coin on the flag, the goal check succeeds, the lose check
  does not fire, and the game moves on to the second level with score 5 and three hearts.
\<close>

theorem level_cleared_iff_goal_and_coins_witness:
  "reachable carried_arcade four_coins_on \<and> window_view four_coins_on = GameView_shown \<and>
   within_boxes carried_arcade \<and>
   (let s1 = update_and_collide carried_arcade (1 / 60) four_coins_on
    in check_goal carried_arcade s1 \<and> check_lose s1 = Inr False \<and>
       level_index s1 = 0 \<and> score s1 = 5 \<and> health s1 = 3 \<and>
       (\<exists>s'. on_update carried_arcade (1 / 60) four_coins_on = Inr s' \<and>
             setup_level 1 (s1\<lparr>level_index := 1\<rparr>) = Inr s' \<and>
             level_index s' = 1 \<and> window_view s' = GameView_shown \<and>
             score s' = 5 \<and> health s' = 3))"
proof -
  define s1 where "s1 = update_and_collide carried_arcade (1 / 60) four_coins_on"
  have a: "player four_coins_on \<noteq> None" "physics_engine four_coins_on \<noteq> None"
    by (simp_all add: four_coins_on_def new_game_def fresh_game_eq GameView_def)
  have v0: "window_view four_coins_on = GameView_shown"
    by (simp add: four_coins_on_def new_game_def)
  have p: "player s1 = Some ((PlayerSprite ''female'')\<lparr>center_x := 950, center_y := 270\<rparr>)"
    and g: "Goal s1 = place (950, 270) (Sprite FLAG_TEXTURE (TILE_SCALING * (3 / 2))) # []"
    and li: "level_index s1 = 0" "0 \<le> level_index s1"
    and h: "health s1 = 3" and c: "total_coins s1 = 5" "score s1 = 5"
    and v: "window_view s1 = GameView_shown"
    unfolding s1_def four_coins_on_collide
    by (simp_all add: four_coins_on_def new_game_def fresh_game_eq GameView_def
        PLAYER_MAX_HEALTH_def)
  note t = level_cleared_iff_goal_and_coins [OF a s1_def p g li(2)]
  from t four_coins_on_overlap c have cg: "check_goal carried_arcade s1" by simp
  from t four_coins_on_reachable v0 carried_within_boxes cg
  have l: "check_lose s1 = Inr False" by blast
  from t l cg li v c h
  have "\<exists>s'. on_update carried_arcade (1 / 60) four_coins_on = Inr s' \<and>
             setup_level 1 (s1\<lparr>level_index := 1\<rparr>) = Inr s' \<and>
             level_index s' = 1 \<and> window_view s' = GameView_shown \<and>
             score s' = 5 \<and> health s' = 3"
    by simp
  with four_coins_on_reachable v0 carried_within_boxes l cg li c h show ?thesis
    unfolding Let_def s1_def [symmetric] by simp
qed

subsection \<open>Level setup\<close>

text \<open>
  C4. For every valid level index \<open>i\<close> (from 0, below the number of levels) and every
  state, \<^verbatim>\<open>setup(i)\<close> returns; afterwards the player stands at the level's start
  position and the invulnerability timer is 0. For \<open>i = 0\<close> the score is 0 and the
  health is PLAYER_MAX_HEALTH; for every other \<open>i\<close> the score and the health are the
  ones the state had before the call.
\<close>

theorem setup_level_places_and_resets:
  assumes "0 \<le> i" and "i < int (length LEVELS)"
  shows "\<exists>s' p. setup_level i s = Inr s' \<and> level_index s' = i \<and>
           player s' = Some p \<and> (center_x p, center_y p) = player_start (LEVELS ! nat i) \<and>
           invuln_timer s' = 0 \<and>
           (i = 0 \<longrightarrow> score s' = 0 \<and> health s' = PLAYER_MAX_HEALTH) \<and>
           (i \<noteq> 0 \<longrightarrow> score s' = score s \<and> health s' = health s)"
proof -
  from assms have g: "getitem LEVELS i = Inr (LEVELS ! nat i)"
    by (simp add: getitem_LEVELS_valid)
  from setup_level_total [OF g] obtain s' where s': "setup_level i s = Inr s'" ..
  note f = setup_level_fields [OF g s']
  show ?thesis
    using s' f(1) f(3) f(4) f(5) f(10) by simp
qed

text \<open>
  A state with score 5, health 2 and half a second of invulnerability left: setting up
  the second level keeps 5 and 2, setting up the first level gives 0 and 3; both clear
  the timer and place the player at the level's start.
\<close>

theorem setup_level_places_and_resets_witness:
  "(\<exists>s' p. setup_level 1 ((GameView ''female'')\<lparr>score := 5, health := 2, invuln_timer := 1 / 2\<rparr>)
              = Inr s' \<and>
           level_index s' = 1 \<and> player s' = Some p \<and> (center_x p, center_y p) = (100, 150) \<and>
           invuln_timer s' = 0 \<and> score s' = 5 \<and> health s' = 2) \<and>
   (\<exists>s' p. setup_level 0 ((GameView ''female'')\<lparr>score := 5, health := 2, invuln_timer := 1 / 2\<rparr>)
              = Inr s' \<and>
           level_index s' = 0 \<and> player s' = Some p \<and> (center_x p, center_y p) = (100, 200) \<and>
           invuln_timer s' = 0 \<and> score s' = 0 \<and> health s' = 3)"
  using setup_level_places_and_resets
          [of 1 "(GameView ''female'')\<lparr>score := 5, health := 2, invuln_timer := 1 / 2\<rparr>"]
        setup_level_places_and_resets
          [of 0 "(GameView ''female'')\<lparr>score := 5, health := 2, invuln_timer := 1 / 2\<rparr>"]
  by (simp add: LEVELS_def level_1_def level_2_def PLAYER_MAX_HEALTH_def)

subsection \<open>The invulnerability timer\<close>

text \<open>
  C5. In every reachable state the invulnerability timer is not negative. For an elapsed
  time that is not negative, a frame from a reachable state returns, the timer is again
  not negative, it has not grown if the health is unchanged (no damage), and if it has
  grown it is exactly 1 and the health has dropped by 1. Inside the frame, with \<open>c\<close> the
  state entering the damage checks: the enemy check first sets the timer to
  \<open>max 0 (timer - delta_time)\<close>; while that is positive it changes nothing else; once it
  is 0, an overlapping enemy costs one heart and sets the timer to 1. The hazard check
  returns its state untouched while the timer is positive (no second decrement);
  otherwise an overlapping hazard costs one heart and sets the timer to 1.
\<close>

theorem invuln_timer_counts_down:
  assumes "reachable ar s" and "0 \<le> dt"
  shows "0 \<le> invuln_timer s \<and>
         (\<exists>s'. on_update ar dt s = Inr s' \<and> 0 \<le> invuln_timer s' \<and>
            (health s' = health s \<longrightarrow> invuln_timer s' \<le> invuln_timer s) \<and>
            (invuln_timer s < invuln_timer s' \<longrightarrow>
               invuln_timer s' = 1 \<and> health s' = health s - 1)) \<and>
         (let c = check_coin_collisions ar (update_sprites ar dt s);
              t = max 0 (invuln_timer s - dt);
              e = check_enemy_collisions ar dt c;
              h = check_hazard_collisions ar dt e
          in (\<exists>p. player c = Some p \<and>
                (if 0 < t then e = c\<lparr>invuln_timer := t\<rparr>
                 else if check_for_collision_with_list ar p (Enemies c) \<noteq> []
                 then health e = health c - 1 \<and> invuln_timer e = 1
                 else e = c\<lparr>invuln_timer := 0\<rparr>)) \<and>
             (\<exists>p. player e = Some p \<and>
                (if 0 < invuln_timer e then h = e
                 else if check_for_collision_with_list ar p (Hazards e) \<noteq> []
                 then health h = health e - 1 \<and> invuln_timer h = 1
                 else h = e)))"
proof -
  note inv = reachable_invariant [OF assms(1)]
  from inv have p: "player s \<noteq> None" and e: "physics_engine s \<noteq> None"
    and li: "0 \<le> level_index s" "level_index s < 3" and t: "0 \<le> invuln_timer s"
    by simp_all
  from on_update_returns [OF li, of ar dt] obtain s' where u: "on_update ar dt s = Inr s'" ..
  from on_update_timer [OF p e li u] t assms(2)
  have "0 \<le> invuln_timer s' \<and>
        (health s' = health s \<longrightarrow> invuln_timer s' \<le> invuln_timer s) \<and>
        (invuln_timer s < invuln_timer s' \<longrightarrow> invuln_timer s' = 1 \<and> health s' = health s - 1)"
    by auto
  with u have frame: "\<exists>s'. on_update ar dt s = Inr s' \<and> 0 \<le> invuln_timer s' \<and>
            (health s' = health s \<longrightarrow> invuln_timer s' \<le> invuln_timer s) \<and>
            (invuln_timer s < invuln_timer s' \<longrightarrow>
               invuln_timer s' = 1 \<and> health s' = health s - 1)" by blast
  define c where "c = check_coin_collisions ar (update_sprites ar dt s)"
  define en where "en = check_enemy_collisions ar dt c"
  have "player c \<noteq> None" using p by (simp add: c_def update_sprites_player_None)
  then obtain pc where pc: "player c = Some pc" by blast
  have tc: "invuln_timer c = invuln_timer s" by (simp add: c_def)
  have "max 0 (invuln_timer s - dt) \<le> 0 \<Longrightarrow> max 0 (invuln_timer s - dt) = 0" by simp
  then have enemy: "if 0 < max 0 (invuln_timer s - dt)
                 then en = c\<lparr>invuln_timer := max 0 (invuln_timer s - dt)\<rparr>
                 else if check_for_collision_with_list ar pc (Enemies c) \<noteq> []
                 then health en = health c - 1 \<and> invuln_timer en = 1
                 else en = c\<lparr>invuln_timer := 0\<rparr>"
    unfolding en_def check_enemy_collisions_eq [OF pc] tc by (simp add: not_less)
  have "player en \<noteq> None"
    using pc by (simp add: en_def check_enemy_collisions_player_None)
  then obtain pe where pe: "player en = Some pe" by blast
  have hazard: "if 0 < invuln_timer en then check_hazard_collisions ar dt en = en
                 else if check_for_collision_with_list ar pe (Hazards en) \<noteq> []
                 then health (check_hazard_collisions ar dt en) = health en - 1 \<and>
                      invuln_timer (check_hazard_collisions ar dt en) = 1
                 else check_hazard_collisions ar dt en = en"
    unfolding check_hazard_collisions_eq [OF pe] by simp
  from t frame pc enemy pe hazard show ?thesis
    unfolding Let_def c_def [symmetric] en_def [symmetric] by blast
qed

text \<open>
  With the contact library: from the start (timer 0, three hearts) a frame of one second
  is a hit, and the timer goes up to 1; from the state that follows, a frame of half a
  second does no damage and the timer goes down to one half.
\<close>

theorem invuln_timer_counts_down_witness:
  "(\<exists>s. reachable contact_arcade s \<and> invuln_timer s = 0 \<and> health s = 3 \<and>
        (\<exists>s'. on_update contact_arcade 1 s = Inr s' \<and> health s' = health s - 1 \<and>
              invuln_timer s' = 1 \<and> invuln_timer s < invuln_timer s')) \<and>
   (\<exists>s. reachable contact_arcade s \<and> invuln_timer s = 1 \<and> health s = 2 \<and>
        (\<exists>s'. on_update contact_arcade (1 / 2) s = Inr s' \<and> health s' = health s \<and>
              invuln_timer s' = 1 / 2 \<and> invuln_timer s' \<le> invuln_timer s))"
proof -
  from contact_three_hearts obtain a where
    a: "reachable contact_arcade a" "among_enemies a" "health a = 3" "invuln_timer a = 0"
    by blast
  from contact_hit [OF a(1) a(2), of 1] a(3) a(4)
  have ua: "on_update contact_arcade 1 a = Inr (update_and_collide contact_arcade 1 a)"
    "health (update_and_collide contact_arcade 1 a) = health a - 1"
    "invuln_timer (update_and_collide contact_arcade 1 a) = 1" by simp_all
  from invuln_timer_counts_down [OF a(1), of 1] ua a(4)
  have first: "\<exists>s'. on_update contact_arcade 1 a = Inr s' \<and> health s' = health a - 1 \<and>
              invuln_timer s' = 1 \<and> invuln_timer a < invuln_timer s'"
    by simp
  from contact_two_hearts obtain b where
    b: "reachable contact_arcade b" "among_enemies b" "health b = 2" "invuln_timer b = 1"
    by blast
  note c = contact_collide [OF b(2), of "1 / 2"]
  have hb: "health (update_and_collide contact_arcade (1 / 2) b) = health b"
    and tb: "invuln_timer (update_and_collide contact_arcade (1 / 2) b) = 1 / 2"
    using c(2) c(3) b(4) by simp_all
  from hb b(3) have "0 < health (update_and_collide contact_arcade (1 / 2) b)" by simp
  from contact_frame [OF b(2) this]
  have ub: "on_update contact_arcade (1 / 2) b =
              Inr (update_and_collide contact_arcade (1 / 2) b)" .
  from invuln_timer_counts_down [OF b(1), of "1 / 2"] ub hb tb
  have second: "\<exists>s'. on_update contact_arcade (1 / 2) b = Inr s' \<and> health s' = health b \<and>
              invuln_timer s' = 1 / 2 \<and> invuln_timer s' \<le> invuln_timer b"
    by simp
  from a first b second show ?thesis by blast
qed

subsection \<open>Health\<close>

text \<open>
  C6. In every reachable state the health lies between 0 and PLAYER_MAX_HEALTH, and it is
  at least 1 while the game is the view shown. In a frame from such a state the health
  after the collision checks is not negative; if it is 0 (or less), the lose check of
  that frame reports a loss and the frame ends in the game-over view of a loss.
\<close>

theorem health_stays_in_bounds:
  assumes "reachable ar s"
  shows "0 \<le> health s \<and> health s \<le> PLAYER_MAX_HEALTH \<and>
         (window_view s = GameView_shown \<longrightarrow>
            1 \<le> health s \<and>
            (let s1 = update_and_collide ar dt s
             in 0 \<le> health s1 \<and>
                (health s1 \<le> 0 \<longrightarrow>
                   check_lose s1 = Inr True \<and>
                   on_update ar dt s =
                     Inr (s1\<lparr>window_view := GameOverView False (score s1) (level_name s1)\<rparr>))))"
proof -
  note inv = reachable_invariant [OF assms(1)]
  from inv have p: "player s \<noteq> None" and e: "physics_engine s \<noteq> None" by simp_all
  define s1 where "s1 = update_and_collide ar dt s"
  note c = update_and_collide_cases [OF p, of ar dt, folded s1_def]
  have n: "level_name s1 = level_name s" by (simp add: s1_def)
  have lost: "check_lose s1 = Inr True \<and>
              on_update ar dt s =
                Inr (s1\<lparr>window_view := GameOverView False (score s1) (level_name s1)\<rparr>)"
    if "health s1 \<le> 0"
  proof -
    from check_lose_health [OF that] have l: "check_lose s1 = Inr True" .
    then have "check_lose (update_and_collide ar dt s) = Inr True" by (simp add: s1_def)
    from on_update_lost [OF p e this] l show ?thesis unfolding n s1_def by simp
  qed
  have "0 \<le> health s1" if "1 \<le> health s" using c that by auto
  with inv lost show ?thesis
    unfolding Let_def s1_def [symmetric] by blast
qed

text \<open>
  With the contact library: two hits from the start leave one heart; the next frame of
  one second takes it, and the frame ends in a loss.
\<close>

theorem health_stays_in_bounds_witness:
  "\<exists>s. reachable contact_arcade s \<and> window_view s = GameView_shown \<and> health s = 1 \<and>
       (let s1 = update_and_collide contact_arcade 1 s
        in health s1 = 0 \<and> check_lose s1 = Inr True \<and>
           on_update contact_arcade 1 s =
             Inr (s1\<lparr>window_view := GameOverView False (score s1) (level_name s1)\<rparr>))"
proof -
  from contact_one_heart obtain s where
    s: "reachable contact_arcade s" "among_enemies s" "health s = 1" "invuln_timer s = 1"
    by blast
  from s(2) have v: "window_view s = GameView_shown" by (simp add: among_enemies_iff)
  note c = contact_collide [OF s(2), of 1]
  have h: "health (update_and_collide contact_arcade 1 s) = 0"
    using c(2) s(3) s(4) by simp
  from health_stays_in_bounds [OF s(1), of 1] v h
  have "let s1 = update_and_collide contact_arcade 1 s
        in health s1 = 0 \<and> check_lose s1 = Inr True \<and>
           on_update contact_arcade 1 s =
             Inr (s1\<lparr>window_view := GameOverView False (score s1) (level_name s1)\<rparr>)"
    by (simp add: Let_def)
  with s(1) v s(3) show ?thesis by blast
qed

subsection \<open>Enemy patrol\<close>

lemma enemy_update_center:
  "patrol_min_x e \<le> patrol_max_x e \<Longrightarrow>
   patrol_min_x e \<le> center_x (enemy_update dt e) \<and> center_x (enemy_update dt e) \<le> patrol_max_x e"
  by (simp add: enemy_update_def Let_def)

lemma enemy_update_speed: "\<bar>change_x (enemy_update dt e)\<bar> = \<bar>change_x e\<bar>"
  by (simp add: enemy_update_def Let_def)

lemma enemy_update_patrol:
  "patrol_min_x (enemy_update dt e) = patrol_min_x e"
  "patrol_max_x (enemy_update dt e) = patrol_max_x e"
  by (simp_all add: enemy_update_def Let_def)

lemma enemy_updates_inv:
  "patrol_min_x e \<le> patrol_max_x e \<Longrightarrow> patrol_min_x e \<le> center_x e \<Longrightarrow>
   center_x e \<le> patrol_max_x e \<Longrightarrow>
   (let e' = fold enemy_update dts e
    in patrol_min_x e' = patrol_min_x e \<and> patrol_max_x e' = patrol_max_x e \<and>
       patrol_min_x e \<le> center_x e' \<and> center_x e' \<le> patrol_max_x e \<and>
       \<bar>change_x e'\<bar> = \<bar>change_x e\<bar>)"
proof (induction dts arbitrary: e)
  case Nil
  then show ?case by simp
next
  case (Cons dt dts)
  have b: "patrol_min_x (enemy_update dt e) \<le> patrol_max_x (enemy_update dt e)"
    using Cons.prems(1) by (simp add: enemy_update_patrol)
  have c: "patrol_min_x (enemy_update dt e) \<le> center_x (enemy_update dt e)"
       "center_x (enemy_update dt e) \<le> patrol_max_x (enemy_update dt e)"
    using enemy_update_center [OF Cons.prems(1), of dt] by (simp_all add: enemy_update_patrol)
  from Cons.IH [OF b c] show ?case
    by (simp add: Let_def enemy_update_patrol enemy_update_speed)
qed

text \<open>
  C7. An enemy whose patrol bounds are ordered and which starts between them stays
  between them after any number of \<^verbatim>\<open>update\<close> calls (one per element of \<open>dts\<close>, the
  elapsed times passed), and the magnitude of its horizontal velocity never changes.
  One call moves it by its velocity; a step that would pass the left bound puts it on
  that bound and negates the velocity, a step that would pass the right bound puts it on
  that one and negates the velocity, and any other step leaves the velocity alone.
\<close>

theorem enemy_patrol_within_bounds:
  assumes "patrol_min_x e \<le> patrol_max_x e"
      and "patrol_min_x e \<le> center_x e" and "center_x e \<le> patrol_max_x e"
  shows "(let e' = fold enemy_update dts e
          in patrol_min_x e \<le> center_x e' \<and> center_x e' \<le> patrol_max_x e \<and>
             \<bar>change_x e'\<bar> = \<bar>change_x e\<bar>) \<and>
         (let x = center_x e + change_x e; e1 = enemy_update dt e
          in (if x < patrol_min_x e
                then center_x e1 = patrol_min_x e \<and> change_x e1 = - change_x e
              else if x > patrol_max_x e
                then center_x e1 = patrol_max_x e \<and> change_x e1 = - change_x e
              else center_x e1 = x \<and> change_x e1 = change_x e))"
proof -
  have "let e1 = enemy_update dt e; x = center_x e + change_x e
        in (if x < patrol_min_x e
              then center_x e1 = patrol_min_x e \<and> change_x e1 = - change_x e
            else if x > patrol_max_x e
              then center_x e1 = patrol_max_x e \<and> change_x e1 = - change_x e
            else center_x e1 = x \<and> change_x e1 = change_x e)"
    by (simp add: enemy_update_def Let_def)
  with enemy_updates_inv [OF assms, of dts] show ?thesis
    by (simp add: Let_def)
qed

text \<open>
  The enemy of the first level (speed 2, between 250 and 350), put at 349: its first
  update would reach 351, so it is put on 350 and turns round; the second takes it to 348.
\<close>

theorem enemy_patrol_within_bounds_witness:
  "(let e = (EnemySprite (hd (enemies level_1)))\<lparr>center_x := 349\<rparr>;
        e' = fold enemy_update [1 / 60, 1 / 60] e
    in patrol_min_x e = 250 \<and> patrol_max_x e = 350 \<and> change_x e = 2 \<and>
       center_x (enemy_update (1 / 60) e) = 350 \<and> change_x (enemy_update (1 / 60) e) = - 2 \<and>
       center_x e' = 348 \<and>
       patrol_min_x e \<le> center_x e' \<and> center_x e' \<le> patrol_max_x e \<and>
       \<bar>change_x e'\<bar> = \<bar>change_x e\<bar>)"
  using enemy_patrol_within_bounds
    [of "(EnemySprite (hd (enemies level_1)))\<lparr>center_x := 349\<rparr>" "[1 / 60, 1 / 60]" "1 / 60"]
  by (simp add: Let_def EnemySprite_def level_1_def enemy_update_def)

subsection \<open>Coins and score\<close>

lemma check_coin_collisions_conserves:
  "subseq (Coins (check_coin_collisions ar s)) (Coins s) \<and>
   score (check_coin_collisions ar s) + int (length (Coins (check_coin_collisions ar s))) =
     score s + int (length (Coins s))"
proof (cases "player s")
  case None
  then show ?thesis by (simp add: check_coin_collisions_None)
next
  case (Some p)
  have "length (filter (\<lambda>c. check_for_collision ar (sprite.truncate p) c) (Coins s)) +
        length (filter (\<lambda>c. \<not> check_for_collision ar (sprite.truncate p) c) (Coins s)) =
        length (Coins s)"
    by (rule sum_length_filter_compl)
  then show ?thesis
    unfolding check_coin_collisions_eq [OF Some] by simp
qed

lemma update_and_collide_conserves:
  "subseq (Coins (update_and_collide ar dt s)) (Coins s) \<and>
   score (update_and_collide ar dt s) + int (length (Coins (update_and_collide ar dt s))) =
     score s + int (length (Coins s))"
  using check_coin_collisions_conserves [of ar "update_sprites ar dt s"] by simp

lemma on_update_stays_or_advances:
  assumes p: "player s \<noteq> None" and e: "physics_engine s \<noteq> None"
      and li: "0 \<le> level_index s" "level_index s < 3"
      and u: "on_update ar dt s = Inr s'"
  shows "score s' = score (update_and_collide ar dt s) \<and>
         (level_index s' = level_index s \<and> Coins s' = Coins (update_and_collide ar dt s) \<or>
          level_index s' = level_index s + 1 \<and> level_index s + 1 < 3)"
proof -
  define s1 where "s1 = update_and_collide ar dt s"
  have l1: "level_index s1 = level_index s" by (simp add: s1_def)
  from check_lose_valid [of s1] li l1 obtain b where b: "check_lose s1 = Inr b" by auto
  have "score s' = score s1 \<and>
         (level_index s' = level_index s \<and> Coins s' = Coins s1 \<or>
          level_index s' = level_index s + 1 \<and> level_index s + 1 < 3)"
  proof (cases "\<not> b \<and> check_goal ar s1 \<and> level_index s + 1 < 3")
    case True
    then have lf: "check_lose (update_and_collide ar dt s) = Inr False"
      and g: "check_goal ar (update_and_collide ar dt s)" and adv: "level_index s + 1 < 3"
      using b by (simp_all add: s1_def)
    have su: "setup_level (level_index s + 1) (s1\<lparr>level_index := level_index s + 1\<rparr>) = Inr s'"
      using on_update_advance [OF p e lf g adv] u by (simp add: s1_def)
    have gi: "getitem LEVELS (level_index s + 1) = Inr (LEVELS ! nat (level_index s + 1))"
      using li adv by (simp add: getitem_LEVELS_valid)
    note f = setup_level_fields [OF gi su]
    from f(1) f(3) li adv show ?thesis by simp
  next
    case False
    have "s' = s1 \<or> (\<exists>v. s' = s1\<lparr>window_view := v\<rparr>)"
    proof (cases b)
      case True
      with b have "check_lose (update_and_collide ar dt s) = Inr True" by (simp add: s1_def)
      from on_update_lost [OF p e this] u show ?thesis by (auto simp add: s1_def)
    next
      case nb: False
      with b have lf: "check_lose (update_and_collide ar dt s) = Inr False" by (simp add: s1_def)
      show ?thesis
      proof (cases "check_goal ar (update_and_collide ar dt s)")
        case True
        with False nb have "\<not> level_index s + 1 < 3" by (simp add: s1_def)
        from on_update_won [OF p e lf True this] u show ?thesis by (auto simp add: s1_def)
      next
        case False
        from on_update_continue [OF p e lf False] u show ?thesis by (auto simp add: s1_def)
      qed
    qed
    then show ?thesis using l1 by auto
  qed
  then show ?thesis by (simp add: s1_def)
qed

lemma frames_within_level:
  assumes "0 \<le> level_index s" and "level_index s < 3" and "frames ar dts s = Inr t"
  shows "level_index s \<le> level_index t \<and> level_index t < 3 \<and>
         (level_index t = level_index s \<longrightarrow>
            subseq (Coins t) (Coins s) \<and>
            score t + int (length (Coins t)) = score s + int (length (Coins s)))"
  using assms
proof (induction dts arbitrary: s)
  case Nil
  then show ?case by simp
next
  case (Cons dt dts)
  show ?case
  proof (cases "window_view s \<noteq> GameView_shown")
    case True
    with Cons.prems show ?thesis by simp
  next
    case False
    from on_update_returns [OF Cons.prems(1,2), of ar dt] obtain s' where
      u: "on_update ar dt s = Inr s'" ..
    with False Cons.prems(3) have r: "frames ar dts s' = Inr t" by simp
    show ?thesis
    proof (cases "physics_engine s = None \<or> player s = None")
      case True
      from on_update_idle [OF this, of ar dt] u have "s' = s" by simp
      with Cons.IH [OF _ _ r] Cons.prems(1,2) show ?thesis by simp
    next
      case False
      then have p: "player s \<noteq> None" and e: "physics_engine s \<noteq> None" by simp_all
      note o = on_update_stays_or_advances [OF p e Cons.prems(1,2) u]
      note c = update_and_collide_conserves [of ar dt s]
      from o have v: "0 \<le> level_index s'" "level_index s' < 3" "level_index s \<le> level_index s'"
        using Cons.prems(1,2) by auto
      note ih = Cons.IH [OF v(1,2) r]
      show ?thesis
      proof (cases "level_index t = level_index s")
        case True
        with ih v(3) have same: "level_index s' = level_index s" "level_index t = level_index s'"
          by simp_all
        with o have cs: "Coins s' = Coins (update_and_collide ar dt s)"
          "score s' = score (update_and_collide ar dt s)" by simp_all
        from ih same(2) have "subseq (Coins t) (Coins s')"
          "score t + int (length (Coins t)) = score s' + int (length (Coins s'))" by simp_all
        with c cs show ?thesis using True Cons.prems(2)
          by (auto intro: subseq_order.order_trans)
      next
        case False
        with ih v(3) show ?thesis by simp
      qed
    qed
  qed
qed

lemma first_coin_sprites:
  "update_sprites box_arcade (1 / 60) first_coin =
     first_coin\<lparr>player := Some ((PlayerSprite ''female'')
                  \<lparr>center_x := 250, center_y := 220, change_y := - 1\<rparr>),
       Enemies := [(EnemySprite \<lparr>e_position = (300, 170), e_patrol_min_x = 250,
                               e_patrol_max_x = 350, e_speed = 2\<rparr>)\<lparr>center_x := 302\<rparr>]\<rparr>"
  by (simp add: update_sprites_def first_coin_def handle_input_def Let_def box_defs config_defs
      PlayerSprite_def EnemySprite_def enemy_update_def player_update_animation_def
      sprite.defs place_def Sprite_def)

lemma first_coin_collide:
  "update_and_collide box_arcade (1 / 60) first_coin = first_coin_taken"
  unfolding update_and_collide_def first_coin_sprites first_coin_taken_def
  by (simp add: first_coin_def check_coin_collisions_def check_enemy_collisions_def
      check_hazard_collisions_def check_for_collision_with_list_def Let_def box_defs config_defs
      PlayerSprite_def EnemySprite_def sprite.defs place_def Sprite_def collect_coin_def)

lemma first_coin_frame:
  "on_update box_arcade (1 / 60) first_coin = Inr first_coin_taken"
proof -
  have a: "player first_coin \<noteq> None" "physics_engine first_coin \<noteq> None"
    by (simp_all add: first_coin_def)
  have l: "check_lose (update_and_collide box_arcade (1 / 60) first_coin) = Inr False"
    unfolding first_coin_collide
    by (simp add: check_lose_def first_coin_taken_def first_coin_def getitem_LEVELS_0
        level_1_def KILL_PLANE_Y_def PlayerSprite_def)
  have g: "\<not> check_goal box_arcade (update_and_collide box_arcade (1 / 60) first_coin)"
    unfolding first_coin_collide
    by (simp add: check_goal_def first_coin_taken_def first_coin_def box_defs config_defs
        PlayerSprite_def sprite.defs place_def Sprite_def)
  from on_update_continue [OF a l g] show ?thesis unfolding first_coin_collide .
qed

lemma first_coin_taken_collide:
  "update_and_collide box_arcade (1 / 60) first_coin_taken =
     first_coin_taken
     \<lparr> Enemies := [(EnemySprite \<lparr>e_position = (300, 170), e_patrol_min_x = 250,
                               e_patrol_max_x = 350, e_speed = 2\<rparr>)\<lparr>center_x := 304\<rparr>],
       player := Some ((PlayerSprite ''female'')
                  \<lparr>center_x := 250, center_y := 229, change_y := 9,
                   texture := PLAYER_FEMALE_JUMP\<rparr>),
       invuln_timer := 59 / 60 \<rparr>"
proof -
  have m: "update_sprites box_arcade (1 / 60) first_coin_taken =
     first_coin_taken
     \<lparr> Enemies := [(EnemySprite \<lparr>e_position = (300, 170), e_patrol_min_x = 250,
                               e_patrol_max_x = 350, e_speed = 2\<rparr>)\<lparr>center_x := 304\<rparr>],
       player := Some ((PlayerSprite ''female'')
                  \<lparr>center_x := 250, center_y := 229, change_y := 9,
                   texture := PLAYER_FEMALE_JUMP\<rparr>) \<rparr>"
    by (simp add: update_sprites_def first_coin_taken_def first_coin_def handle_input_def
        Let_def box_defs config_defs PlayerSprite_def EnemySprite_def enemy_update_def
        player_update_animation_def sprite.defs place_def Sprite_def)
  show ?thesis
    unfolding update_and_collide_def m
    by (simp add: first_coin_taken_def first_coin_def check_coin_collisions_def
        check_enemy_collisions_def check_hazard_collisions_def
        check_for_collision_with_list_def Let_def box_defs config_defs PlayerSprite_def
        EnemySprite_def sprite.defs place_def Sprite_def collect_coin_def)
qed

lemma first_coin_taken_frame:
  "\<exists>t. on_update box_arcade (1 / 60) first_coin_taken = Inr t \<and> level_index t = 0 \<and>
       score t = 1 \<and>
       Coins t = map (\<lambda>pos. place pos (Sprite COIN_TEXTURE COIN_SCALING))
                   [(350, 220), (550, 270), (650, 320), (950, 270)]"
proof -
  have a: "player first_coin_taken \<noteq> None" "physics_engine first_coin_taken \<noteq> None"
    by (simp_all add: first_coin_taken_def first_coin_def)
  have l: "check_lose (update_and_collide box_arcade (1 / 60) first_coin_taken) = Inr False"
    unfolding first_coin_taken_collide
    by (simp add: check_lose_def first_coin_taken_def first_coin_def getitem_LEVELS_0
        level_1_def KILL_PLANE_Y_def PlayerSprite_def)
  have g: "\<not> check_goal box_arcade (update_and_collide box_arcade (1 / 60) first_coin_taken)"
    unfolding first_coin_taken_collide
    by (simp add: check_goal_def first_coin_taken_def first_coin_def box_defs config_defs
        PlayerSprite_def sprite.defs place_def Sprite_def)
  show ?thesis
    unfolding on_update_continue [OF a l g] first_coin_taken_collide
    by (simp add: first_coin_taken_def first_coin_def)
qed

text \<open>
  C8. Every update frame of a game that is set up (with a valid level index) returns, and
  with \<open>p\<close> the player after the movement of the frame and \<open>s1\<close> the state after the
  collision checks: the live coins of \<open>s1\<close> are those of the start of the frame that do not
  overlap \<open>p\<close>, the score of \<open>s1\<close> is the score before plus the number of coins that do,
  no live coin of \<open>s1\<close> overlaps \<open>p\<close>, and no timer, health or other condition enters.
  The frame ends with that score; unless it advances the level it ends with those live
  coins. Over any run of frames that stays in the level the live coins are a subsequence
  of those at the start and the score plus the number of live coins stays the same: a coin
  once removed is never live again and never counted again.
\<close>

theorem frame_collects_coins:
  assumes "player s \<noteq> None" and "physics_engine s \<noteq> None"
      and "0 \<le> level_index s" and "level_index s < int (length LEVELS)"
  shows "(\<exists>p s'. player (update_sprites ar dt s) = Some p \<and> on_update ar dt s = Inr s' \<and>
            (let hit = check_for_collision ar (sprite.truncate p);
                 s1 = update_and_collide ar dt s
             in Coins s1 = filter (\<lambda>c. \<not> hit c) (Coins s) \<and>
                score s1 = score s + int (length (filter hit (Coins s))) \<and>
                (\<forall>c \<in> set (Coins s1). \<not> hit c) \<and>
                score s' = score s1 \<and>
                (level_index s' = level_index s \<longrightarrow> Coins s' = Coins s1) \<and>
                (level_index s' \<noteq> level_index s \<longrightarrow> level_index s' = level_index s + 1))) \<and>
         (\<forall>t. frames ar dts s = Inr t \<and> level_index t = level_index s \<longrightarrow>
            subseq (Coins t) (Coins s) \<and>
            score t + int (length (Coins t)) = score s + int (length (Coins s)))"
proof -
  from assms(3,4) have li: "0 \<le> level_index s" "level_index s < 3" by simp_all
  define m where "m = update_sprites ar dt s"
  have "player m \<noteq> None" using assms(1) by (simp add: m_def update_sprites_player_None)
  then obtain p where p: "player m = Some p" by blast
  define hit where "hit = check_for_collision ar (sprite.truncate p)"
  define s1 where "s1 = update_and_collide ar dt s"
  have fm: "Coins m = Coins s" "score m = score s" by (simp_all add: m_def)
  have c: "Coins s1 = filter (\<lambda>c. \<not> hit c) (Coins s)"
    and sc: "score s1 = score s + int (length (filter hit (Coins s)))"
    unfolding s1_def hit_def
    by (simp_all add: m_def [symmetric] check_coin_collisions_eq [OF p] fm)
  have none: "\<forall>c \<in> set (Coins s1). \<not> hit c" unfolding c by simp
  from on_update_returns [OF li, of ar dt] obtain s' where u: "on_update ar dt s = Inr s'" ..
  note o = on_update_stays_or_advances [OF assms(1,2) li u, folded s1_def]
  have body: "Coins s1 = filter (\<lambda>c. \<not> hit c) (Coins s) \<and>
                score s1 = score s + int (length (filter hit (Coins s))) \<and>
                (\<forall>c \<in> set (Coins s1). \<not> hit c) \<and>
                score s' = score s1 \<and>
                (level_index s' = level_index s \<longrightarrow> Coins s' = Coins s1) \<and>
                (level_index s' \<noteq> level_index s \<longrightarrow> level_index s' = level_index s + 1)"
  proof -
    from o have "score s' = score s1"
      "level_index s' = level_index s \<longrightarrow> Coins s' = Coins s1"
      "level_index s' \<noteq> level_index s \<longrightarrow> level_index s' = level_index s + 1"
      by auto
    with c sc none show ?thesis by (intro conjI)
  qed
  have frame: "\<exists>p s'. player (update_sprites ar dt s) = Some p \<and> on_update ar dt s = Inr s' \<and>
            (let hit = check_for_collision ar (sprite.truncate p);
                 s1 = update_and_collide ar dt s
             in Coins s1 = filter (\<lambda>c. \<not> hit c) (Coins s) \<and>
                score s1 = score s + int (length (filter hit (Coins s))) \<and>
                (\<forall>c \<in> set (Coins s1). \<not> hit c) \<and>
                score s' = score s1 \<and>
                (level_index s' = level_index s \<longrightarrow> Coins s' = Coins s1) \<and>
                (level_index s' \<noteq> level_index s \<longrightarrow> level_index s' = level_index s + 1))"
    unfolding Let_def
    using p [unfolded m_def] u body [unfolded hit_def s1_def]
    by (intro exI [of _ p] exI [of _ s'] conjI) (assumption | blast)+
  have run: "\<forall>t. frames ar dts s = Inr t \<and> level_index t = level_index s \<longrightarrow>
            subseq (Coins t) (Coins s) \<and>
            score t + int (length (Coins t)) = score s + int (length (Coins s))"
    using frames_within_level [OF li] by blast
  from frame run show ?thesis by (rule conjI)
qed

text \<open>
  The state \<open>first_coin\<close> with the box library: the frame removes the one coin the player
  overlaps and makes the score 1, in the very frame in which the enemy takes a heart; the
  next frame finds the coin gone and the score stays 1, four coins live.
\<close>

theorem frame_collects_coins_witness:
  "(\<exists>s'. on_update box_arcade (1 / 60) first_coin = Inr s' \<and> level_index s' = 0 \<and>
         score first_coin = 0 \<and> length (Coins first_coin) = 5 \<and>
         score s' = 1 \<and> health s' = 2 \<and>
         Coins s' = map (\<lambda>pos. place pos (Sprite COIN_TEXTURE COIN_SCALING))
                      [(350, 220), (550, 270), (650, 320), (950, 270)]) \<and>
   (\<exists>t. frames box_arcade [1 / 60, 1 / 60] first_coin = Inr t \<and> level_index t = 0 \<and>
        score t = 1 \<and> subseq (Coins t) (Coins first_coin) \<and>
        score t + int (length (Coins t)) = 5)"
proof -
  have a: "player first_coin \<noteq> None" "physics_engine first_coin \<noteq> None"
    "0 \<le> level_index first_coin" "level_index first_coin < int (length LEVELS)"
    by (simp_all add: first_coin_def)
  have i: "level_index first_coin = 0" "score first_coin = 0" "length (Coins first_coin) = 5"
    "window_view first_coin = GameView_shown"
    by (simp_all add: first_coin_def)
  have k: "level_index first_coin_taken = 0" "score first_coin_taken = 1"
    "health first_coin_taken = 2" "window_view first_coin_taken = GameView_shown"
    "Coins first_coin_taken = map (\<lambda>pos. place pos (Sprite COIN_TEXTURE COIN_SCALING))
                      [(350, 220), (550, 270), (650, 320), (950, 270)]"
    by (simp_all add: first_coin_taken_def first_coin_def)
  from first_coin_taken_frame obtain t where
    t: "on_update box_arcade (1 / 60) first_coin_taken = Inr t" "level_index t = 0" "score t = 1"
    by blast
  have r: "frames box_arcade [1 / 60, 1 / 60] first_coin = Inr t"
    using first_coin_frame t(1) i(4) k(4) by simp
  note th = frame_collects_coins [OF a, of box_arcade "1 / 60" "[1 / 60, 1 / 60]"]
  have "frames box_arcade [1 / 60, 1 / 60] first_coin = Inr t \<and>
        level_index t = level_index first_coin"
    using r t(2) i(1) by simp
  from th [THEN conjunct2, rule_format, OF this]
  have c: "subseq (Coins t) (Coins first_coin)" "score t + int (length (Coins t)) = 5"
    by (simp_all add: i)
  have first: "\<exists>s'. on_update box_arcade (1 / 60) first_coin = Inr s' \<and> level_index s' = 0 \<and>
         score first_coin = 0 \<and> length (Coins first_coin) = 5 \<and>
         score s' = 1 \<and> health s' = 2 \<and>
         Coins s' = map (\<lambda>pos. place pos (Sprite COIN_TEXTURE COIN_SCALING))
                      [(350, 220), (550, 270), (650, 320), (950, 270)]"
    using first_coin_frame k(1,2,3,5) i(2,3) by blast
  have second: "\<exists>t. frames box_arcade [1 / 60, 1 / 60] first_coin = Inr t \<and> level_index t = 0 \<and>
        score t = 1 \<and> subseq (Coins t) (Coins first_coin) \<and>
        score t + int (length (Coins t)) = 5"
    using r t(2,3) c by blast
  from first second show ?thesis by (rule conjI)
qed

subsection \<open>Setup followed by a frame of zero seconds\<close>

lemma box_physics_free:
  assumes "fallen = p\<lparr>center_y := center_y p + (change_y p - gravity_constant eng),
                        change_y := change_y p - gravity_constant eng\<rparr>"
      and "\<not> hits_wall eng fallen"
      and "\<not> hits_wall eng (fallen\<lparr>center_x := center_x fallen + change_x fallen\<rparr>)"
  shows "box_physics eng p = fallen\<lparr>center_x := center_x fallen + change_x fallen\<rparr>"
  using assms by (simp add: box_physics_def Let_def)

lemma fresh_game_fields:
  "player fresh_game = Some ((PlayerSprite ''female'')\<lparr>center_x := 100, center_y := 200\<rparr>)"
  "physics_engine fresh_game = Some \<lparr>walls = Walls fresh_game, gravity_constant = GRAVITY\<rparr>"
  "Coins fresh_game = map (\<lambda>pos. place pos (Sprite COIN_TEXTURE COIN_SCALING))
           [(250, 220), (350, 220), (550, 270), (650, 320), (950, 270)]"
  "Goal fresh_game = [place (950, 270) (Sprite FLAG_TEXTURE (TILE_SCALING * (3 / 2)))]"
  "Enemies fresh_game = [EnemySprite \<lparr>e_position = (300, 170), e_patrol_min_x = 250,
                                 e_patrol_max_x = 350, e_speed = 2\<rparr>]"
  "Hazards fresh_game = []"
  "move_left fresh_game = False" "move_right fresh_game = False"
  "score fresh_game = 0" "health fresh_game = 3" "level_index fresh_game = 0"
  "invuln_timer fresh_game = 0"
  by (simp_all add: fresh_game_eq GameView_def PLAYER_MAX_HEALTH_def)

lemma fresh_game_walls:
  "Walls fresh_game =
         map (\<lambda>x. place (x, 100) (Sprite GROUND_TEXTURE TILE_SCALING))
           [0, 64, 128, 192, 256, 400, 464, 528, 592, 656, 800, 864, 928, 992] @
         map (\<lambda>pos. place pos (Sprite PLATFORM_TEXTURE TILE_SCALING))
           [(200, 150), (500, 200), (600, 250), (900, 200)]"
  by (simp add: fresh_game_eq GameView_def)

lemma fresh_game_no_wall:
  "\<not> hits_wall \<lparr>walls = Walls fresh_game, gravity_constant = GRAVITY\<rparr>
      ((PlayerSprite ''female'')\<lparr>center_x := 100, center_y := 199, change_y := - 1\<rparr>)"
  by (simp add: fresh_game_walls hits_wall_def boxes_overlap_def half_width_def half_height_def
      config_defs PlayerSprite_def sprite.defs place_def Sprite_def)

lemma fresh_game_input:
  "player (handle_input fresh_game) =
     Some ((PlayerSprite ''female'')\<lparr>center_x := 100, center_y := 200\<rparr>)"
  by (simp add: handle_input_def fresh_game_fields Let_def PlayerSprite_def)

lemma fresh_game_fall:
  "box_physics \<lparr>walls = Walls fresh_game, gravity_constant = GRAVITY\<rparr>
      ((PlayerSprite ''female'')\<lparr>center_x := 100, center_y := 200\<rparr>) =
   (PlayerSprite ''female'')\<lparr>center_x := 100, center_y := 199, change_y := - 1\<rparr>"
proof -
  have e: "(PlayerSprite ''female'')\<lparr>center_x := 100, center_y := 199, change_y := - 1\<rparr> =
        ((PlayerSprite ''female'')\<lparr>center_x := 100, center_y := 200\<rparr>)
          \<lparr>center_y := center_y ((PlayerSprite ''female'')\<lparr>center_x := 100, center_y := 200\<rparr>) +
             (change_y ((PlayerSprite ''female'')\<lparr>center_x := 100, center_y := 200\<rparr>) -
              gravity_constant \<lparr>walls = Walls fresh_game, gravity_constant = GRAVITY\<rparr>),
           change_y := change_y ((PlayerSprite ''female'')\<lparr>center_x := 100, center_y := 200\<rparr>) -
              gravity_constant \<lparr>walls = Walls fresh_game, gravity_constant = GRAVITY\<rparr>\<rparr>"
    by (simp add: PlayerSprite_def config_defs)
  have w: "((PlayerSprite ''female'')\<lparr>center_x := 100, center_y := 199, change_y := - 1\<rparr>)
        \<lparr>center_x := center_x ((PlayerSprite ''female'')
              \<lparr>center_x := 100, center_y := 199, change_y := - 1\<rparr>) +
            change_x ((PlayerSprite ''female'')
              \<lparr>center_x := 100, center_y := 199, change_y := - 1\<rparr>)\<rparr> =
        (PlayerSprite ''female'')\<lparr>center_x := 100, center_y := 199, change_y := - 1\<rparr>"
    by (simp add: PlayerSprite_def)
  from box_physics_free [OF e fresh_game_no_wall] fresh_game_no_wall show ?thesis
    unfolding w by simp
qed

lemma fresh_game_moved:
  "player (update_sprites box_arcade 0 fresh_game) =
     Some ((PlayerSprite ''female'')\<lparr>center_x := 100, center_y := 199, change_y := - 1\<rparr>)"
proof -
  have a: "player (update_sprites box_arcade 0 fresh_game) =
      Some (player_update_animation 0
        (box_physics \<lparr>walls = Walls fresh_game, gravity_constant = GRAVITY\<rparr>
           ((PlayerSprite ''female'')\<lparr>center_x := 100, center_y := 200\<rparr>)))"
    using update_sprites_player [OF fresh_game_fields(2) fresh_game_input, of box_arcade 0]
    by (simp add: box_arcade_def)
  have b: "player_update_animation 0
             ((PlayerSprite ''female'')\<lparr>center_x := 100, center_y := 199, change_y := - 1\<rparr>) =
           (PlayerSprite ''female'')\<lparr>center_x := 100, center_y := 199, change_y := - 1\<rparr>"
    by (simp add: player_update_animation_def PlayerSprite_def Let_def)
  show ?thesis unfolding a fresh_game_fall b ..
qed

lemma fresh_game_no_overlap:
  "check_for_collision_with_list box_arcade
     ((PlayerSprite ''female'')\<lparr>center_x := 100, center_y := 199, change_y := - 1\<rparr>)
     (Coins fresh_game) = []"
  "check_for_collision_with_list box_arcade
     ((PlayerSprite ''female'')\<lparr>center_x := 100, center_y := 199, change_y := - 1\<rparr>)
     (map (enemy_update (1 / 60)) (Enemies fresh_game)) = []"
  "\<not> check_for_collision box_arcade
     (sprite.truncate ((PlayerSprite ''female'')\<lparr>center_x := 100, center_y := 199, change_y := - 1\<rparr>))
     (place (950, 270) (Sprite FLAG_TEXTURE (TILE_SCALING * (3 / 2))))"
  by (simp_all add: fresh_game_fields check_for_collision_with_list_def box_defs config_defs
      PlayerSprite_def EnemySprite_def enemy_update_def sprite.defs place_def Sprite_def Let_def)

lemma fresh_game_spawn_clear:
  "check_for_collision_with_list box_arcade
     ((PlayerSprite ''female'')\<lparr>center_x := 100, center_y := 200\<rparr>) (Coins fresh_game) = []"
  "check_for_collision_with_list box_arcade
     ((PlayerSprite ''female'')\<lparr>center_x := 100, center_y := 200\<rparr>) (Enemies fresh_game) = []"
  "check_for_collision_with_list box_arcade
     ((PlayerSprite ''female'')\<lparr>center_x := 100, center_y := 200\<rparr>) (Goal fresh_game) = []"
  by (simp_all add: fresh_game_fields check_for_collision_with_list_def box_defs config_defs
      PlayerSprite_def EnemySprite_def sprite.defs place_def Sprite_def)

lemma contact_no_goal:
  assumes "Goal s = [g]" and "texture g \<noteq> ENEMY_TEXTURE"
  shows "\<not> check_goal contact_arcade s"
  using assms by (simp add: check_goal_def contact_arcade_def split: option.splits)

text \<open>
  C9, as stated, fails: the physics step takes no elapsed time, so it runs in a frame of
  zero seconds as in any other. A new game on the first level with the box library: at
  the start position (100, 200) the player overlaps no coin, no enemy and not the flag,
  and there is no hazard; yet after setup and a frame of zero seconds the player is at
  (100, 199), one gravity step down, with score and health as they were.
\<close>

theorem first_frame_moves_player_counterexample:
  "setup_level 0 (GameView ''female'') = Inr fresh_game \<and>
   (let p0 = (PlayerSprite ''female'')\<lparr>center_x := 100, center_y := 200\<rparr>
    in player fresh_game = Some p0 \<and>
       check_for_collision_with_list box_arcade p0 (Coins fresh_game) = [] \<and>
       check_for_collision_with_list box_arcade p0 (Enemies fresh_game) = [] \<and>
       Hazards fresh_game = [] \<and>
       check_for_collision_with_list box_arcade p0 (Goal fresh_game) = []) \<and>
   (\<exists>s' p'. on_update box_arcade 0 fresh_game = Inr s' \<and> player s' = Some p' \<and>
            center_x p' = 100 \<and> center_y p' = 199 \<and> score s' = 0 \<and> health s' = 3)"
proof -
  define m where "m = update_sprites box_arcade 0 fresh_game"
  define p1 where
    "p1 = (PlayerSprite ''female'')\<lparr>center_x := 100, center_y := 199, change_y := - 1\<rparr>"
  have pm: "player m = Some p1" unfolding m_def p1_def by (rule fresh_game_moved)
  have tm: "invuln_timer m = 0" by (simp add: m_def fresh_game_fields)
  have fm: "Coins m = Coins fresh_game" "score m = 0" "health m = 3"
    "Enemies m = map (enemy_update (1 / 60)) (Enemies fresh_game)" "Hazards m = []"
    by (simp_all add: m_def fresh_game_fields)
  have no: "check_for_collision_with_list box_arcade p1 (Coins fresh_game) = []"
    "check_for_collision_with_list box_arcade p1
       (map (enemy_update (1 / 60)) (Enemies fresh_game)) = []"
    "check_for_collision_with_list box_arcade p1 [] = []"
    unfolding p1_def
    by (rule fresh_game_no_overlap, rule fresh_game_no_overlap)
       (simp add: check_for_collision_with_list_def)
  note c = collide_at_rest [OF pm tm, of box_arcade,
      folded update_and_collide_def [of box_arcade 0 fresh_game, folded m_def], unfolded fm no]
  from c(3) have p1': "player (update_and_collide box_arcade 0 fresh_game) = Some p1" by simp
  have g: "Goal (update_and_collide box_arcade 0 fresh_game) =
             [place (950, 270) (Sprite FLAG_TEXTURE (TILE_SCALING * (3 / 2)))]"
    by (simp add: fresh_game_fields)
  have ng: "\<not> check_goal box_arcade (update_and_collide box_arcade 0 fresh_game)"
    unfolding check_goal_eq [OF p1' g] p1_def using fresh_game_no_overlap(3) by simp
  have ps: "player fresh_game \<noteq> None" "physics_engine fresh_game \<noteq> None"
    and li: "0 \<le> level_index fresh_game" "level_index fresh_game < 3"
    by (simp_all add: fresh_game_fields)
  from on_update_returns [OF li, of box_arcade 0] obtain s' where
    u: "on_update box_arcade 0 fresh_game = Inr s'" ..
  note o = on_update_outcome [OF ps li u]
  from o(3) o(4) ng p1' have "player s' = Some p1" by simp
  moreover have "center_x p1 = 100" "center_y p1 = 199" by (simp_all add: p1_def)
  moreover from o(1) o(2) c(1) c(2) have "score s' = 0" "health s' = 3" by simp_all
  ultimately have frame: "\<exists>s' p'. on_update box_arcade 0 fresh_game = Inr s' \<and>
            player s' = Some p' \<and> center_x p' = 100 \<and> center_y p' = 199 \<and>
            score s' = 0 \<and> health s' = 3"
    using u by blast
  from fresh_game_setup fresh_game_fields(1) fresh_game_fields(6) fresh_game_spawn_clear frame
  show ?thesis by (simp add: Let_def)
qed

text \<open>
  C9, amended. For every valid level index, setup followed by a frame of zero seconds
  returns, and the frame is a full frame. The player \<open>q\<close> that enters the physics step
  stands at the level's start position; after the movement the player \<open>p\<close> stands where
  the physics step puts \<open>q\<close>. The score grows by the number of live coins that overlap
  \<open>p\<close>; the health drops by 1 if an enemy (after its patrol step) or a hazard overlaps
  \<open>p\<close>, and is unchanged otherwise. Unless the frame advances the level, the player is
  still at the position of \<open>p\<close> when the frame ends.
\<close>

theorem first_frame_after_setup:
  assumes "0 \<le> i" and "i < int (length LEVELS)" and "setup_level i s0 = Inr s"
  shows "\<exists>eng q p s'.
           physics_engine s = Some eng \<and> player (handle_input s) = Some q \<and>
           (center_x q, center_y q) = player_start (LEVELS ! nat i) \<and>
           player (update_sprites ar 0 s) = Some p \<and>
           center_x p = center_x (physics_update ar eng q) \<and>
           center_y p = center_y (physics_update ar eng q) \<and>
           on_update ar 0 s = Inr s' \<and>
           score s' = score s + int (length (check_for_collision_with_list ar p (Coins s))) \<and>
           health s' = health s -
             (if check_for_collision_with_list ar p (map (enemy_update (1 / 60)) (Enemies s)) \<noteq> [] \<or>
                 check_for_collision_with_list ar p
                   (map (hazard_update_animation 0) (Hazards s)) \<noteq> []
              then 1 else 0) \<and>
           (level_index s' = i \<longrightarrow>
              (\<exists>p'. player s' = Some p' \<and> center_x p' = center_x p \<and> center_y p' = center_y p))"
proof -
  from assms(1,2) have gi: "getitem LEVELS i = Inr (LEVELS ! nat i)"
    by (simp add: getitem_LEVELS_valid)
  note f = setup_level_fields [OF gi assms(3)]
  from f(15) obtain eng where eng: "physics_engine s = Some eng" by blast
  from handle_input_player [OF f(10)] obtain q where
    q: "player (handle_input s) = Some q"
    and cq: "(center_x q, center_y q) = player_start (LEVELS ! nat i)" by auto
  define m where "m = update_sprites ar 0 s"
  define p where "p = player_update_animation 0 (physics_update ar eng q)"
  have pm: "player m = Some p"
    unfolding m_def p_def by (rule update_sprites_player [OF eng q])
  have cp: "center_x p = center_x (physics_update ar eng q)"
    "center_y p = center_y (physics_update ar eng q)"
    by (simp_all add: p_def)
  have tm: "invuln_timer m = 0" by (simp add: m_def f(5))
  have fm: "Coins m = Coins s" "score m = score s" "health m = health s"
    "Enemies m = map (enemy_update (1 / 60)) (Enemies s)"
    "Hazards m = map (hazard_update_animation 0) (Hazards s)"
    by (simp_all add: m_def)
  note c = collide_at_rest [OF pm tm, of ar, folded update_and_collide_def [of ar 0 s, folded m_def],
      unfolded fm]
  have ps: "player s \<noteq> None" "physics_engine s \<noteq> None" using f(10) eng by simp_all
  have li: "0 \<le> level_index s" "level_index s < 3" using assms(1,2) f(1) by simp_all
  from on_update_returns [OF li, of ar 0] obtain s' where u: "on_update ar 0 s = Inr s'" ..
  note o = on_update_outcome [OF ps li u]
  from c(3) obtain p' where p': "player (update_and_collide ar 0 s) = Some p'"
    "center_x p' = center_x p" "center_y p' = center_y p" by blast
  have last: "level_index s' = i \<longrightarrow>
      (\<exists>p'. player s' = Some p' \<and> center_x p' = center_x p \<and> center_y p' = center_y p)"
    using o(3) p' f(1) by simp
  from eng q cq pm [unfolded m_def] cp u o(1) o(2) c(1) c(2) last show ?thesis
    by (intro exI [of _ eng] exI [of _ q] exI [of _ p] exI [of _ s']) simp
qed

text \<open>
  The second level set up with score 5 and two hearts, with the contact library: the
  frame of zero seconds leaves the player at the start (100, 150) and the score at 5,
  and the enemy contact that is already true there costs a heart.
\<close>

theorem first_frame_after_setup_witness:
  "\<exists>s s' p'. setup_level 1 ((GameView ''female'')\<lparr>score := 5, health := 2\<rparr>) = Inr s \<and>
      on_update contact_arcade 0 s = Inr s' \<and> score s' = 5 \<and> health s' = 1 \<and>
      player s' = Some p' \<and> (center_x p', center_y p') = (100, 150)"
proof -
  define s0 where "s0 = (GameView ''female'')\<lparr>score := 5, health := 2\<rparr>"
  from setup_level_total [OF getitem_LEVELS_1] obtain s where s: "setup_level 1 s0 = Inr s" ..
  note f = setup_level_fields [OF getitem_LEVELS_1 s]
  have sh: "score s = 5" "health s = 2" using f(3) f(4) by (simp_all add: s0_def)
  have coins: "check_for_collision_with_list contact_arcade p (Coins s) = []" for p :: player_sprite
    unfolding f(11)
    by (simp add: check_for_collision_with_list_def contact_arcade_def level_2_def place_def
        Sprite_def COIN_TEXTURE_def ENEMY_TEXTURE_def)
  have enemies: "check_for_collision_with_list contact_arcade p
                   (map (enemy_update (1 / 60)) (Enemies s)) \<noteq> []" for p :: player_sprite
    unfolding f(13)
    by (simp add: check_for_collision_with_list_def contact_arcade_def level_2_def
        EnemySprite_def)
  have i: "(0::int) \<le> 1" "1 < int (length LEVELS)" by simp_all
  from first_frame_after_setup [OF i s, of contact_arcade]
  obtain eng q p s' where r0: "physics_engine s = Some eng"
    and r: "player (handle_input s) = Some q"
    "(center_x q, center_y q) = player_start (LEVELS ! nat 1)"
    "player (update_sprites contact_arcade 0 s) = Some p"
    "center_x p = center_x (physics_update contact_arcade eng q)"
    "center_y p = center_y (physics_update contact_arcade eng q)"
    "on_update contact_arcade 0 s = Inr s'"
    "score s' = score s + int (length (check_for_collision_with_list contact_arcade p (Coins s)))"
    "health s' = health s -
       (if check_for_collision_with_list contact_arcade p
             (map (enemy_update (1 / 60)) (Enemies s)) \<noteq> [] \<or>
           check_for_collision_with_list contact_arcade p
             (map (hazard_update_animation 0) (Hazards s)) \<noteq> []
        then 1 else 0)"
    "level_index s' = 1 \<longrightarrow>
       (\<exists>p'. player s' = Some p' \<and> center_x p' = center_x p \<and> center_y p' = center_y p)"
    by (elim exE conjE) (rule that; assumption)
  have ps: "player s \<noteq> None" "physics_engine s \<noteq> None"
    and li: "0 \<le> level_index s" "level_index s < 3"
    using f(1) f(10) f(15) by simp_all
  have "\<not> check_goal contact_arcade (update_and_collide contact_arcade 0 s)"
    by (rule contact_no_goal [of _ "place (goal_position level_2)
          (Sprite FLAG_TEXTURE (TILE_SCALING * (3 / 2)))"])
       (simp_all add: f(12) place_def Sprite_def flag_is_no_enemy)
  with on_update_outcome(4) [OF ps li r(6)] f(1) have "level_index s' = 1" by simp
  with r(9) obtain p' where p': "player s' = Some p'" "center_x p' = center_x p"
    "center_y p' = center_y p" by blast
  have "(center_x p', center_y p') = (100, 150)"
    using p' r(2) r(4) r(5) by (simp add: contact_arcade_def LEVELS_def level_2_def)
  moreover have "score s' = 5" "health s' = 1"
    using r(7) r(8) coins enemies sh by simp_all
  ultimately show ?thesis
    using s r(6) p'(1) unfolding s0_def by blast
qed

subsection \<open>The goal gate and the score carried over\<close>

lemma shortcut_sprites:
  "update_sprites box_arcade (1 / 60) shortcut =
     shortcut\<lparr>player := Some ((PlayerSprite ''female'')
                  \<lparr>center_x := 950, center_y := 520, change_y := - 1\<rparr>)\<rparr>"
  by (simp add: update_sprites_def shortcut_def handle_input_def Let_def box_defs config_defs
      PlayerSprite_def player_update_animation_def sprite.defs place_def Sprite_def)

lemma shortcut_collide:
  "update_and_collide box_arcade (1 / 60) shortcut =
     shortcut\<lparr>player := Some ((PlayerSprite ''female'')
                  \<lparr>center_x := 950, center_y := 520, change_y := - 1\<rparr>),
       Coins := map (\<lambda>pos. place pos (Sprite COIN_TEXTURE COIN_SCALING))
                  [(350, 320), (450, 370), (600, 370), (650, 420), (800, 470)],
       score := 7\<rparr>"
  unfolding update_and_collide_def shortcut_sprites
  by (simp add: shortcut_def check_coin_collisions_def check_enemy_collisions_def
      check_hazard_collisions_def check_for_collision_with_list_def Let_def box_defs config_defs
      PlayerSprite_def sprite.defs place_def Sprite_def collect_coin_def)

lemma shortcut_overlap:
  "check_for_collision box_arcade
     (sprite.truncate ((PlayerSprite ''female'')\<lparr>center_x := 950, center_y := 520, change_y := - 1\<rparr>))
     (place (950, 520) (Sprite FLAG_TEXTURE (TILE_SCALING * (3 / 2))))"
  by (simp add: box_defs config_defs PlayerSprite_def sprite.defs place_def Sprite_def)

text \<open>
  C10. Level \<open>i > 0\<close> is set up from a state whose score is positive; setup keeps that
  score and records the coin count of level \<open>i\<close> alone. Take any later frame of that
  level in which, after the movement and the collision checks, the player overlaps the
  goal, nothing is lost, and the score is the carried score plus \<open>k\<close>, the coins collected
  in this level, with \<open>k\<close> at least the coin count minus the carried score. Then the
  goal check succeeds and the frame advances to the next level (or wins on the last one).
  When \<open>k\<close> is exactly the difference it is below the coin count: coins of the level are
  left uncollected.
\<close>

theorem goal_gate_counts_carried_score:
  assumes "0 < i" and "setup_level i s = Inr s0" and "0 < score s"
      and "player t \<noteq> None" and "physics_engine t \<noteq> None"
      and "level_index t = i" and "total_coins t = total_coins s0"
      and "t1 = update_and_collide ar dt t"
      and "player t1 = Some p" and "Goal t1 = g # gs"
      and "check_for_collision ar (sprite.truncate p) g"
      and "score t1 = score s + k" and "0 \<le> k" and "total_coins s0 - score s \<le> k"
      and "check_lose t1 = Inr False"
  shows "score s0 = score s \<and>
         (\<exists>lv. getitem LEVELS i = Inr lv \<and> total_coins s0 = int (length (coins lv))) \<and>
         (k = total_coins s0 - score s \<longrightarrow> k < total_coins s0) \<and>
         check_goal ar t1 \<and>
         (if i + 1 < int (length LEVELS)
          then on_update ar dt t = setup_level (i + 1) (t1\<lparr>level_index := i + 1\<rparr>)
          else on_update ar dt t =
                 Inr (t1\<lparr>window_view := GameOverView True (score t1) (level_name t1)\<rparr>))"
proof -
  obtain lv where gi: "getitem LEVELS i = Inr lv"
    using assms(2) setup_level_error [of i _ s] by (cases "getitem LEVELS i") auto
  note f = setup_level_fields [OF gi assms(2)]
  have sc: "score s0 = score s" using f(3) assms(1) by simp
  have tc: "total_coins t1 = total_coins s0" by (simp add: assms(8) assms(7))
  have g: "check_goal ar t1"
    using check_goal_eq [OF assms(9) assms(10), of ar] assms(11) assms(12) assms(14) tc by simp
  have lf: "check_lose (update_and_collide ar dt t) = Inr False"
    using assms(15) by (simp add: assms(8))
  have g': "check_goal ar (update_and_collide ar dt t)" using g by (simp add: assms(8))
  have n: "level_name t1 = level_name t" by (simp add: assms(8))
  have out: "if i + 1 < int (length LEVELS)
          then on_update ar dt t = setup_level (i + 1) (t1\<lparr>level_index := i + 1\<rparr>)
          else on_update ar dt t =
                 Inr (t1\<lparr>window_view := GameOverView True (score t1) (level_name t1)\<rparr>)"
  proof (cases "level_index t + 1 < 3")
    case True
    from on_update_advance [OF assms(4) assms(5) lf g' True] True
    show ?thesis by (simp add: assms(6) assms(8))
  next
    case False
    from on_update_won [OF assms(4) assms(5) lf g' False] False
    show ?thesis by (simp add: assms(6) assms(8))
  qed
  from sc gi f(6) g out assms(3) show ?thesis by auto
qed

text \<open>
  The state \<open>shortcut\<close>: the second level has seven coins and was entered with score 5.
  The frame collects the second coin of the level, on the flag; the score is 7, five
  coins are still live, and the game moves on to the third level.
\<close>

theorem goal_gate_counts_carried_score_witness:
  "\<exists>s0. setup_level 1 ((GameView ''female'')\<lparr>score := 5\<rparr>) = Inr s0 \<and>
        score s0 = 5 \<and> total_coins s0 = 7 \<and> total_coins shortcut = 7 \<and>
        (let t1 = update_and_collide box_arcade (1 / 60) shortcut
         in score t1 = 5 + 2 \<and> length (Coins t1) = 5 \<and>
            check_lose t1 = Inr False \<and> check_goal box_arcade t1 \<and>
            on_update box_arcade (1 / 60) shortcut = setup_level 2 (t1\<lparr>level_index := 2\<rparr>))"
proof -
  define s where "s = (GameView ''female'')\<lparr>score := 5\<rparr>"
  define t1 where "t1 = update_and_collide box_arcade (1 / 60) shortcut"
  from setup_level_total [OF getitem_LEVELS_1] obtain s0 where s0: "setup_level 1 s = Inr s0" ..
  note f = setup_level_fields [OF getitem_LEVELS_1 s0]
  have tc: "total_coins s0 = 7" using f(6) by (simp add: level_2_def)
  have sc: "score s = 5" by (simp add: s_def)
  have a: "player shortcut \<noteq> None" "physics_engine shortcut \<noteq> None"
    "level_index shortcut = 1" "total_coins shortcut = total_coins s0"
    by (simp_all add: shortcut_def tc)
  have p: "player t1 = Some ((PlayerSprite ''female'')
             \<lparr>center_x := 950, center_y := 520, change_y := - 1\<rparr>)"
    and g: "Goal t1 = place (950, 520) (Sprite FLAG_TEXTURE (TILE_SCALING * (3 / 2))) # []"
    and li: "level_index t1 = 1" and h: "health t1 = 3"
    and k: "score t1 = score s + 2" and c: "length (Coins t1) = 5"
    unfolding t1_def shortcut_collide by (simp_all add: shortcut_def sc)
  have l: "check_lose t1 = Inr False"
    using check_lose_eq [OF p, of level_2] li h getitem_LEVELS_1
    by (simp add: level_2_def KILL_PLANE_Y_def)
  from goal_gate_counts_carried_score
         [OF _ s0 _ a t1_def p g shortcut_overlap k _ _ l] tc sc
  have "score s0 = 5 \<and> check_goal box_arcade t1 \<and>
        on_update box_arcade (1 / 60) shortcut = setup_level 2 (t1\<lparr>level_index := 2\<rparr>)"
    by simp
  with s0 tc a(4) k sc c l show ?thesis
    unfolding Let_def t1_def [symmetric] s_def [symmetric] by auto
qed

end
